(* ===== verification/Probe_Prelude.thy ===== *)
theory Probe_Prelude
  imports Main "HOL-Library.Word"
begin

unbundle bit_operations_syntax

text \<open>
  Shared vocabulary of the development: the ways a C program of this repository can go
  wrong (\<open>fault\<close>), results of computations that may go wrong (\<open>fault + 'a\<close>, sequenced by
  \<open>sbind\<close>), bounds-checked reads and writes of a byte buffer in network byte order, C string
  helpers (decimal printing, \<open>strcpy\<close> into an array of known capacity), the capture loop of
  the packet library as a fold of the registered handler, and the list and word lemmas that
  the component theories share.
\<close>

section \<open>Fact collections\<close>

named_theorems mem_simps \<open>unfolding of the bounds-checked memory accesses\<close>
named_theorems sess_simps \<open>frame facts of the session operations\<close>
named_theorems ext_simps \<open>unfolding of the recorded external calls\<close>
named_theorems run_intros \<open>rules by which a run function keeps its session off the list of clients\<close>

section \<open>Machine types and faults\<close>

type_synonym byte = "8 word"
type_synonym u16 = "16 word"
type_synonym u32 = "32 word"
type_synonym u64 = "64 word"
type_synonym buffer = "byte list"

text \<open>
  \<open>Out_of_bounds\<close> is an access outside the memory that was handed to the code, \<open>Null_pointer\<close> the
  use of a null pointer, \<open>Buffer_overflow\<close> a string copied into an array that cannot hold it,
  \<open>Div_by_zero\<close> an integer division by zero, \<open>Use_after_free\<close> the use of an object that has
  already been released.
\<close>

datatype fault = Out_of_bounds | Null_pointer | Buffer_overflow | Div_by_zero | Use_after_free

definition sbind :: "'e + 'a \<Rightarrow> ('a \<Rightarrow> 'e + 'b) \<Rightarrow> 'e + 'b" where
  "sbind m f = (case m of Inl e \<Rightarrow> Inl e | Inr x \<Rightarrow> f x)"

text \<open>A loop over \<open>xs\<close> whose body may go wrong, which ends the loop.\<close>

fun each :: "('x \<Rightarrow> 's \<Rightarrow> 'e + 's) \<Rightarrow> 'x list \<Rightarrow> 's \<Rightarrow> 'e + 's" where
  "each f [] s = Inr s"
| "each f (x # xs) s = sbind (f x s) (each f xs)"

section \<open>Bounds-checked memory\<close>

definition rd8 :: "buffer \<Rightarrow> nat \<Rightarrow> fault + byte" where
  "rd8 b i = (if i < length b then Inr (b ! i) else Inl Out_of_bounds)"

definition be16 :: "byte \<Rightarrow> byte \<Rightarrow> u16" where
  "be16 h l = push_bit 8 (ucast h) + ucast l"

definition be32 :: "byte \<Rightarrow> byte \<Rightarrow> byte \<Rightarrow> byte \<Rightarrow> u32" where
  "be32 a b c d = push_bit 24 (ucast a) + push_bit 16 (ucast b) + push_bit 8 (ucast c) + ucast d"

text \<open>A 16-bit field in network byte order, read through a pointer and \<open>ntohs\<close>.\<close>

definition rd16 :: "buffer \<Rightarrow> nat \<Rightarrow> fault + u16" where
  "rd16 b i = sbind (rd8 b i) (\<lambda>h. sbind (rd8 b (i + 1)) (\<lambda>l. Inr (be16 h l)))"

definition rd32 :: "buffer \<Rightarrow> nat \<Rightarrow> fault + u32" where
  "rd32 b i = sbind (rd16 b i) (\<lambda>h. sbind (rd16 b (i + 2)) (\<lambda>l.
     Inr (push_bit 16 (ucast h) + ucast l)))"

text \<open>The bytes \<open>[i, i + n)\<close> of a buffer, faulting when they are not all inside it.\<close>

definition rd_bytes :: "'a list \<Rightarrow> nat \<Rightarrow> nat \<Rightarrow> fault + 'a list" where
  "rd_bytes b i n = (if i + n \<le> length b then Inr (take n (drop i b)) else Inl Out_of_bounds)"

definition wr_bytes :: "'a list \<Rightarrow> nat \<Rightarrow> 'a list \<Rightarrow> fault + 'a list" where
  "wr_bytes b i xs = (if i + length xs \<le> length b
     then Inr (take i b @ xs @ drop (i + length xs) b) else Inl Out_of_bounds)"

text \<open>\<open>memmove (b + dst, b + src, n)\<close> inside one buffer.\<close>

definition memmove :: "buffer \<Rightarrow> nat \<Rightarrow> nat \<Rightarrow> nat \<Rightarrow> fault + buffer" where
  "memmove b dst src n = sbind (rd_bytes b src n) (\<lambda>xs. wr_bytes b dst xs)"

section \<open>C strings\<close>

definition digit_char :: "nat \<Rightarrow> char" where
  "digit_char d = char_of (48 + d)"

text \<open>The \<open>%u\<close> and \<open>%d\<close> conversions of \<open>printf\<close>.\<close>

fun dec :: "nat \<Rightarrow> string" where
  "dec n = (if n < 10 then [digit_char n] else dec (n div 10) @ [digit_char (n mod 10)])"

declare dec.simps [simp del]

definition dec_int :: "int \<Rightarrow> string" where
  "dec_int i = (if i < 0 then ''-'' @ dec (nat (- i)) else dec (nat i))"

text \<open>The conversion \<open>%0nd\<close>, padded with zeroes.\<close>

definition padded :: "nat \<Rightarrow> nat \<Rightarrow> string" where
  "padded n k = replicate (n - length (dec k)) CHR ''0'' @ dec k"

text \<open>The dotted form of an IPv4 address in host order.\<close>

definition inet_ntoa :: "u32 \<Rightarrow> string" where
  "inet_ntoa a = dec (unat (drop_bit 24 a)) @ ''.'' @ dec (unat (take_bit 8 (drop_bit 16 a))) @ ''.'' @
     dec (unat (take_bit 8 (drop_bit 8 a))) @ ''.'' @ dec (unat (take_bit 8 a))"

text \<open>The string that starts at the beginning of an array of characters, and its length (\<open>strlen\<close>).\<close>

abbreviation (input) NUL :: char where "NUL \<equiv> CHR 0x00"

definition cstr :: "string \<Rightarrow> string" where
  "cstr mem = takeWhile (\<lambda>c. c \<noteq> NUL) mem"

text \<open>\<open>strcpy\<close> and \<open>sprintf\<close> into an array of \<open>cap\<close> characters: the terminator needs a place too.\<close>

definition str_into :: "nat \<Rightarrow> string \<Rightarrow> fault + string" where
  "str_into cap s = (if length s < cap then Inr s else Inl Buffer_overflow)"

section \<open>The capture loop\<close>

text \<open>
  \<open>pcap_loop\<close> calls the handler registered with it once per packet, in order. Which packets
  arrive is a parameter of every definition that runs a loop.
\<close>

definition pcap_loop :: "('p \<Rightarrow> 's \<Rightarrow> 's) \<Rightarrow> 'p list \<Rightarrow> 's \<Rightarrow> 's" where
  "pcap_loop handler pkts s = fold handler pkts s"

text \<open>
  The contract between a handler and the loop that drives it: an invariant of the handler's
  state which one packet keeps holds after any number of packets.
\<close>

locale packet_handler =
  fixes handler :: "'p \<Rightarrow> 's \<Rightarrow> 's"
    and ok :: "'p \<Rightarrow> bool"
    and inv :: "'s \<Rightarrow> bool"
  assumes handler_inv: "ok p \<Longrightarrow> inv s \<Longrightarrow> inv (handler p s)"
begin

lemma loop_inv:
  assumes "inv s" and "\<And>p. p \<in> set pkts \<Longrightarrow> ok p"
  shows "inv (pcap_loop handler pkts s)"
  using assms
proof (induction pkts arbitrary: s)
  case Nil
  then show ?case by (simp add: pcap_loop_def)
next
  case (Cons p pkts)
  then have "inv (handler p s)" by (simp add: handler_inv)
  then have "inv (pcap_loop handler pkts (handler p s))"
    using Cons.prems(2) by (intro Cons.IH) simp_all
  then show ?case by (simp add: pcap_loop_def)
qed

end

lemma pcap_loop_Nil [simp]: "pcap_loop h [] s = s"
  by (simp add: pcap_loop_def)

lemma pcap_loop_Cons [simp]: "pcap_loop h (p # ps) s = pcap_loop h ps (h p s)"
  by (simp add: pcap_loop_def)

lemma pcap_loop_append: "pcap_loop h (ps @ qs) s = pcap_loop h qs (pcap_loop h ps s)"
  by (simp add: pcap_loop_def)

lemma filter_eq_single: "distinct xs \<Longrightarrow> x \<in> set xs \<Longrightarrow> filter (\<lambda>y. y = x) xs = [x]"
  by (induction xs) (auto simp: filter_empty_conv)

section \<open>Lemmas on results and memory\<close>

lemma sbind_simps [simp]: "sbind (Inl e) f = Inl e" "sbind (Inr x) f = f x"
  by (simp_all add: sbind_def)

lemma sbind_assoc: "sbind (sbind m f) g = sbind m (\<lambda>x. sbind (f x) g)"
  by (cases m) simp_all

lemma each_append: "each f (xs @ ys) s = sbind (each f xs s) (each f ys)"
proof (induction xs arbitrary: s)
  case (Cons x xs)
  then have "each f (xs @ ys) = (\<lambda>s. sbind (each f xs s) (each f ys))" by (rule ext)
  then show ?case by (simp add: sbind_assoc)
qed simp

lemma length_dec_le: "n < 10 ^ k \<Longrightarrow> 0 < k \<Longrightarrow> length (dec n) \<le> k"
proof (induction k arbitrary: n)
  case 0
  then show ?case by simp
next
  case (Suc k)
  show ?case
  proof (cases "n < 10")
    case True
    then show ?thesis by (simp add: dec.simps [of n])
  next
    case False
    then have k: "0 < k" using Suc.prems(1) by (cases k) simp_all
    have "n div 10 < 10 ^ k" using Suc.prems(1) by (simp add: less_mult_imp_div_less mult.commute)
    then have "length (dec (n div 10)) \<le> k" using k by (rule Suc.IH)
    then show ?thesis using False by (simp add: dec.simps [of n])
  qed
qed

lemma length_padded: "k < 10 ^ n \<Longrightarrow> 0 < n \<Longrightarrow> length (padded n k) = n"
  using length_dec_le [of k n] by (simp add: padded_def)

lemma cstr_nul: "NUL \<notin> set s \<Longrightarrow> cstr (s @ NUL # r) = s"
  unfolding cstr_def by (subst takeWhile_append2) auto

lemma cstr_no_nul: "NUL \<notin> set (cstr mem)"
  by (auto simp: cstr_def dest: set_takeWhileD)

lemma sbind_Inr_iff: "sbind m f = Inr y \<longleftrightarrow> (\<exists>x. m = Inr x \<and> f x = Inr y)"
  by (cases m) simp_all

lemma sbind_Inl_iff: "sbind m f = Inl e \<longleftrightarrow> m = Inl e \<or> (\<exists>x. m = Inr x \<and> f x = Inl e)"
  by (cases m) auto

lemma sbind_if: "sbind (if c then a else b) f = (if c then sbind a f else sbind b f)"
  by simp

lemma rd8_in [mem_simps]: "i < length b \<Longrightarrow> rd8 b i = Inr (b ! i)"
  by (simp add: rd8_def)

lemma rd8_out [mem_simps]: "\<not> i < length b \<Longrightarrow> rd8 b i = Inl Out_of_bounds"
  by (simp add: rd8_def)

lemma rd16_in [mem_simps]: "i + 1 < length b \<Longrightarrow> rd16 b i = Inr (be16 (b ! i) (b ! (i + 1)))"
  by (simp add: rd16_def rd8_def)

lemma rd16_out: "\<not> i + 1 < length b \<Longrightarrow> rd16 b i = Inl Out_of_bounds"
  by (simp add: rd16_def rd8_def sbind_def)

lemma rd_bytes_in [mem_simps]: "i + n \<le> length b \<Longrightarrow> rd_bytes b i n = Inr (take n (drop i b))"
  by (simp add: rd_bytes_def)

lemma wr_bytes_in [mem_simps]:
  "i + length xs \<le> length b \<Longrightarrow> wr_bytes b i xs = Inr (take i b @ xs @ drop (i + length xs) b)"
  by (simp add: wr_bytes_def)

lemma wr_bytes_length: "wr_bytes b i xs = Inr b' \<Longrightarrow> length b' = length b"
  by (auto simp: wr_bytes_def split: if_splits)

lemma memmove_length: "memmove b dst src n = Inr b' \<Longrightarrow> length b' = length b"
  by (auto simp: memmove_def sbind_Inr_iff dest: wr_bytes_length)

lemma memmove_in:
  assumes "src + n \<le> length b" and "dst + n \<le> length b"
  shows "memmove b dst src n = Inr (take dst b @ take n (drop src b) @ drop (dst + n) b)"
  using assms by (simp add: memmove_def rd_bytes_def wr_bytes_def)

lemma memmove_out: "length b < src + n \<Longrightarrow> memmove b dst src n = Inl Out_of_bounds"
  by (simp add: memmove_def rd_bytes_def)

text \<open>The valid part of a buffer after a region was moved down to offset \<open>l\<close>.\<close>

lemma take_moved:
  assumes "l \<le> m" and "l \<le> length d" and "i + m \<le> length d"
  shows "take m (take l d @ take m (drop i d) @ z) = take l d @ take (m - l) (drop i d)"
proof -
  have len: "length (take l d) = l" "length (take m (drop i d)) = m"
    using assms by simp_all
  have "take m (take l d @ take m (drop i d) @ z) =
      take m (take l d) @ take (m - l) (take m (drop i d)) @ take (m - l - m) z"
    by (simp only: take_append len)
  then show ?thesis using assms(1) by (simp add: min_def)
qed

section \<open>Lemmas on words\<close>

text \<open>\<open>ucast\<close> up and shift: the value of the network byte order readers.\<close>

lemma unat_byte_less: "unat (b :: byte) < 256"
  by (rule order.strict_trans2 [OF unsigned_less]) simp

lemma unat_ucast_byte:
  assumes "LENGTH('b::len) \<ge> 8"
  shows "unat (ucast (b :: byte) :: 'b word) = unat b"
proof -
  have "unat b < 2 ^ 8" using unat_byte_less [of b] by simp
  also have "(2::nat) ^ 8 \<le> 2 ^ LENGTH('b)" by (rule power_increasing) (use assms in simp_all)
  finally show ?thesis by (simp add: unsigned_ucast_eq take_bit_nat_eq_self)
qed

lemma unat_push8: "unat (push_bit 8 (ucast (b :: byte) :: u16)) = 256 * unat b"
proof -
  have "unat b < 256" by (rule unat_byte_less)
  then show ?thesis
    by (simp add: push_bit_eq_mult unat_word_ariths unat_ucast_byte)
qed

lemma unat_be16: "unat (be16 h l) = 256 * unat h + unat l"
proof -
  have "unat h < 256" "unat l < 256" by (rule unat_byte_less)+
  then show ?thesis
    by (simp add: be16_def unat_word_ariths unat_push8 unat_ucast_byte)
qed

lemma unat_push_u32:
  assumes "k \<le> 24"
  shows "unat (push_bit k (ucast (b :: byte) :: u32)) = 2 ^ k * unat b"
proof -
  have "unat b < 2 ^ 8" using unat_byte_less [of b] by simp
  then have "2 ^ k * unat b < 2 ^ k * 2 ^ 8" by simp
  also have "\<dots> \<le> 2 ^ 32"
    using assms power_increasing [of "k + 8" 32 "2::nat"] by (simp add: power_add)
  finally have lt: "2 ^ k * unat b < 2 ^ 32" .
  have "unat (push_bit k (ucast b :: u32)) = take_bit 32 (push_bit k (unat (ucast b :: u32)))"
    by (simp add: unsigned_push_bit_eq)
  also have "\<dots> = (2 ^ k * unat b) mod 2 ^ 32"
    by (simp add: unat_ucast_byte push_bit_eq_mult take_bit_eq_mod mult.commute)
  finally show ?thesis using lt by simp
qed

lemma unat_be32:
  "unat (be32 a b c d) = 2 ^ 24 * unat a + 2 ^ 16 * unat b + 2 ^ 8 * unat c + unat d"
proof -
  have lt: "unat a < 256" "unat b < 256" "unat c < 256" "unat d < 256"
    by (rule unat_byte_less)+
  then have "2 ^ 24 * unat a + 2 ^ 16 * unat b + 2 ^ 8 * unat c + unat d < 2 ^ 32" by simp
  then show ?thesis
    by (simp add: be32_def unat_word_ariths unat_push_u32 unat_ucast_byte)
qed

text \<open>Subtraction of unsigned words that does not pass zero.\<close>

lemma unat_sub_u32: "unat (b :: u32) \<le> unat a \<Longrightarrow> unat (a - b) = unat a - unat b"
  by (rule unat_sub) (simp add: word_le_nat_alt)

lemma unat_sub_u32_wraps:
  "unat (a :: u32) < unat b \<Longrightarrow> unat (a - b) = 2 ^ 32 + unat a - unat b"
  using unat_sub_if' [of a b] by (simp add: word_le_nat_alt)

lemma unat_add_u32: "unat a + unat b < 2 ^ 32 \<Longrightarrow> unat ((a :: u32) + b) = unat a + unat b"
  by (simp add: unat_word_ariths)

lemma byte_hi_nibble: "unat (drop_bit 4 (b :: byte)) = unat b div 16"
  by (simp add: drop_bit_eq_div unat_div)

lemma byte_lo_nibble: "unat (b AND 15 :: byte) = unat b mod 16"
proof -
  have "b AND 15 = take_bit 4 b" by (simp add: take_bit_eq_mask mask_eq_exp_minus_1)
  then show ?thesis by (simp add: take_bit_eq_mod unat_mod)
qed

section \<open>Lemmas on decimal strings\<close>

lemma digit_char_code: "d < 10 \<Longrightarrow> of_char (digit_char d) = 48 + d"
  by (simp add: digit_char_def)

lemma digit_char_inject: "a < 10 \<Longrightarrow> b < 10 \<Longrightarrow> digit_char a = digit_char b \<longleftrightarrow> a = b"
  by (metis add_left_cancel digit_char_code)

lemma dec_digit: "n < 10 \<Longrightarrow> dec n = [digit_char n]"
  by (subst dec.simps) simp

lemma dec_two: "10 \<le> n \<Longrightarrow> n < 100 \<Longrightarrow> dec n = [digit_char (n div 10), digit_char (n mod 10)]"
  by (subst dec.simps) (simp add: dec_digit)

lemma dec_nonempty: "dec n \<noteq> []"
  by (subst dec.simps) simp

end
