(* ===== verification/Gtp_Header.thy ===== *)
theory Gtp_Header
  imports Probe_Prelude
begin

unbundle bit_operations_syntax

text \<open>
  The GTP header search of \<open>src/gtp/gtpv1.c\<close> and the header layout and macros of
  \<open>include/gtpv1.h\<close>. A packet is a buffer; a pointer into it is an offset. The code keeps the
  captured length and the running offset in 32-bit unsigned integers and compares their
  difference with the size of the next protocol header, so the model does the same, on
  \<open>32 word\<close>. \<open>gtp_ref\<close> is the search written over natural numbers with every comparison made
  before the data is touched; the lemmas relate the two, say when the code is safe, and give
  the frames on which the subtraction passes zero.
\<close>

section \<open>Constants and layout\<close>

abbreviation (input) ETHER_HEADER_LEN :: nat where "ETHER_HEADER_LEN \<equiv> 14"
abbreviation (input) TAG_ETHER_802_1_Q_LENGTH :: nat where "TAG_ETHER_802_1_Q_LENGTH \<equiv> 4"
abbreviation (input) IP_HEADER_LEN :: nat where "IP_HEADER_LEN \<equiv> 20"
abbreviation (input) UDP_HEADER_LEN :: nat where "UDP_HEADER_LEN \<equiv> 8"
abbreviation (input) GTPV1HDR_LEN :: nat where "GTPV1HDR_LEN \<equiv> 8"
abbreviation (input) GTPV1HDROPT_LEN :: nat where "GTPV1HDROPT_LEN \<equiv> 4"

abbreviation (input) ETHERTYPE_VLAN :: u16 where "ETHERTYPE_VLAN \<equiv> 0x8100"
abbreviation (input) ETHERTYPE_IP :: u16 where "ETHERTYPE_IP \<equiv> 0x0800"
abbreviation (input) GTP_C_UDP_PORT :: u16 where "GTP_C_UDP_PORT \<equiv> 2123"
abbreviation (input) GTP_U_UDP_PORT :: u16 where "GTP_U_UDP_PORT \<equiv> 2152"
abbreviation (input) GTP_V1_TYPEVER :: byte where "GTP_V1_TYPEVER \<equiv> 3"

text \<open>
  The first octet of the header holds three bit fields, the option flags in the three low bits
  and type and version in the four high bits.
\<close>

record gtpv1hdr =
  flag_options :: byte
  flag_reserved :: byte
  flag_typever :: byte
  message_type :: byte
  gtp_length :: u16
  teid :: u32

definition rd_gtpv1hdr :: "buffer \<Rightarrow> nat \<Rightarrow> fault + gtpv1hdr" where
  "rd_gtpv1hdr d off =
     sbind (rd8 d off) (\<lambda>flags. sbind (rd8 d (off + 1)) (\<lambda>mt.
     sbind (rd16 d (off + 2)) (\<lambda>len. sbind (rd32 d (off + 4)) (\<lambda>t.
       Inr \<lparr>flag_options = flags AND 7, flag_reserved = drop_bit 3 flags AND 1,
            flag_typever = drop_bit 4 flags, message_type = mt, gtp_length = len, teid = t\<rparr>))))"

record gtpv1hdropt =
  sequence_no :: u16
  npdu_no :: byte
  next_exthdrtype :: byte

definition rd_gtpv1hdropt :: "buffer \<Rightarrow> nat \<Rightarrow> fault + gtpv1hdropt" where
  "rd_gtpv1hdropt d off =
     sbind (rd16 d off) (\<lambda>s. sbind (rd8 d (off + 2)) (\<lambda>n. sbind (rd8 d (off + 3)) (\<lambda>x.
       Inr \<lparr>sequence_no = s, npdu_no = n, next_exthdrtype = x\<rparr>)))"

definition GTP_TYPE :: "byte \<Rightarrow> byte" where
  "GTP_TYPE typever = drop_bit 1 typever"

definition GTP_VER :: "byte \<Rightarrow> byte" where
  "GTP_VER typever = typever AND 1"

definition GTP_EXT_FLAG :: "byte \<Rightarrow> byte" where
  "GTP_EXT_FLAG opts = drop_bit 2 (opts AND 4)"

definition GTP_SEQ_FLAG :: "byte \<Rightarrow> byte" where
  "GTP_SEQ_FLAG opts = drop_bit 1 (opts AND 2)"

definition GTP_NPDU_FLAG :: "byte \<Rightarrow> byte" where
  "GTP_NPDU_FLAG opts = opts AND 1"

section \<open>The search\<close>

text \<open>
  \<open>gtpv1_get_header length data\<close>: \<open>Inr (Some off)\<close> is a pointer to \<open>data + off\<close>, \<open>Inr None\<close> the null
  pointer. The port test is short-circuited as in C.
\<close>

definition gtp_port :: "buffer \<Rightarrow> nat \<Rightarrow> fault + bool" where
  "gtp_port d off =
     sbind (rd16 d off) (\<lambda>sport.
       if sport = GTP_U_UDP_PORT then Inr True
       else sbind (rd16 d (off + 2)) (\<lambda>dport.
         Inr (dport = GTP_U_UDP_PORT \<or> sport = GTP_C_UDP_PORT \<or> dport = GTP_C_UDP_PORT)))"

definition gtpv1_get_header :: "u32 \<Rightarrow> buffer \<Rightarrow> fault + u32 option" where
  "gtpv1_get_header len d =
    (if unat (len - 0) < ETHER_HEADER_LEN then Inr None else
     sbind (rd16 d 12) (\<lambda>type0.
     sbind (if type0 = ETHERTYPE_VLAN
            then sbind (rd16 d (12 + TAG_ETHER_802_1_Q_LENGTH)) (\<lambda>t. Inr (t, 18))
            else Inr (type0, 14)) (\<lambda>(ether_type, offset :: u32).
     if ether_type \<noteq> ETHERTYPE_IP then Inr None else
     if unat (len - offset) < IP_HEADER_LEN then Inr None else
     sbind (rd8 d (unat offset)) (\<lambda>vhl.
     if drop_bit 4 vhl \<noteq> 4 then Inr None else
     sbind (rd8 d (unat offset + 9)) (\<lambda>ip_p.
     if ip_p \<noteq> 17 then Inr None else
     let offset = offset + ucast (vhl AND 15) * 4 in
     if unat (len - offset) < UDP_HEADER_LEN then Inr None else
     sbind (gtp_port d (unat offset)) (\<lambda>is_gtp.
     if \<not> is_gtp then Inr None else
     let offset = offset + 8 in
     if unat (len - offset) < GTPV1HDR_LEN then Inr None else
     sbind (rd8 d (unat offset)) (\<lambda>flags.
     if drop_bit 4 flags \<noteq> GTP_V1_TYPEVER then Inr None else Inr (Some offset))))))))"

section \<open>Reference search\<close>

definition l2_len :: "buffer \<Rightarrow> nat" where
  "l2_len d = (if be16 (d ! 12) (d ! 13) = ETHERTYPE_VLAN then 18 else 14)"

definition inner_ether_type :: "buffer \<Rightarrow> u16" where
  "inner_ether_type d = be16 (d ! (l2_len d - 2)) (d ! (l2_len d - 1))"

definition ihl_octets :: "buffer \<Rightarrow> nat" where
  "ihl_octets d = 4 * (unat (d ! l2_len d) mod 16)"

definition udp_off :: "buffer \<Rightarrow> nat" where
  "udp_off d = l2_len d + ihl_octets d"

definition udp_port_ok :: "buffer \<Rightarrow> nat \<Rightarrow> bool" where
  "udp_port_ok d u \<longleftrightarrow>
     (\<exists>p \<in> {be16 (d ! u) (d ! (u + 1)), be16 (d ! (u + 2)) (d ! (u + 3))}.
        p = GTP_U_UDP_PORT \<or> p = GTP_C_UDP_PORT)"

text \<open>
  The frame carries a GTP version 1 header: an Ethernet header with at most one 802.1Q tag, an IPv4
  header whose length is taken from the packet, UDP on a GTP port, and the header itself, all inside
  the first \<open>n\<close> octets.
\<close>

definition gtp_frame :: "nat \<Rightarrow> buffer \<Rightarrow> bool" where
  "gtp_frame n d \<longleftrightarrow>
     14 \<le> n \<and> l2_len d + 20 \<le> n \<and> inner_ether_type d = ETHERTYPE_IP \<and>
     unat (d ! l2_len d) div 16 = 4 \<and> d ! (l2_len d + 9) = 17 \<and>
     udp_off d + 16 \<le> n \<and> udp_port_ok d (udp_off d) \<and> unat (d ! (udp_off d + 8)) div 16 = 3"

definition gtp_ref :: "nat \<Rightarrow> buffer \<Rightarrow> nat option" where
  "gtp_ref n d = (if gtp_frame n d then Some (udp_off d + 8) else None)"

text \<open>
  The frames on which the subtraction of the offset from the captured length passes zero: a tagged
  frame cut off inside its tag, and an IPv4 frame carrying UDP whose header length field points past
  the captured data.
\<close>

definition ip_udp_head :: "buffer \<Rightarrow> bool" where
  "ip_udp_head d \<longleftrightarrow> inner_ether_type d = ETHERTYPE_IP \<and> unat (d ! l2_len d) div 16 = 4 \<and>
     d ! (l2_len d + 9) = 17"

definition underflow_frame :: "nat \<Rightarrow> buffer \<Rightarrow> bool" where
  "underflow_frame n d \<longleftrightarrow> 14 \<le> n \<and>
     (n < l2_len d \<or> l2_len d + 20 \<le> n \<and> ip_udp_head d \<and> n < udp_off d)"

text \<open>A frame put together header by header, the inverse of the search.\<close>

definition mk_frame :: "buffer \<Rightarrow> buffer option \<Rightarrow> buffer \<Rightarrow> u16 \<Rightarrow> u16 \<Rightarrow> buffer \<Rightarrow> buffer \<Rightarrow> buffer"
  where
  "mk_frame macs tag ip sport dport udp_rest gtp =
     macs @ (case tag of None \<Rightarrow> [] | Some tci \<Rightarrow> [0x81, 0x00] @ tci) @ [0x08, 0x00] @ ip @
     [ucast (drop_bit 8 sport), ucast sport, ucast (drop_bit 8 dport), ucast dport] @ udp_rest @ gtp"

section \<open>Lemmas\<close>

lemma gtp_port_in:
  assumes "u + 4 \<le> length d"
  shows "gtp_port d u = Inr (udp_port_ok d u)"
  using assms by (auto simp: gtp_port_def udp_port_ok_def mem_simps numeral_3_eq_3)

lemma l2_len_cases: "l2_len d = 14 \<or> l2_len d = 18"
  by (simp add: l2_len_def)

lemma udp_off_bound: "udp_off d \<le> 78"
proof -
  have "unat (d ! l2_len d) mod 16 \<le> 15" by simp
  then show ?thesis using l2_len_cases [of d] by (auto simp: udp_off_def ihl_octets_def)
qed

lemma vhl_simps:
  "drop_bit 4 (b :: byte) = 4 \<longleftrightarrow> unat b div 16 = 4"
  "drop_bit 4 (b :: byte) = 3 \<longleftrightarrow> unat b div 16 = 3"
  by (simp_all add: word_unat_eq_iff byte_hi_nibble)

lemma ip_offset:
  assumes "unat (offset :: u32) = l2_len d"
  shows "unat (offset + ucast (d ! l2_len d AND 15) * 4) = udp_off d"
proof -
  have m: "unat (d ! l2_len d) mod 16 < 16" by simp
  have c: "unat (ucast (d ! l2_len d AND 15) :: u32) = unat (d ! l2_len d) mod 16"
    by (simp add: unat_ucast_byte byte_lo_nibble)
  have "unat (ucast (d ! l2_len d AND 15) * 4 :: u32) = ihl_octets d"
    using m by (simp add: unat_word_ariths c ihl_octets_def)
  moreover have "l2_len d + ihl_octets d < 2 ^ 32"
    using udp_off_bound [of d] by (simp add: udp_off_def)
  ultimately show ?thesis
    using assms by (simp add: unat_add_u32 udp_off_def)
qed

text \<open>The tail of the search, from the UDP header on.\<close>

definition search_udp :: "u32 \<Rightarrow> buffer \<Rightarrow> u32 \<Rightarrow> fault + u32 option" where
  "search_udp len d offset =
     (if unat (len - offset) < UDP_HEADER_LEN then Inr None else
      sbind (gtp_port d (unat offset)) (\<lambda>is_gtp.
      if \<not> is_gtp then Inr None else
      if unat (len - (offset + 8)) < GTPV1HDR_LEN then Inr None else
      sbind (rd8 d (unat (offset + 8))) (\<lambda>flags.
      if drop_bit 4 flags \<noteq> GTP_V1_TYPEVER then Inr None else Inr (Some (offset + 8)))))"

lemma search_udp_ref:
  assumes "unat offset = udp_off d" and "udp_off d \<le> unat len" and "unat len \<le> length d"
  shows "search_udp len d offset =
    Inr (if udp_off d + 16 \<le> unat len \<and> udp_port_ok d (udp_off d) \<and>
            unat (d ! (udp_off d + 8)) div 16 = 3
         then Some (of_nat (udp_off d + 8)) else None)"
proof (cases "udp_off d + 8 \<le> unat len")
  case True
  have o: "offset = of_nat (udp_off d)" using assms(1) [symmetric] by simp
  have o8: "unat (offset + 8) = udp_off d + 8"
    using assms(1) udp_off_bound [of d] by (simp add: unat_add_u32)
  have p: "gtp_port d (udp_off d) = Inr (udp_port_ok d (udp_off d))"
    using True assms(3) by (intro gtp_port_in) simp
  have s1: "unat (len - offset) = unat len - udp_off d"
    using assms by (simp add: unat_sub_u32)
  have s2: "unat (len - (offset + 8)) = unat len - (udp_off d + 8)"
    using True o8 by (simp add: unat_sub_u32)
  show ?thesis
    unfolding search_udp_def s1 s2 o8 assms(1) p
    using True assms(3) by (auto simp: mem_simps vhl_simps o)
next
  case False
  then have "unat (len - offset) < 8"
    using assms by (simp add: unat_sub_u32)
  then show ?thesis using False by (simp add: search_udp_def)
qed

lemma get_header_search_udp:
  "gtpv1_get_header len d =
    (if unat len < 14 then Inr None else
     sbind (rd16 d 12) (\<lambda>type0.
     sbind (if type0 = ETHERTYPE_VLAN then sbind (rd16 d 16) (\<lambda>t. Inr (t, 18))
            else Inr (type0, 14)) (\<lambda>(ether_type, offset).
     if ether_type \<noteq> ETHERTYPE_IP then Inr None else
     if unat (len - offset) < 20 then Inr None else
     sbind (rd8 d (unat offset)) (\<lambda>vhl.
     if drop_bit 4 vhl \<noteq> 4 then Inr None else
     sbind (rd8 d (unat offset + 9)) (\<lambda>ip_p.
     if ip_p \<noteq> 17 then Inr None else search_udp len d (offset + ucast (vhl AND 15) * 4))))))"
  by (simp add: gtpv1_get_header_def search_udp_def Let_def cong: if_cong)

lemma get_header_eth:
  assumes cap: "unat len \<le> length d" and n: "14 \<le> unat len" "l2_len d \<le> unat len"
    and off: "off = (if be16 (d ! 12) (d ! 13) = ETHERTYPE_VLAN then 18 else 14)"
  shows "gtpv1_get_header len d =
     (if inner_ether_type d \<noteq> ETHERTYPE_IP then Inr None else
     if unat (len - off) < 20 then Inr None else
     sbind (rd8 d (unat off)) (\<lambda>vhl.
     if drop_bit 4 vhl \<noteq> 4 then Inr None else
     sbind (rd8 d (unat off + 9)) (\<lambda>ip_p.
     if ip_p \<noteq> 17 then Inr None else search_udp len d (off + ucast (vhl AND 15) * 4))))"
  using assms
  by (simp add: get_header_search_udp mem_simps inner_ether_type_def l2_len_def
      cong: if_cong split: if_splits)

lemma get_header_ip:
  assumes cap: "unat len \<le> length d" and n: "14 \<le> unat len" "l2_len d \<le> unat len"
  shows "gtpv1_get_header len d =
     (if l2_len d + 20 \<le> unat len \<and> ip_udp_head d
      then search_udp len d (of_nat (udp_off d)) else Inr None)"
proof -
  define off :: u32 where "off = (if be16 (d ! 12) (d ! 13) = ETHERTYPE_VLAN then 18 else 14)"
  have off: "unat off = l2_len d" by (simp add: off_def l2_len_def)
  have sub: "unat (len - off) = unat len - l2_len d"
    using n off by (simp add: unat_sub_u32)
  have o: "off + ucast (d ! l2_len d AND 15) * 4 = of_nat (udp_off d)"
    using ip_offset [OF off, symmetric] by simp
  have small: "unat len - l2_len d < 20" if "\<not> l2_len d + 20 \<le> unat len"
    using that n by linarith
  show ?thesis
    unfolding get_header_eth [OF cap n off_def] sub off using cap n small o
    by (auto simp: mem_simps vhl_simps ip_udp_head_def)
qed

lemma unat_udp_off: "unat (of_nat (udp_off d) :: u32) = udp_off d"
  using udp_off_bound [of d] by (simp add: unat_of_nat)

lemma get_header_ref:
  assumes cap: "unat len \<le> length d" and nu: "\<not> underflow_frame (unat len) d"
  shows "gtpv1_get_header len d = Inr (map_option of_nat (gtp_ref (unat len) d))"
proof (cases "14 \<le> unat len")
  case False
  then show ?thesis by (simp add: get_header_search_udp gtp_ref_def gtp_frame_def)
next
  case True
  then have l2: "l2_len d \<le> unat len" using nu by (simp add: underflow_frame_def)
  show ?thesis
  proof (cases "l2_len d + 20 \<le> unat len \<and> ip_udp_head d")
    case False
    then show ?thesis using get_header_ip [OF cap True l2]
      by (auto simp: gtp_ref_def gtp_frame_def ip_udp_head_def)
  next
    case ip: True
    then have u: "udp_off d \<le> unat len" using nu True by (auto simp: underflow_frame_def)
    show ?thesis
      using get_header_ip [OF cap True l2] search_udp_ref [OF unat_udp_off u cap] ip True
      by (auto simp: gtp_ref_def gtp_frame_def ip_udp_head_def)
  qed
qed

lemma get_header_underflow:
  assumes len: "unat len = length d" and uf: "underflow_frame (unat len) d"
  shows "gtpv1_get_header len d = Inl Out_of_bounds"
proof (cases "unat len < l2_len d")
  case True
  then have "be16 (d ! 12) (d ! 13) = ETHERTYPE_VLAN" "14 \<le> unat len" "unat len < 18"
    using uf by (auto simp: l2_len_def underflow_frame_def split: if_splits)
  then show ?thesis using len by (simp add: get_header_search_udp mem_simps rd16_out)
next
  case False
  then have h: "l2_len d + 20 \<le> unat len" "ip_udp_head d" "unat len < udp_off d" "14 \<le> unat len"
    using uf by (auto simp: underflow_frame_def)
  have "unat (len - of_nat (udp_off d)) = 2 ^ 32 + unat len - udp_off d"
    using h(3) by (simp add: unat_sub_u32_wraps unat_udp_off)
  then have "\<not> unat (len - of_nat (udp_off d)) < 8"
    using udp_off_bound [of d] by simp
  moreover have "gtp_port d (udp_off d) = Inl Out_of_bounds"
    using h(3) len by (simp add: gtp_port_def rd16_out)
  ultimately have "search_udp len d (of_nat (udp_off d)) = Inl Out_of_bounds"
    by (simp add: search_udp_def unat_udp_off)
  then show ?thesis using get_header_ip [of len d] len False h by simp
qed

lemma gtp_ref_bound: "gtp_ref n d = Some off \<Longrightarrow> off + 8 \<le> n \<and> off \<le> 86"
  using udp_off_bound [of d] by (auto simp: gtp_ref_def gtp_frame_def split: if_splits)

text \<open>The offsets of a frame built by \<open>mk_frame\<close>.\<close>

definition ip_header_ok :: "buffer \<Rightarrow> bool" where
  "ip_header_ok ip \<longleftrightarrow> 20 \<le> length ip \<and> length ip = 4 * (unat (ip ! 0) mod 16) \<and>
     unat (ip ! 0) div 16 = 4 \<and> ip ! 9 = 17"

lemma be16_bytes: "be16 (ucast (drop_bit 8 p)) (ucast (p :: u16)) = p"
proof -
  have h: "unat (ucast (drop_bit 8 p) :: byte) = unat p div 256"
  proof -
    have "unat p < 65536" by (rule order.strict_trans2 [OF unsigned_less]) simp
    then have "unat p div 256 < 256" by (simp add: less_mult_imp_div_less)
    then show ?thesis
      by (simp add: unsigned_ucast_eq drop_bit_eq_div unat_div take_bit_eq_mod)
  qed
  have l: "unat (ucast p :: byte) = unat p mod 256"
    by (simp add: unsigned_ucast_eq take_bit_eq_mod)
  have "unat (be16 (ucast (drop_bit 8 p)) (ucast p)) = unat p"
    by (simp add: unat_be16 h l)
  then show ?thesis by (simp add: word_unat_eq_iff)
qed

lemma mk_frame_l2:
  assumes "length macs = 12" and "\<And>t. tag = Some t \<Longrightarrow> length t = 2"
  shows "l2_len (mk_frame macs tag ip sport dport rest gtp) = (if tag = None then 14 else 18)"
    and "inner_ether_type (mk_frame macs tag ip sport dport rest gtp) = ETHERTYPE_IP"
  using assms
  by (cases tag; simp add: mk_frame_def l2_len_def inner_ether_type_def nth_append be16_def)+

lemma mk_frame_drop:
  assumes "length macs = 12" and "\<And>t. tag = Some t \<Longrightarrow> length t = 2"
  shows "drop (if tag = None then 14 else 18) (mk_frame macs tag ip sport dport rest gtp) =
    ip @ [ucast (drop_bit 8 sport), ucast sport, ucast (drop_bit 8 dport), ucast dport] @ rest @ gtp"
  using assms by (cases tag) (simp_all add: mk_frame_def)

lemma nth_of_drop: "drop k d = xs \<Longrightarrow> i < length xs \<Longrightarrow> d ! (k + i) = xs ! i"
  by (auto simp: nth_drop)

lemma mk_frame_head:
  assumes m: "length macs = 12" "\<And>t. tag = Some t \<Longrightarrow> length t = 2" and ip: "ip_header_ok ip"
    and d: "d = mk_frame macs tag ip sport dport rest gtp"
  shows "ip_udp_head d" and "udp_off d = l2_len d + length ip" and "length d \<ge> l2_len d + 20"
    and "drop (udp_off d) d =
      [ucast (drop_bit 8 sport), ucast sport, ucast (drop_bit 8 dport), ucast dport] @ rest @ gtp"
proof -
  have l: "l2_len d = (if tag = None then 14 else 18)" and t: "inner_ether_type d = ETHERTYPE_IP"
    using mk_frame_l2 [OF m] d by simp_all
  have dr: "drop (l2_len d) d = ip @ [ucast (drop_bit 8 sport), ucast sport,
      ucast (drop_bit 8 dport), ucast dport] @ rest @ gtp"
    using mk_frame_drop [OF m] d l by simp
  have n0: "d ! l2_len d = ip ! 0" and n9: "d ! (l2_len d + 9) = ip ! 9"
    using nth_of_drop [OF dr, of 0] nth_of_drop [OF dr, of 9] ip
    by (auto simp: ip_header_ok_def nth_append)
  show "ip_udp_head d" using t n0 n9 ip by (simp add: ip_udp_head_def ip_header_ok_def)
  show u: "udp_off d = l2_len d + length ip"
    using n0 ip by (simp add: udp_off_def ihl_octets_def ip_header_ok_def)
  have "length (drop (l2_len d) d) \<ge> 20" unfolding dr using ip by (simp add: ip_header_ok_def)
  then show "length d \<ge> l2_len d + 20" by simp
  have "drop (udp_off d) d = drop (length ip) (drop (l2_len d) d)" by (simp add: u add.commute)
  then show "drop (udp_off d) d =
      [ucast (drop_bit 8 sport), ucast sport, ucast (drop_bit 8 dport), ucast dport] @ rest @ gtp"
    by (simp add: dr)
qed

lemma mk_frame_ref:
  assumes m: "length macs = 12" "\<And>t. tag = Some t \<Longrightarrow> length t = 2" and ip: "ip_header_ok ip"
    and port: "sport \<in> {GTP_U_UDP_PORT, GTP_C_UDP_PORT} \<or> dport \<in> {GTP_U_UDP_PORT, GTP_C_UDP_PORT}"
    and rest: "length rest = 4" and gtp: "8 \<le> length gtp" "unat (gtp ! 0) div 16 = 3"
    and d: "d = mk_frame macs tag ip sport dport rest gtp"
  shows "gtp_ref (length d) d = Some (udp_off d + 8)" and "drop (udp_off d + 8) d = gtp"
    and "\<not> underflow_frame (length d) d"
proof -
  note h = mk_frame_head [OF m ip d]
  have len: "udp_off d + 8 + length gtp = length d"
    using arg_cong [OF h(4), of length] rest gtp(1) by simp
  have ports: "udp_port_ok d (udp_off d)"
    using nth_of_drop [OF h(4), of 0] nth_of_drop [OF h(4), of 1] nth_of_drop [OF h(4), of 2]
      nth_of_drop [OF h(4), of 3] port be16_bytes [of sport] be16_bytes [of dport]
    by (auto simp: udp_port_ok_def)
  have flags: "d ! (udp_off d + 8) = gtp ! 0"
    using nth_of_drop [OF h(4), of 8] rest gtp(1) by (force simp: nth_append nth_Cons')
  show "drop (udp_off d + 8) d = gtp"
    using arg_cong [OF h(4), of "drop 8"] rest by (simp add: add.commute)
  show "gtp_ref (length d) d = Some (udp_off d + 8)"
    using h len gtp ports flags l2_len_cases [of d]
    by (auto simp: gtp_ref_def gtp_frame_def ip_udp_head_def)
  show "\<not> underflow_frame (length d) d"
    using len h(2) by (simp add: underflow_frame_def)
qed

section \<open>Properties\<close>

text \<open>
  C9: on a packet whose captured octets are all in memory, and outside the frames of
  \<open>underflow_frame\<close>, the header search returns exactly what the overflow-free reference search
  returns: the offset of the GTP version 1 header of an IPv4/UDP frame on a GTP port, with or
  without an 802.1Q tag, and null otherwise; it touches no octet outside the capture.
\<close>

theorem get_header_eq_ref:
  assumes "unat len \<le> length d" and "\<not> underflow_frame (unat len) d"
  shows "gtpv1_get_header len d = Inr (map_option of_nat (gtp_ref (unat len) d))"
  using assms by (rule get_header_ref)

definition sample_frame :: buffer where
  "sample_frame = mk_frame (replicate 12 1) None ([0x45] @ replicate 8 0 @ [17] @ replicate 10 0)
     2152 2152 (replicate 4 0) ([0x32, 255, 0, 24, 0, 0, 0, 7] @ replicate 4 9 @ [0x45] @ replicate 19 5)"

theorem get_header_eq_ref_witness:
  "length sample_frame = 74 \<and> \<not> underflow_frame 74 sample_frame \<and>
   gtpv1_get_header 74 sample_frame = Inr (Some 42)"
proof -
  have l: "length sample_frame = 74" by (simp add: sample_frame_def mk_frame_def)
  have u: "\<not> underflow_frame (unat (74 :: u32)) sample_frame" by code_simp
  have r: "gtp_ref 74 sample_frame = Some 42" by code_simp
  show ?thesis using get_header_eq_ref [of 74 sample_frame] l u r by simp
qed

text \<open>
  C17: what the length tests leave open. When exactly the captured octets are in memory, the search
  reads outside them if and only if the frame is one of \<open>underflow_frame\<close>: a tagged frame cut off
  inside its tag, or an IPv4/UDP frame whose header length field points past the capture. In every
  other case it returns.
\<close>

theorem get_header_fault_iff:
  assumes "unat len = length d"
  shows "(\<exists>f. gtpv1_get_header len d = Inl f) \<longleftrightarrow> underflow_frame (length d) d"
proof
  assume "\<exists>f. gtpv1_get_header len d = Inl f"
  then show "underflow_frame (length d) d" using get_header_ref [of len d] assms by fastforce
next
  assume "underflow_frame (length d) d"
  then show "\<exists>f. gtpv1_get_header len d = Inl f" using get_header_underflow [of len d] assms by simp
qed

definition cut_tag_frame :: buffer where
  "cut_tag_frame = replicate 12 1 @ [0x81, 0x00, 0, 1]"

theorem get_header_fault_iff_witness:
  "length cut_tag_frame = 16 \<and> (\<exists>f. gtpv1_get_header 16 cut_tag_frame = Inl f)"
proof -
  have l: "length cut_tag_frame = 16" by (simp add: cut_tag_frame_def)
  have u: "underflow_frame 16 cut_tag_frame" by code_simp
  show ?thesis using get_header_fault_iff [of 16 cut_tag_frame] l u by simp
qed

text \<open>
  C16: round trip. The search applied to a frame put together from an Ethernet header with or without
  an 802.1Q tag, a well-formed IPv4 header with any options, a UDP header on a GTP port and a GTP
  version 1 message returns the offset at which exactly that message starts.
\<close>

theorem get_header_mk_frame:
  assumes "length macs = 12" and "\<And>t. tag = Some t \<Longrightarrow> length t = 2" and "ip_header_ok ip"
    and "sport \<in> {GTP_U_UDP_PORT, GTP_C_UDP_PORT} \<or> dport \<in> {GTP_U_UDP_PORT, GTP_C_UDP_PORT}"
    and "length rest = 4" and "8 \<le> length gtp" and "unat (gtp ! 0) div 16 = 3"
    and d: "d = mk_frame macs tag ip sport dport rest gtp" and len: "length d < 2 ^ 32"
  shows "\<exists>off. gtpv1_get_header (of_nat (length d)) d = Inr (Some off) \<and> drop (unat off) d = gtp"
proof -
  note r = mk_frame_ref [OF assms(1-8)]
  have n: "unat (of_nat (length d) :: u32) = length d" using len by (simp add: unat_of_nat)
  have "gtpv1_get_header (of_nat (length d)) d = Inr (Some (of_nat (udp_off d + 8)))"
    using get_header_ref [of "of_nat (length d)" d] n r by simp
  moreover have "unat (of_nat (udp_off d + 8) :: u32) = udp_off d + 8"
    using udp_off_bound [of d] by (simp add: unat_of_nat del: of_nat_add)
  ultimately show ?thesis using r(2) by auto
qed

theorem get_header_mk_frame_witness:
  "\<exists>off. gtpv1_get_header 54 (mk_frame (replicate 12 1) (Some [0, 5])
      ([0x45] @ replicate 8 0 @ [17] @ replicate 10 0) 4000 2123 (replicate 4 0)
      [0x30, 1, 0, 4, 0, 0, 0, 9]) = Inr (Some off) \<and>
    drop (unat off) (mk_frame (replicate 12 1) (Some [0, 5])
      ([0x45] @ replicate 8 0 @ [17] @ replicate 10 0) 4000 2123 (replicate 4 0)
      [0x30, 1, 0, 4, 0, 0, 0, 9]) = [0x30, 1, 0, 4, 0, 0, 0, 9]"
proof -
  have ip: "ip_header_ok ([0x45] @ replicate 8 0 @ [17] @ replicate 10 0)" by code_simp
  show ?thesis
    using get_header_mk_frame [of "replicate 12 1" "Some [0, 5]" _ 4000 2123 "replicate 4 0"
        "[0x30, 1, 0, 4, 0, 0, 0, 9]", OF _ _ ip]
    by (simp add: mk_frame_def)
qed

end
