(* ===== verification/Untunnel.thy ===== *)
theory Untunnel
  imports Monitor
begin

unbundle bit_operations_syntax

text \<open>
  Untunnelling of a GTP packet, \<open>src/pcapsession/pcapsession_untunnel.c\<close>, and the packet header
  structure of the capture library that it adjusts. The packet data is the memory that starts at
  the data pointer; the captured length may be smaller than that memory. The model keeps the
  32-bit arithmetic of the copied length and the bounds of the memory the copy reads and writes.
\<close>

section \<open>Packets\<close>

record pcap_pkthdr =
  ts_sec :: int
  ts_usec :: int
  caplen :: u32
  pkt_len :: u32

type_synonym packet = "pcap_pkthdr \<times> buffer"

section \<open>The operation\<close>

text \<open>
  The first argument is the monitor of the session the packet is dumped on; it is \<open>None\<close> when the
  session pointer is null or the session has no monitor, which the code treats alike.
\<close>

definition pcapsession_untunnel_packet ::
    "monitor option \<Rightarrow> pcap_pkthdr \<Rightarrow> buffer \<Rightarrow> fault + (monitor option \<times> pcap_pkthdr \<times> buffer)" where
  "pcapsession_untunnel_packet mon header data =
     sbind (gtpv1_get_header (caplen header) data) (\<lambda>p. case p of
       None \<Rightarrow> Inr (mon, header, data)
     | Some gtp_off \<Rightarrow>
         sbind (rd_gtpv1hdr data (unat gtp_off)) (\<lambda>h.
         let mon = monitor_increment_gtp mon 1 (int (unat (pkt_len header))) (flag_options h) in
         if GTP_EXT_FLAG (flag_options h) \<noteq> 0 then Inr (mon, header, data)
         else
           let source = unat gtp_off + GTPV1HDR_LEN +
                 (if flag_options h \<noteq> 0 then GTPV1HDROPT_LEN else 0) in
           sbind (rd16 data 12) (\<lambda>ether_type.
           let target = ETHER_HEADER_LEN +
                 (if ether_type = ETHERTYPE_VLAN then TAG_ETHER_802_1_Q_LENGTH else 0);
               dropped = int source - int target in
           sbind (memmove data target source (unat (caplen header - of_int dropped))) (\<lambda>data'.
             Inr (mon, header\<lparr>caplen := caplen header - of_int dropped,
                              pkt_len := pkt_len header - of_int dropped\<rparr>, data')))))"

section \<open>Reference\<close>

text \<open>Offsets of the tunnelled packet and of the place it moves to.\<close>

definition inner_off :: "buffer \<Rightarrow> nat" where
  "inner_off d = udp_off d + 16 + (if d ! (udp_off d + 8) AND 7 \<noteq> 0 then 4 else 0)"

definition ext_flag_set :: "buffer \<Rightarrow> bool" where
  "ext_flag_set d \<longleftrightarrow> d ! (udp_off d + 8) AND 4 \<noteq> 0"

definition untunnelled :: "nat \<Rightarrow> buffer \<Rightarrow> buffer" where
  "untunnelled n d = take (l2_len d) d @ drop (inner_off d) (take n d)"

section \<open>Lemmas\<close>

lemma ext_flag: "GTP_EXT_FLAG (f AND 7) \<noteq> 0 \<longleftrightarrow> f AND 4 \<noteq> 0"
proof -
  have a: "(f AND 7) AND 4 = f AND 4" by (simp add: and.assoc)
  have "f AND 4 \<noteq> 0 \<longleftrightarrow> bit f 2" using and_exp_eq_0_iff_not_bit [of f 2] by simp
  moreover have "drop_bit 2 (f AND 4) \<noteq> 0 \<longleftrightarrow> bit f 2"
    by (simp add: drop_bit_and and_one_eq odd_iff_mod_2_eq_one bit_iff_odd_drop_bit)
  ultimately show ?thesis unfolding GTP_EXT_FLAG_def a by simp
qed

lemma rd_gtpv1hdr_in:
  assumes "off + 8 \<le> length d"
  shows "\<exists>h. rd_gtpv1hdr d off = Inr h \<and> flag_options h = d ! off AND 7 \<and>
    message_type h = d ! (off + 1)"
  using assms by (simp add: rd_gtpv1hdr_def rd32_def mem_simps)

lemma inner_off_bounds: "l2_len d + 16 \<le> inner_off d" "inner_off d \<le> 98"
  using udp_off_bound [of d] by (simp_all add: inner_off_def udp_off_def)

text \<open>The states in which the code finds a header it will strip.\<close>

definition strips :: "pcap_pkthdr \<Rightarrow> buffer \<Rightarrow> bool" where
  "strips header d \<longleftrightarrow> unat (caplen header) \<le> length d \<and> gtp_frame (unat (caplen header)) d \<and>
     \<not> ext_flag_set d"

lemma gtp_frame_header:
  assumes "n \<le> length d" and "unat c = n" and f: "gtp_frame n d"
  shows "gtpv1_get_header c d = Inr (Some (of_nat (udp_off d + 8)))"
    and "unat (of_nat (udp_off d + 8) :: u32) = udp_off d + 8" and "udp_off d + 16 \<le> length d"
proof -
  have "\<not> underflow_frame n d" using f by (auto simp: underflow_frame_def gtp_frame_def)
  then show "gtpv1_get_header c d = Inr (Some (of_nat (udp_off d + 8)))"
    using get_header_ref [of c d] assms by (simp add: gtp_ref_def)
  show "unat (of_nat (udp_off d + 8) :: u32) = udp_off d + 8"
    using udp_off_bound [of d] by (simp add: unat_of_nat del: of_nat_add)
  show "udp_off d + 16 \<le> length d" using f assms by (simp add: gtp_frame_def)
qed

lemma word_sub_offsets:
  assumes "l \<le> i"
  shows "(c :: u32) - of_int (int i - int l) = c - of_nat (i - l)"
  using assms by (simp add: of_nat_diff)

lemma untunnel_memmove:
  assumes "strips header d"
  shows "pcapsession_untunnel_packet mon header d =
     (let k = of_nat (inner_off d - l2_len d) in
      sbind (memmove d (l2_len d) (inner_off d) (unat (caplen header - k))) (\<lambda>d'.
        Inr (monitor_increment_gtp mon 1 (int (unat (pkt_len header))) (d ! (udp_off d + 8) AND 7),
             header\<lparr>caplen := caplen header - k, pkt_len := pkt_len header - k\<rparr>, d')))"
proof -
  have s: "unat (caplen header) \<le> length d" "gtp_frame (unat (caplen header)) d" "\<not> ext_flag_set d"
    using assms by (simp_all add: strips_def)
  note g = gtp_frame_header [OF s(1) refl s(2)]
  obtain h where h: "rd_gtpv1hdr d (udp_off d + 8) = Inr h" "flag_options h = d ! (udp_off d + 8) AND 7"
    using rd_gtpv1hdr_in [of "udp_off d + 8" d] g(3) by auto
  have e: "GTP_EXT_FLAG (flag_options h) = 0"
    using s(3) ext_flag [of "d ! (udp_off d + 8)"] by (simp add: h(2) ext_flag_set_def)
  have t: "rd16 d 12 = Inr (be16 (d ! 12) (d ! 13))"
    using s(1,2) by (simp add: rd16_in gtp_frame_def)
  have k: "(x :: u32) - of_int (int (inner_off d) - int (l2_len d)) = x - of_nat (inner_off d - l2_len d)" for x
    using inner_off_bounds [of d] by (intro word_sub_offsets) simp
  have i: "udp_off d + 8 + 8 + (if flag_options h \<noteq> 0 then 4 else 0) = inner_off d"
    by (simp add: inner_off_def h(2))
  have l: "14 + (if be16 (d ! 12) (d ! 13) = ETHERTYPE_VLAN then 4 else 0) = l2_len d"
    by (simp add: l2_len_def)
  show ?thesis
    unfolding pcapsession_untunnel_packet_def g(1) sbind_simps option.case g(2) h(1) t i l k Let_def
    by (simp add: e [unfolded h(2)] h(2))
qed

lemma untunnel_copied_len:
  assumes "strips header d" and "inner_off d \<le> unat (caplen header) + l2_len d"
  shows "unat (caplen header - of_nat (inner_off d - l2_len d)) =
    unat (caplen header) - (inner_off d - l2_len d)"
proof -
  have k: "unat (of_nat (inner_off d - l2_len d) :: u32) = inner_off d - l2_len d"
    using inner_off_bounds [of d] by (simp add: unat_of_nat del: of_nat_diff)
  show ?thesis using assms by (subst unat_sub_u32) (simp_all add: k)
qed

text \<open>What is left of a packet that is stripped, whatever the message is.\<close>

lemma untunnel_result:
  assumes "strips header d" and "inner_off d \<le> unat (caplen header)"
    and "unat (caplen header) + l2_len d \<le> length d"
  shows "\<exists>mon' header' d'. pcapsession_untunnel_packet mon header d = Inr (mon', header', d') \<and>
    take (unat (caplen header')) d' = untunnelled (unat (caplen header)) d \<and>
    unat (caplen header') = unat (caplen header) - (inner_off d - l2_len d) \<and>
    pkt_len header' = pkt_len header - of_nat (inner_off d - l2_len d) \<and>
    ts_sec header' = ts_sec header \<and> ts_usec header' = ts_usec header \<and>
    length d' = length d"
proof -
  define n where "n = unat (caplen header)"
  define k where "k = inner_off d - l2_len d"
  have b: "l2_len d + 16 \<le> inner_off d" by (rule inner_off_bounds)
  have c: "unat (caplen header - of_nat k) = n - k"
    using untunnel_copied_len [OF assms(1)] assms(2) by (simp add: n_def k_def)
  have kb: "k \<le> n" "l2_len d + k = inner_off d" using assms(2) b by (simp_all add: n_def k_def)
  define d' where "d' = take (l2_len d) d @ take (n - k) (drop (inner_off d) d) @
    drop (l2_len d + (n - k)) d"
  have mm: "memmove d (l2_len d) (inner_off d) (n - k) = Inr d'"
    unfolding d'_def using assms(2,3) kb b by (intro memmove_in) (simp_all add: n_def)
  have le: "l2_len d \<le> n - k" "l2_len d \<le> length d" "n - k - l2_len d = n - inner_off d"
    "inner_off d + (n - k) \<le> length d"
    using kb assms(2,3) n_def by linarith+
  have "take (n - k) d' = take (l2_len d) d @ take (n - inner_off d) (drop (inner_off d) d)"
    unfolding d'_def using take_moved [OF le(1,2,4)] le(3) by simp
  then have t: "take (n - k) d' = untunnelled n d" by (simp add: untunnelled_def drop_take)
  show ?thesis
    using untunnel_memmove [OF assms(1), of mon] mm c t memmove_length [OF mm]
    by (simp add: Let_def k_def [symmetric] n_def [symmetric])
qed

section \<open>Properties\<close>

text \<open>User data: a message of type G-PDU between ports of which one is that of GTP-U.\<close>

definition user_data :: "buffer \<Rightarrow> bool" where
  "user_data d \<longleftrightarrow> (be16 (d ! udp_off d) (d ! (udp_off d + 1)) = GTP_U_UDP_PORT \<or>
     be16 (d ! (udp_off d + 2)) (d ! (udp_off d + 3)) = GTP_U_UDP_PORT) \<and> d ! (udp_off d + 9) = 255"

text \<open>
  C10: untunnelling user data. On a GTP-U packet that carries user data, without extension header, whose tunnelled packet
  starts inside the capture, and with as many spare octets in memory behind the capture as the Ethernet header is long,
  untunnelling succeeds: the octets that remain valid are the Ethernet header (with its tag)
  followed by exactly the tunnelled octets, captured and original length shrink by the number of
  octets between the two, and the time stamp is kept.
\<close>

theorem untunnel_strips:
  assumes "strips header d" and "user_data d" and "inner_off d \<le> unat (caplen header)"
    and "unat (caplen header) + l2_len d \<le> length d"
  shows "\<exists>mon' header' d'. pcapsession_untunnel_packet mon header d = Inr (mon', header', d') \<and>
    take (unat (caplen header')) d' = untunnelled (unat (caplen header)) d \<and>
    unat (caplen header') = unat (caplen header) - (inner_off d - l2_len d) \<and>
    pkt_len header' = pkt_len header - of_nat (inner_off d - l2_len d) \<and>
    ts_sec header' = ts_sec header \<and> ts_usec header' = ts_usec header \<and>
    length d' = length d"
  using untunnel_result [OF assms(1,3,4)] .

text \<open>
  C40: the copy reads past the capture. Its length is the new captured length, which counts the
  Ethernet header that is not moved, so the source region ends as many octets behind the captured
  data as that header is long. With fewer octets than that in memory behind the capture the call
  accesses memory out of bounds, on every packet it strips.
\<close>

theorem untunnel_overread:
  assumes "strips header d" and "inner_off d \<le> unat (caplen header) + l2_len d"
    and "length d < unat (caplen header) + l2_len d"
  shows "pcapsession_untunnel_packet mon header d = Inl Out_of_bounds"
proof -
  have "inner_off d + (unat (caplen header) - (inner_off d - l2_len d)) = unat (caplen header) + l2_len d"
    using assms(2) inner_off_bounds [of d] by simp
  then show ?thesis
    using assms untunnel_memmove [OF assms(1), of mon] untunnel_copied_len [OF assms(1,2)]
    by (simp add: Let_def memmove_out)
qed

text \<open>
  Packets the code does not strip pass unchanged. A packet without a GTP version 1 header comes
  back with its header, data and the monitor untouched; a packet with the extension header flag
  comes back with header and data untouched and is counted once as a GTP packet.
\<close>

theorem untunnel_passes:
  assumes "unat (caplen header) \<le> length d" and "\<not> underflow_frame (unat (caplen header)) d"
    and "\<not> gtp_frame (unat (caplen header)) d \<or> ext_flag_set d"
  shows "pcapsession_untunnel_packet mon header d =
    Inr (if gtp_frame (unat (caplen header)) d
         then monitor_increment_gtp mon 1 (int (unat (pkt_len header))) (d ! (udp_off d + 8) AND 7)
         else mon, header, d)"
proof (cases "gtp_frame (unat (caplen header)) d")
  case False
  then show ?thesis using get_header_ref [OF assms(1,2)]
    by (simp add: pcapsession_untunnel_packet_def gtp_ref_def)
next
  case True
  note g = gtp_frame_header [OF assms(1) refl True]
  obtain h where h: "rd_gtpv1hdr d (udp_off d + 8) = Inr h" "flag_options h = d ! (udp_off d + 8) AND 7"
    using rd_gtpv1hdr_in [of "udp_off d + 8" d] g(3) by auto
  have "GTP_EXT_FLAG (flag_options h) \<noteq> 0"
    using assms(3) True ext_flag by (simp add: h(2) ext_flag_set_def)
  then show ?thesis using True
    unfolding pcapsession_untunnel_packet_def g(1) sbind_simps option.case g(2) h(1) Let_def
    by (simp add: h(2))
qed

definition sample_header :: pcap_pkthdr where
  "sample_header = \<lparr>ts_sec = 1000, ts_usec = 5, caplen = 74, pkt_len = 74\<rparr>"

theorem untunnel_strips_witness:
  "\<exists>mon' header' d'. pcapsession_untunnel_packet None sample_header (sample_frame @ replicate 14 0) =
      Inr (mon', header', d') \<and> unat (caplen header') = 34 \<and>
      take 34 d' = take 14 sample_frame @ [0x45] @ replicate 19 5"
proof -
  let ?d = "sample_frame @ replicate 14 0"
  have s: "strips sample_header ?d" by code_simp
  have u: "untunnelled 74 ?d = take 14 sample_frame @ [0x45] @ replicate 19 5" by code_simp
  have i: "inner_off ?d = 54" "l2_len ?d = 14" "length ?d = 88" by code_simp+
  have c: "unat (caplen sample_header) = 74" by (simp add: sample_header_def)
  have g: "user_data ?d" by code_simp
  show ?thesis using untunnel_strips [OF s g, of None] i u c by auto
qed

theorem untunnel_overread_witness:
  "strips sample_header sample_frame \<and> length sample_frame = 74 \<and>
   pcapsession_untunnel_packet None sample_header sample_frame = Inl Out_of_bounds"
proof -
  have s: "strips sample_header sample_frame" by code_simp
  have i: "inner_off sample_frame = 54" "l2_len sample_frame = 14" "length sample_frame = 74"
    by code_simp+
  have c: "unat (caplen sample_header) = 74" by (simp add: sample_header_def)
  show ?thesis using untunnel_overread [OF s, of None] s i c by simp
qed

text \<open>
  The function looks neither at the port nor at the type of the message: signalling, here a request to create a context on
  the port of GTP-C, is stripped of its headers as well, although there is no packet inside.
\<close>

lemma signalling_is_stripped:
  "\<exists>mon' header' d'. pcapsession_untunnel_packet None (sample_header\<lparr>caplen := 54, pkt_len := 54\<rparr>)
      (mk_frame (replicate 12 1) None ([0x45] @ replicate 8 0 @ [17] @ replicate 10 0) 2123 2123 (replicate 4 0)
        [0x30, 16, 0, 4, 0, 0, 0, 7, 1, 2, 3, 4] @ replicate 14 0) = Inr (mon', header', d') \<and>
    unat (caplen header') = 18 \<and> drop 14 (take 18 d') = [1, 2, 3, 4]"
proof -
  define d where "d = mk_frame (replicate 12 1) None ([0x45] @ replicate 8 0 @ [17] @ replicate 10 0) 2123 2123 (replicate 4 0)
        [0x30, 16, 0, 4, 0, 0, 0, 7, 1, 2, 3, 4] @ replicate 14 0"
  define h where "h = sample_header\<lparr>caplen := 54, pkt_len := 54\<rparr>"
  have s: "strips h d" unfolding h_def d_def by code_simp
  have i: "inner_off d = 50" "l2_len d = 14" "length d = 68" "drop 14 (untunnelled 54 d) = [1, 2, 3, 4]"
    unfolding d_def by code_simp+
  have c: "unat (caplen h) = 54" by (simp add: h_def)
  show ?thesis
    unfolding d_def [symmetric] h_def [symmetric] using untunnel_result [OF s, of None] i c by auto
qed

theorem untunnel_passes_witness:
  "pcapsession_untunnel_packet (Some sample_monitor) (sample_header\<lparr>caplen := 60\<rparr>) (replicate 60 0) =
    Inr (Some sample_monitor, sample_header\<lparr>caplen := 60\<rparr>, replicate 60 0)"
proof -
  have g: "\<not> gtp_frame 60 (replicate 60 0)" "\<not> underflow_frame 60 (replicate 60 0)" by code_simp+
  show ?thesis
    using untunnel_passes [of "sample_header\<lparr>caplen := 60\<rparr>" "replicate 60 0" "Some sample_monitor"] g
    by simp
qed

end
