(* ===== verification/Os_Model.thy ===== *)
theory Os_Model
  imports Untunnel
begin

text \<open>
  Everything the program calls that is not in the repository (the C library's system calls, the
  thread library and the packet capture library) is one parameter, a function \<open>os\<close> that gives the
  result of a call from the calls made before it. The state records the calls in \<open>hist\<close>, newest
  first, so a property can speak of what was called, and in which order; \<open>faults\<close> collects the
  undefined behaviour the code runs into (a null handle passed on, an index out of range). A pointer
  that such a call returns is an \<open>int\<close> with 0 for null.
\<close>

section \<open>External calls\<close>

datatype call =
    Poll int | Close int | Socket | Setsockopt_reuse int | Setsockopt_sndbuf int
  | Bind int u16 | Listen int | Accept int | Connect int
  | Fcntl_getfl int | Fcntl_setfl_nonblock int | Fcntl_setfl_orig int | Select int | Errno
  | Pthread_create nat | Pthread_id nat | Pthread_cancel int | Pthread_join int | Time
  | Pcap_open_live string | Pcap_open_offline string | Pcap_fopen_offline int
  | Pcap_open_dead | Pcap_dump_fopen int int | Pcap_dump_open int string
  | Pcap_close int | Pcap_dump_close int | Pcap_breakloop int | Pcap_get_selectable_fd int
  | Pcap_dump_fileno int | Pcap_dump int pcap_pkthdr buffer | Pcap_dump_flush int
  | Pcap_loop int | Fdopen int | Opendir string | Closedir

type_synonym os = "call list \<Rightarrow> call \<Rightarrow> int"

record world =
  hist :: "call list"
  faults :: "fault list"

definition ext :: "os \<Rightarrow> call \<Rightarrow> 'a world_scheme \<Rightarrow> int \<times> 'a world_scheme" where
  "ext os c w = (os (hist w) c, w\<lparr>hist := c # hist w\<rparr>)"

text \<open>A call whose result the code ignores.\<close>

definition ext_do :: "call \<Rightarrow> 'a world_scheme \<Rightarrow> 'a world_scheme" where
  "ext_do c w = w\<lparr>hist := c # hist w\<rparr>"

definition fault_at :: "fault \<Rightarrow> 'a world_scheme \<Rightarrow> 'a world_scheme" where
  "fault_at f w = w\<lparr>faults := f # faults w\<rparr>"

text \<open>The supervision test of \<open>include/tcp.h\<close>: a descriptor is open when polling it finds nothing.\<close>

definition iotests_fd_open :: "os \<Rightarrow> int \<Rightarrow> 'a world_scheme \<Rightarrow> bool \<times> 'a world_scheme" where
  "iotests_fd_open os fd w = (let (r, w) = ext os (Poll fd) w in (r = 0, w))"

section \<open>Lemmas\<close>

lemma ext_simps_basic [ext_simps]:
  "fst (ext os c w) = os (hist w) c" "snd (ext os c w) = w\<lparr>hist := c # hist w\<rparr>"
  by (simp_all add: ext_def)

lemma hist_ext_do [simp]: "hist (ext_do c w) = c # hist w"
  by (simp add: ext_do_def)

lemma faults_ext_do [simp]: "faults (ext_do c w) = faults w"
  by (simp add: ext_do_def)

lemma iotests_fd_open_eq [ext_simps]:
  "iotests_fd_open os fd w = (os (hist w) (Poll fd) = 0, w\<lparr>hist := Poll fd # hist w\<rparr>)"
  by (simp add: iotests_fd_open_def ext_def)

end
