(* ===== verification/Tcp.thy ===== *)
theory Tcp
  imports Os_Model
begin

text \<open>
  The socket facade of \<open>src/utilities/tcp.c\<close>: opening, polling and closing the distribution
  server's listening socket, the client side connect with its temporary non-blocking mode, and the
  translation of configured hosts and ports into addresses. The error buffer is \<open>None\<close> for a null
  pointer and otherwise its length; its contents (the text of the last error) are not modelled.
\<close>

section \<open>Data\<close>

record sockaddr_in =
  sin_family :: int
  sin_addr :: u32
  sin_port :: u16

definition zero_sockaddr :: sockaddr_in where
  "zero_sockaddr = \<lparr>sin_family = 0, sin_addr = 0, sin_port = 0\<rparr>"

record target =
  tgt_address :: sockaddr_in
  tgt_handle :: int

abbreviation (input) HIGHEST_IP_PORT :: int where "HIGHEST_IP_PORT \<equiv> 65535"
abbreviation (input) MAX_ADDRESSES :: nat where "MAX_ADDRESSES \<equiv> 64"
abbreviation (input) AF_INET :: int where "AF_INET \<equiv> 2"

type_synonym errbuf = "nat option"

definition errbuf_ok :: "errbuf \<Rightarrow> bool" where
  "errbuf_ok e \<longleftrightarrow> (case e of None \<Rightarrow> False | Some n \<Rightarrow> 0 < n)"

text \<open>The macro \<open>ERROR_RETURN\<close>: close the handle unless it is zero, return the error.\<close>

definition error_return :: "int \<Rightarrow> int \<Rightarrow> 'a world_scheme \<Rightarrow> int \<times> 'a world_scheme" where
  "error_return handle error w = (error, if handle \<noteq> 0 then ext_do (Close handle) w else w)"

section \<open>Server side\<close>

definition open_server_socket ::
    "os \<Rightarrow> int \<Rightarrow> sockaddr_in \<Rightarrow> errbuf \<Rightarrow> 'a world_scheme \<Rightarrow> (int \<times> sockaddr_in) \<times> 'a world_scheme" where
  "open_server_socket os port our_addr e w =
    (if port < 1 \<or> port > HIGHEST_IP_PORT then ((-1, our_addr), w)
     else if \<not> errbuf_ok e then ((-1, our_addr), w)
     else let (handle, w) = ext os Socket w in
       if handle = -1 then let (r, w) = error_return handle (-2) w in ((r, our_addr), w)
       else let our_addr = \<lparr>sin_family = AF_INET, sin_addr = 0, sin_port = of_int port\<rparr>;
                (rc, w) = ext os (Setsockopt_reuse handle) w in
       if rc = -1 then let (r, w) = error_return handle (-3) w in ((r, our_addr), w)
       else let (rc, w) = ext os (Bind handle (sin_port our_addr)) w in
       if rc < 0 then let (r, w) = error_return handle (-4) w in ((r, our_addr), w)
       else let (rc, w) = ext os (Listen handle) w in
       if rc < 0 then let (r, w) = error_return handle (-5) w in ((r, our_addr), w)
       else ((handle, our_addr), w))"

text \<open>
  \<open>accept\<close> is called with an address length of zero: the kernel stores at most that many octets of the
  peer's address, none, so the callback always sees the zeroed \<open>client_addr\<close>. The callback is null
  when it is \<open>None\<close>.
\<close>

definition poll_server_socket ::
    "os \<Rightarrow> int \<Rightarrow> (int \<Rightarrow> sockaddr_in \<Rightarrow> 'a world_scheme \<Rightarrow> int \<times> 'a world_scheme) option \<Rightarrow> errbuf \<Rightarrow>
     'a world_scheme \<Rightarrow> int \<times> 'a world_scheme" where
  "poll_server_socket os handle fn e w =
    (if \<not> errbuf_ok e then (-1, w)
     else if handle \<le> 0 then (-1, w)
     else case fn of None \<Rightarrow> (-1, w)
     | Some callback \<Rightarrow>
       let (unamed_handle, w) = ext os (Accept handle) w in
       if unamed_handle < 0 then (-2, w)
       else let (result, w) = callback unamed_handle zero_sockaddr w in
         if result \<le> 0 then (result, ext_do (Close unamed_handle) w) else (result, w))"

definition close_server_socket :: "os \<Rightarrow> int \<Rightarrow> errbuf \<Rightarrow> 'a world_scheme \<Rightarrow> int \<times> 'a world_scheme" where
  "close_server_socket os handle e w =
    (if \<not> errbuf_ok e then (-1, w)
     else if handle \<le> 0 then (-1, w)
     else let (rc, w) = ext os (Close handle) w in if rc < 0 then (-2, w) else (0, w))"

section \<open>Client side\<close>

text \<open>
  \<open>EINPROGRESS\<close>, \<open>EALREADY\<close> and \<open>EISCONN\<close> of Linux. Every failure resets the handle to \<open>-1\<close> before
  \<open>ERROR_RETURN\<close> is given it.
\<close>

abbreviation (input) EINPROGRESS :: int where "EINPROGRESS \<equiv> 115"
abbreviation (input) EALREADY :: int where "EALREADY \<equiv> 114"
abbreviation (input) EISCONN :: int where "EISCONN \<equiv> 106"

definition connect_fail :: "target \<Rightarrow> int \<Rightarrow> 'a world_scheme \<Rightarrow> (int \<times> target) \<times> 'a world_scheme" where
  "connect_fail t error w =
     (let t = t\<lparr>tgt_handle := -1\<rparr>; (r, w) = error_return (tgt_handle t) error w in ((r, t), w))"

definition restore_flags :: "os \<Rightarrow> target \<Rightarrow> 'a world_scheme \<Rightarrow> (int \<times> target) \<times> 'a world_scheme" where
  "restore_flags os t w =
     (let (rc, w) = ext os (Fcntl_setfl_orig (tgt_handle t)) w in
      if rc < 0 then connect_fail t (-6) w
      else ((0, t), ext_do (Setsockopt_sndbuf (tgt_handle t)) w))"

definition connect_to_server_socket ::
    "os \<Rightarrow> target \<Rightarrow> errbuf \<Rightarrow> 'a world_scheme \<Rightarrow> (int \<times> target) \<times> 'a world_scheme" where
  "connect_to_server_socket os t e w =
    (if \<not> errbuf_ok e then ((-1, t), w)
     else if tgt_handle t < 0 then
       let (h, w) = ext os Socket w; t = t\<lparr>tgt_handle := h\<rparr> in
       if h < 0 then connect_fail t (-2) w
       else let (flags, w) = ext os (Fcntl_getfl h) w in
       if flags < 0 then connect_fail t (-3) w
       else let (rc, w) = ext os (Fcntl_setfl_nonblock h) w in
       if rc < 0 then connect_fail t (-3) w
       else let (rc, w) = ext os (Connect h) w in
       if rc < 0 then
         let (errno, w) = ext os Errno w in
         if errno = EINPROGRESS \<or> errno = EALREADY then
           let (x_err, w) = ext os (Select h) w in
           if x_err = -1 \<or> x_err = 0 then connect_fail t (-4) w else restore_flags os t w
         else if errno = EISCONN then connect_fail t (-5) w
         else connect_fail t (-6) w
       else restore_flags os t w
     else ((0, t), w))"

section \<open>Addresses\<close>

text \<open>
  \<open>strtol\<close> with base 10: white space, an optional sign, then the longest run of digits; the value stops at the limits
  of \<open>long\<close>. \<open>atol\<close> is this value and \<open>atoi\<close> its conversion to \<open>int\<close>, which keeps the low 32 bits.
\<close>

definition is_space_char :: "char \<Rightarrow> bool" where
  "is_space_char c \<longleftrightarrow> of_char c \<in> {32, 9, 10, 11, 12, 13 :: nat}"

definition is_digit_char :: "char \<Rightarrow> bool" where
  "is_digit_char c \<longleftrightarrow> 48 \<le> (of_char c :: nat) \<and> (of_char c :: nat) \<le> 57"

definition digits_value :: "string \<Rightarrow> nat" where
  "digits_value s = fold (\<lambda>c n. 10 * n + (of_char c - 48)) s 0"

definition decimal_value :: "string \<Rightarrow> int" where
  "decimal_value s = (let s = dropWhile is_space_char s in
     case s of [] \<Rightarrow> 0
     | c # r \<Rightarrow>
        if c = CHR ''-'' then - int (digits_value (takeWhile is_digit_char r))
        else if c = CHR ''+'' then int (digits_value (takeWhile is_digit_char r))
        else int (digits_value (takeWhile is_digit_char s)))"

definition atol :: "string \<Rightarrow> int" where
  "atol s = max (- (2 ^ 63)) (min (2 ^ 63 - 1) (decimal_value s))"

definition atoi :: "string \<Rightarrow> int" where
  "atoi s = to_int32 (atol s)"

text \<open>\<open>resolve\<close> stands for \<open>gethostbyname\<close>.\<close>

definition get_sockaddr_in :: "(string \<Rightarrow> u32 option) \<Rightarrow> string option \<Rightarrow> int \<Rightarrow> int + sockaddr_in" where
  "get_sockaddr_in resolve name port =
     (case name of None \<Rightarrow> Inl (-1)
      | Some n \<Rightarrow>
        if port < 1 \<or> port > HIGHEST_IP_PORT then Inl (-1)
        else case resolve n of None \<Rightarrow> Inl (-2)
          | Some a \<Rightarrow> Inr \<lparr>sin_family = AF_INET, sin_addr = a, sin_port = of_int port\<rparr>)"

fun address_loop :: "(string \<Rightarrow> u32 option) \<Rightarrow> string list \<Rightarrow> string list \<Rightarrow> nat \<Rightarrow> nat \<Rightarrow> target list \<Rightarrow>
    int option \<times> target list" where
  "address_loop resolve hosts ports i 0 servers = (None, servers)"
| "address_loop resolve hosts ports i (Suc n) servers =
     (case get_sockaddr_in resolve (Some (hosts ! i)) (atoi (ports ! i)) of
        Inl e \<Rightarrow> (Some e, servers)
      | Inr a \<Rightarrow> address_loop resolve hosts ports (Suc i) n
          (servers[i := (servers ! i)\<lparr>tgt_address := a\<rparr>]))"

text \<open>
  \<open>hosts\<close>, \<open>ports\<close> and \<open>servers\<close> are arrays of \<open>MAX_ADDRESSES\<close> elements. \<open>memset (servers, 0, sizeof
  (servers))\<close> clears the eight octets of a pointer: the family, port and address of the first
  element.
\<close>

definition address_list_from_arguments ::
    "(string \<Rightarrow> u32 option) \<Rightarrow> int \<Rightarrow> string list \<Rightarrow> string list \<Rightarrow> target list \<Rightarrow> int \<times> target list" where
  "address_list_from_arguments resolve server_count hosts ports servers =
    (if server_count > int MAX_ADDRESSES then (-1, servers)
     else let servers = servers[0 := (servers ! 0)\<lparr>tgt_address := zero_sockaddr\<rparr>] in
       case address_loop resolve hosts ports 0 (nat server_count) servers of
         (Some e, servers) \<Rightarrow> (e, servers)
       | (None, servers) \<Rightarrow> (server_count, servers))"

section \<open>Lemmas\<close>

lemma error_return_eq [ext_simps]:
  "error_return h e w = (e, if h \<noteq> 0 then w\<lparr>hist := Close h # hist w\<rparr> else w)"
  by (simp add: error_return_def ext_do_def)

lemmas tcp_defs = ext_def ext_simps Let_def split_def

definition resolvable :: "(string \<Rightarrow> u32 option) \<Rightarrow> string \<Rightarrow> string \<Rightarrow> bool" where
  "resolvable resolve h p \<longleftrightarrow> 1 \<le> atoi p \<and> atoi p \<le> 65535 \<and> resolve h \<noteq> None"

definition addr_of :: "(string \<Rightarrow> u32 option) \<Rightarrow> string \<Rightarrow> string \<Rightarrow> sockaddr_in" where
  "addr_of resolve h p = \<lparr>sin_family = 2, sin_addr = the (resolve h), sin_port = of_int (atoi p)\<rparr>"

lemma get_sockaddr_in_ok:
  "resolvable resolve h p \<Longrightarrow> get_sockaddr_in resolve (Some h) (atoi p) = Inr (addr_of resolve h p)"
  by (auto simp: resolvable_def get_sockaddr_in_def addr_of_def split: option.splits)

lemma get_sockaddr_in_bad:
  "\<not> resolvable resolve h p \<Longrightarrow> \<exists>e. get_sockaddr_in resolve (Some h) (atoi p) = Inl e \<and> e < 0"
  by (auto simp: resolvable_def get_sockaddr_in_def split: option.splits)

lemma address_loop_ok:
  assumes "i + n \<le> length servers"
    and "\<And>k. i \<le> k \<Longrightarrow> k < i + n \<Longrightarrow> resolvable resolve (hosts ! k) (ports ! k)"
  shows "\<exists>s'. address_loop resolve hosts ports i n servers = (None, s') \<and> length s' = length servers \<and>
    (\<forall>k. i \<le> k \<and> k < i + n \<longrightarrow> tgt_address (s' ! k) = addr_of resolve (hosts ! k) (ports ! k)) \<and>
    (\<forall>k < i. s' ! k = servers ! k)"
  using assms
proof (induction n arbitrary: i servers)
  case 0
  then show ?case by auto
next
  case (Suc n)
  let ?s = "servers[i := (servers ! i)\<lparr>tgt_address := addr_of resolve (hosts ! i) (ports ! i)\<rparr>]"
  have r: "get_sockaddr_in resolve (Some (hosts ! i)) (atoi (ports ! i)) =
      Inr (addr_of resolve (hosts ! i) (ports ! i))"
    using Suc.prems(2) [of i] by (intro get_sockaddr_in_ok) simp
  obtain s' where s': "address_loop resolve hosts ports (Suc i) n ?s = (None, s')"
      "length s' = length ?s"
      "\<forall>k. Suc i \<le> k \<and> k < Suc i + n \<longrightarrow> tgt_address (s' ! k) = addr_of resolve (hosts ! k) (ports ! k)"
      "\<forall>k < Suc i. s' ! k = ?s ! k"
    using Suc.IH [of "Suc i" ?s] Suc.prems by auto
  have "tgt_address (s' ! k) = addr_of resolve (hosts ! k) (ports ! k)" if "i \<le> k" "k < i + Suc n" for k
    using s'(3,4) that Suc.prems(1) by (cases "k = i") auto
  then show ?case using s' r by (auto simp: nth_list_update)
qed

lemma address_loop_bad:
  assumes "i \<le> k" "k < i + n" and "\<not> resolvable resolve (hosts ! k) (ports ! k)"
  shows "\<exists>e s'. address_loop resolve hosts ports i n servers = (Some e, s') \<and> e < 0"
  using assms
proof (induction n arbitrary: i servers)
  case 0
  then show ?case by simp
next
  case (Suc n)
  show ?case
  proof (cases "resolvable resolve (hosts ! i) (ports ! i)")
    case True
    then have "i \<noteq> k" using Suc.prems by auto
    then have "Suc i \<le> k" "k < Suc i + n" using Suc.prems by auto
    then show ?thesis
      using Suc.IH [of "Suc i"] Suc.prems(3) by (simp add: get_sockaddr_in_ok [OF True])
  next
    case False
    then show ?thesis using get_sockaddr_in_bad [OF False] by auto
  qed
qed

section \<open>Properties\<close>

text \<open>
  C26: the listening socket, when \<open>socket\<close> returns \<open>-1\<close> or a positive descriptor. A result of \<open>-3\<close>, \<open>-4\<close> or \<open>-5\<close> is returned only after the socket that was
  obtained has been closed again; a result that is no error is the socket itself, not closed, after
  the socket option, bind and listen calls on it succeeded in this order; and an invalid port makes
  no call at all.
\<close>

theorem open_server_socket_closes:
  assumes "open_server_socket os port a (Some n) w = ((r, a'), w')" and "0 < n"
    and "os (hist w) Socket = -1 \<or> 0 < os (hist w) Socket"
  shows "(port < 1 \<or> port > 65535 \<longrightarrow> r = -1 \<and> w' = w) \<and>
    (r \<in> {-3, -4, -5} \<longrightarrow> hd (hist w') = Close (os (hist w) Socket)) \<and>
    (0 \<le> r \<longrightarrow> hist w' = [Listen r, Bind r (of_int port), Setsockopt_reuse r, Socket] @ hist w \<and>
       r = os (hist w) Socket \<and> sin_port a' = of_int port)"
  using assms
  by (auto simp: open_server_socket_def errbuf_ok_def tcp_defs split: if_splits)

text \<open>
  The outgoing socket leaks. Whenever \<open>connect_to_server_socket\<close> obtains a socket and then fails,
  the descriptor it obtained is not among the descriptors it closes: the handle was overwritten with
  \<open>-1\<close> before it was closed.
\<close>

theorem connect_leaks_socket:
  assumes "connect_to_server_socket os t (Some n) w = ((r, t'), w')" and "0 < n"
    and "tgt_handle t < 0" and "0 \<le> os (hist w) Socket" and "r < 0"
  shows "tgt_handle t' = -1 \<and> (\<exists>calls. hist w' = calls @ hist w \<and> Socket \<in> set calls \<and>
    (\<forall>fd \<ge> 0. Close fd \<notin> set calls))"
  using assms
  by (auto simp: connect_to_server_socket_def restore_flags_def connect_fail_def errbuf_ok_def
      tcp_defs split: if_splits)

text \<open>
  C24: the address list. For at most 64 servers the call succeeds, with the number of servers, exactly
  when every configured port, as \<open>atoi\<close> converts it, lies between 1 and 65535 and every host resolves; every address is
  then the resolved host and port of its position. Otherwise the result is negative.
\<close>

theorem address_list_correct:
  assumes "n \<le> 64" and "length servers = 64"
  shows "if \<forall>k < n. resolvable resolve (hosts ! k) (ports ! k)
    then \<exists>s'. address_list_from_arguments resolve (int n) hosts ports servers = (int n, s') \<and>
      (\<forall>k < n. tgt_address (s' ! k) = addr_of resolve (hosts ! k) (ports ! k))
    else fst (address_list_from_arguments resolve (int n) hosts ports servers) < 0"
proof (cases "\<forall>k < n. resolvable resolve (hosts ! k) (ports ! k)")
  case True
  let ?s = "servers[0 := (servers ! 0)\<lparr>tgt_address := zero_sockaddr\<rparr>]"
  obtain s' where "address_loop resolve hosts ports 0 n ?s = (None, s')"
      "\<forall>k. 0 \<le> k \<and> k < 0 + n \<longrightarrow> tgt_address (s' ! k) = addr_of resolve (hosts ! k) (ports ! k)"
    using address_loop_ok [of 0 n ?s resolve hosts ports] True assms by auto
  then show ?thesis using True assms by (simp add: address_list_from_arguments_def Let_def)
next
  case False
  then obtain k where "k < n" "\<not> resolvable resolve (hosts ! k) (ports ! k)" by auto
  then obtain e s' where "address_loop resolve hosts ports 0 n
      (servers[0 := (servers ! 0)\<lparr>tgt_address := zero_sockaddr\<rparr>]) = (Some e, s')" "e < 0"
    using address_loop_bad [of 0 k n] by (metis add_0 le0)
  moreover have "\<not> 64 < int n" using assms by simp
  ultimately show ?thesis using False by (simp add: address_list_from_arguments_def Let_def)
qed

definition quiet_os :: os where
  "quiet_os h c = (case c of Socket \<Rightarrow> 5 | Connect _ \<Rightarrow> -1 | Errno \<Rightarrow> 111 | _ \<Rightarrow> 0)"

theorem open_server_socket_closes_witness:
  "\<exists>a' w'. open_server_socket quiet_os 3000 zero_sockaddr (Some 200) \<lparr>hist = [], faults = []\<rparr> =
    ((5, a'), w') \<and> hist w' = [Listen 5, Bind 5 3000, Setsockopt_reuse 5, Socket]"
proof -
  have e: "open_server_socket quiet_os 3000 zero_sockaddr (Some 200) \<lparr>hist = [], faults = []\<rparr> =
      ((5, \<lparr>sin_family = 2, sin_addr = 0, sin_port = 3000\<rparr>),
       \<lparr>hist = [Listen 5, Bind 5 3000, Setsockopt_reuse 5, Socket], faults = []\<rparr>)"
    by (simp add: open_server_socket_def errbuf_ok_def quiet_os_def ext_def)
  show ?thesis using open_server_socket_closes [OF e] e by (auto simp: quiet_os_def)
qed

theorem connect_leaks_socket_witness:
  "\<exists>t' w'. connect_to_server_socket quiet_os \<lparr>tgt_address = zero_sockaddr, tgt_handle = -1\<rparr> (Some 200)
      \<lparr>hist = [], faults = []\<rparr> = ((-6, t'), w') \<and> tgt_handle t' = -1 \<and> Close 5 \<notin> set (hist w')"
proof -
  obtain t' w' where e: "connect_to_server_socket quiet_os
      \<lparr>tgt_address = zero_sockaddr, tgt_handle = -1\<rparr> (Some 200) \<lparr>hist = [], faults = []\<rparr> = ((-6, t'), w')"
    by (simp add: connect_to_server_socket_def connect_fail_def errbuf_ok_def quiet_os_def tcp_defs)
  show ?thesis using connect_leaks_socket [OF e] e by (auto simp: quiet_os_def)
qed

text \<open>A number that does not fit \<open>int\<close> can be taken for a valid port.\<close>

lemma large_port_accepted: "resolvable (\<lambda>_. Some 7) ''a'' ''4294970296''"
proof -
  have "atoi ''4294970296'' = 3000"
    by (simp add: atoi_def atol_def decimal_value_def is_space_char_def is_digit_char_def digits_value_def to_int32_def)
  then show ?thesis by (simp add: resolvable_def)
qed

theorem address_list_correct_witness:
  "\<exists>s'. address_list_from_arguments (\<lambda>h. if h = ''a'' then Some 7 else None) 1 [''a''] [''3000'']
      (replicate 64 \<lparr>tgt_address = zero_sockaddr, tgt_handle = 0\<rparr>) = (1, s')"
proof -
  let ?r = "\<lambda>h. if h = ''a'' then Some (7 :: u32) else None"
  have a: "atoi ''3000'' = 3000" by code_simp
  have "\<forall>k < 1. resolvable ?r ([''a''] ! k) ([''3000''] ! k)" by (simp add: resolvable_def a)
  then show ?thesis
    using address_list_correct [of 1 "replicate 64 \<lparr>tgt_address = zero_sockaddr, tgt_handle = 0\<rparr>" ?r
        "[''a'']" "[''3000'']"] by auto
qed

end
