(* ===== verification/Session_Core.thy ===== *)
theory Session_Core
  imports Tcp
begin

text \<open>
  The session table of \<open>include/pcapsession.h\<close> and the operations of
  \<open>src/pcapsession/pcapsession.c\<close> that allocate a session and hand it to session handling. The C
  struct is the record \<open>session\<close>, field by field (the mutex is left out: an operation of the model
  is one critical section; \<open>Session_Threads\<close> has the mutexes); the six pairs of function pointers a session can carry are the
  constructors of \<open>session_kind\<close>. A pointer to a session is its index in the table.
\<close>

section \<open>States and flags\<close>

abbreviation (input) PCAP_SESSION_UNUSED :: int where "PCAP_SESSION_UNUSED \<equiv> 0"
abbreviation (input) PCAP_SESSION_STOPPED :: int where "PCAP_SESSION_STOPPED \<equiv> 1"
abbreviation (input) PCAP_SESSION_START :: int where "PCAP_SESSION_START \<equiv> 2"
abbreviation (input) PCAP_SESSION_STARTING :: int where "PCAP_SESSION_STARTING \<equiv> 3"
abbreviation (input) PCAP_SESSION_RUNNING :: int where "PCAP_SESSION_RUNNING \<equiv> 4"
abbreviation (input) PCAP_SESSION_TERMINATE :: int where "PCAP_SESSION_TERMINATE \<equiv> 5"
abbreviation (input) PCAP_SESSION_ABORT :: int where "PCAP_SESSION_ABORT \<equiv> 6"
abbreviation (input) PCAP_SESSION_TERMINATING :: int where "PCAP_SESSION_TERMINATING \<equiv> 7"
abbreviation (input) PCAP_SESSION_ABORTING :: int where "PCAP_SESSION_ABORTING \<equiv> 8"

abbreviation (input) PCAP_SESSION_MAX_SESSIONS :: nat where "PCAP_SESSION_MAX_SESSIONS \<equiv> 128"
abbreviation (input) PCAP_SESSION_SUPERVISION_TRANSITION_INTERVALS :: int where
  "PCAP_SESSION_SUPERVISION_TRANSITION_INTERVALS \<equiv> 10"
abbreviation (input) PCAP_SESSION_UNSUPERVISED_FD :: int where "PCAP_SESSION_UNSUPERVISED_FD \<equiv> 0"
abbreviation (input) PCAP_SESSION_SUPERVISED_FD :: int where "PCAP_SESSION_SUPERVISED_FD \<equiv> 1"
abbreviation (input) PCAP_SESSION_UNTUNNEL_OFF :: int where "PCAP_SESSION_UNTUNNEL_OFF \<equiv> 0"
abbreviation (input) PCAP_SESSION_UNTUNNEL_ON :: int where "PCAP_SESSION_UNTUNNEL_ON \<equiv> 1"
abbreviation (input) PCAP_SESSION_ITERATE_INFINITY :: int where "PCAP_SESSION_ITERATE_INFINITY \<equiv> -1"

section \<open>The session record and the global state\<close>

datatype session_kind = Server | Clientconn | Livecapture | Filecapture | Merger | Client

record session =
  sid :: int
  description :: string
  state :: int
  thread :: int
  fd :: int
  supervise_fd :: int
  address :: sockaddr_in
  mon :: "monitor option"
  pcap_handle :: int
  pcap_dumper :: int
  runner :: "session_kind option"
  stopper :: "session_kind option"
  handler :: "nat option"
  interval_counter :: int
  untunnel :: int
  iterations :: int

text \<open>A session struct after \<open>memset\<close> to zero.\<close>

definition zero_session :: session where
  "zero_session = \<lparr>sid = 0, description = [], state = 0, thread = 0, fd = 0, supervise_fd = 0,
     address = zero_sockaddr, mon = None, pcap_handle = 0, pcap_dumper = 0, runner = None,
     stopper = None, handler = None, interval_counter = 0, untunnel = 0, iterations = 0\<rparr>"

text \<open>
  \<open>session_handling_state\<close> and \<open>session_list\<close> of \<open>pcapsession.c\<close>, the list of open client connections
  and its initialisation flag of \<open>pcapsession_clientconn.c\<close>, and the monitor clocks.
\<close>

record gstate = world +
  session_handling_state :: int
  session_list :: "session list"
  clientconnlist :: "nat option list"
  clientconnlist_initialized :: bool
  clocks :: monitor_clocks

definition init_gstate :: gstate where
  "init_gstate = \<lparr>hist = [], faults = [], session_handling_state = PCAP_SESSION_STOPPED,
     session_list = replicate PCAP_SESSION_MAX_SESSIONS zero_session,
     clientconnlist = replicate PCAP_SESSION_MAX_SESSIONS None, clientconnlist_initialized = False,
     clocks = (\<lambda>_. 0)\<rparr>"

abbreviation sess :: "gstate \<Rightarrow> nat \<Rightarrow> session" where
  "sess st i \<equiv> session_list st ! i"

text \<open>An assignment to fields of session \<open>i\<close>.\<close>

definition set_sess :: "nat \<Rightarrow> (session \<Rightarrow> session) \<Rightarrow> gstate \<Rightarrow> gstate" where
  "set_sess i f st = st\<lparr>session_list := (session_list st)[i := f (session_list st ! i)]\<rparr>"

section \<open>Operations\<close>

definition pcapsession_change_state :: "int \<Rightarrow> int \<Rightarrow> gstate \<Rightarrow> gstate" where
  "pcapsession_change_state session_id new_state st =
     (if 0 \<le> session_id \<and> session_id < int PCAP_SESSION_MAX_SESSIONS
      then set_sess (nat session_id) (\<lambda>s. s\<lparr>state := new_state\<rparr>) st
      else fault_at Out_of_bounds st)"

text \<open>The search loop of \<open>pcapsession_handling_get_new\<close>: the index at which it stops.\<close>

fun find_unused :: "session list \<Rightarrow> nat" where
  "find_unused [] = 0"
| "find_unused (s # ss) = (if state s = PCAP_SESSION_UNUSED then 0 else Suc (find_unused ss))"

definition pcapsession_handling_get_new :: "gstate \<Rightarrow> nat option \<times> gstate" where
  "pcapsession_handling_get_new st =
     (let session_id = find_unused (session_list st) in
      if session_id \<ge> PCAP_SESSION_MAX_SESSIONS then (None, st)
      else let st = set_sess session_id (\<lambda>_. zero_session\<lparr>sid := int session_id\<rparr>) st
        in (Some session_id, pcapsession_change_state (int session_id) PCAP_SESSION_STOPPED st))"

definition pcapsession_handling_add :: "int \<Rightarrow> gstate \<Rightarrow> int \<times> gstate" where
  "pcapsession_handling_add session_id st =
     (if session_id < 0 \<or> session_id \<ge> int PCAP_SESSION_MAX_SESSIONS then (0, st)
      else let st = pcapsession_change_state session_id PCAP_SESSION_START st
        in (1, set_sess (nat session_id) (\<lambda>s. s\<lparr>sid := session_id\<rparr>) st))"

text \<open>
  A description written with \<open>strcpy\<close> or \<open>sprintf\<close> into the \<open>FILENAME_MAX\<close> characters of the struct. A
  longer text is written too and runs over the end of the field; the fault stands for what it overwrites.
\<close>

definition set_description :: "nat \<Rightarrow> string \<Rightarrow> gstate \<Rightarrow> gstate" where
  "set_description i text st =
     set_sess i (\<lambda>s. s\<lparr>description := text\<rparr>)
       (case str_into FILENAME_MAX text of Inl f \<Rightarrow> fault_at f st | Inr _ \<Rightarrow> st)"

text \<open>\<open>sprintf ("%s:%d", inet_ntoa (addr), ntohs (port))\<close>.\<close>

definition show_address :: "sockaddr_in \<Rightarrow> string" where
  "show_address a = inet_ntoa (sin_addr a) @ '':'' @ dec (unat (sin_port a))"

section \<open>Well-formed states\<close>

text \<open>
  The table has its fixed size; a session in use carries its own index as identifier and a matching
  pair of run and stop functions; every client connection on the dump list is a client connection of
  the table with an open dumper.
\<close>

definition session_ok :: "nat \<Rightarrow> session \<Rightarrow> bool" where
  "session_ok i s \<longleftrightarrow> sid s = int i \<and> (\<exists>k. runner s = Some k \<and> stopper s = Some k)"

definition tables_ok :: "gstate \<Rightarrow> bool" where
  "tables_ok st \<longleftrightarrow> length (session_list st) = PCAP_SESSION_MAX_SESSIONS \<and>
     length (clientconnlist st) = PCAP_SESSION_MAX_SESSIONS"

definition sessions_ok :: "gstate \<Rightarrow> bool" where
  "sessions_ok st \<longleftrightarrow> tables_ok st \<and>
     (\<forall>i < PCAP_SESSION_MAX_SESSIONS. state (sess st i) \<noteq> PCAP_SESSION_UNUSED \<longrightarrow> session_ok i (sess st i))"

definition dump_list_ok :: "gstate \<Rightarrow> bool" where
  "dump_list_ok st \<longleftrightarrow>
     (\<forall>i < PCAP_SESSION_MAX_SESSIONS. clientconnlist st ! i \<noteq> None \<longrightarrow>
        clientconnlist st ! i = Some i \<and> pcap_dumper (sess st i) \<noteq> 0 \<and>
        stopper (sess st i) = Some Clientconn \<and> state (sess st i) \<noteq> PCAP_SESSION_UNUSED)"

section \<open>Lemmas\<close>

lemma set_sess_nth [sess_simps]:
  "j < length (session_list st) \<Longrightarrow>
     session_list (set_sess i f st) ! j = (if i = j then f (session_list st ! j) else session_list st ! j)"
  by (auto simp: set_sess_def)

lemma set_sess_frame [sess_simps]:
  "length (session_list (set_sess i f st)) = length (session_list st)"
  "session_handling_state (set_sess i f st) = session_handling_state st"
  "clientconnlist (set_sess i f st) = clientconnlist st"
  "clientconnlist_initialized (set_sess i f st) = clientconnlist_initialized st"
  "clocks (set_sess i f st) = clocks st" "hist (set_sess i f st) = hist st"
  "faults (set_sess i f st) = faults st"
  by (simp_all add: set_sess_def)

lemma change_state_eq [sess_simps]:
  "i < 128 \<Longrightarrow> pcapsession_change_state (int i) x st = set_sess i (\<lambda>s. s\<lparr>state := x\<rparr>) st"
  by (simp add: pcapsession_change_state_def)

lemma fault_at_frame [sess_simps]:
  "session_list (fault_at f st) = session_list st"
  "session_handling_state (fault_at f st) = session_handling_state st"
  "clientconnlist (fault_at f st) = clientconnlist st"
  "hist (fault_at f (st :: gstate)) = hist st" "clocks (fault_at f st) = clocks st"
  by (simp_all add: fault_at_def)

lemma ext_do_frame [sess_simps]:
  "session_list (ext_do c st) = session_list st"
  "session_handling_state (ext_do c st) = session_handling_state st"
  "clientconnlist (ext_do c st) = clientconnlist st" "clocks (ext_do c st) = clocks st"
  by (simp_all add: ext_do_def)

lemma set_description_frame [sess_simps]:
  "length (session_list (set_description i t st)) = length (session_list st)"
  "session_handling_state (set_description i t st) = session_handling_state st"
  "clientconnlist (set_description i t st) = clientconnlist st"
  by (simp_all add: set_description_def sess_simps split: sum.split)

lemma set_description_nth [sess_simps]:
  "j < length (session_list st) \<Longrightarrow>
     session_list (set_description i t st) ! j =
       (if i = j then (session_list st ! j)\<lparr>description := t\<rparr> else session_list st ! j)"
  by (auto simp: set_description_def str_into_def sess_simps)

lemma find_unused_le: "find_unused ss \<le> length ss"
  by (induction ss) auto

lemma find_unused_spec:
  "find_unused ss < length ss \<Longrightarrow> state (ss ! find_unused ss) = 0"
  "k < find_unused ss \<Longrightarrow> state (ss ! k) \<noteq> 0"
proof (induction ss arbitrary: k)
  case (Cons s ss)
  { case 1 then show ?case using Cons.IH(1) by (auto split: if_splits) }
  { case 2 then show ?case using Cons.IH(2) [of "k - 1"] by (cases k) (auto split: if_splits) }
qed simp_all

lemma find_unused_full: "find_unused ss = length ss \<longleftrightarrow> (\<forall>s \<in> set ss. state s \<noteq> 0)"
  by (induction ss) auto

lemma get_new_None:
  assumes "tables_ok st"
  shows "fst (pcapsession_handling_get_new st) = None \<longleftrightarrow> (\<forall>s \<in> set (session_list st). state s \<noteq> 0)"
proof -
  have "find_unused (session_list st) \<ge> 128 \<longleftrightarrow> find_unused (session_list st) = length (session_list st)"
    using assms find_unused_le [of "session_list st"] by (auto simp: tables_ok_def)
  then show ?thesis
    by (simp add: pcapsession_handling_get_new_def Let_def find_unused_full)
qed

lemma get_new_Some:
  assumes "tables_ok st" and "pcapsession_handling_get_new st = (Some i, st')"
  shows "i < 128" "state (sess st i) = 0" "\<And>k. k < i \<Longrightarrow> state (sess st k) \<noteq> 0"
    "st' = set_sess i (\<lambda>_. zero_session\<lparr>sid := int i, state := 1\<rparr>) st"
proof -
  have i: "i = find_unused (session_list st)" "i < 128"
    using assms(2) by (auto simp: pcapsession_handling_get_new_def Let_def split: if_splits)
  show "i < 128" by (rule i)
  show "state (sess st i) = 0" using i assms(1) find_unused_spec(1) by (simp add: tables_ok_def)
  show "state (sess st k) \<noteq> 0" if "k < i" for k using that i find_unused_spec(2) by simp
  show "st' = set_sess i (\<lambda>_. zero_session\<lparr>sid := int i, state := 1\<rparr>) st"
    using assms i
    by (auto simp: pcapsession_handling_get_new_def Let_def change_state_eq set_sess_def tables_ok_def
        zero_session_def)
qed

section \<open>Properties\<close>

text \<open>
  C14: allocation. \<open>pcapsession_handling_get_new\<close> returns null exactly when all 128 sessions are in use,
  and then changes nothing. Otherwise it returns the first unused session, zeroed, stopped and
  carrying its own index as identifier, and leaves every other session as it was.
\<close>

theorem get_new_first_unused:
  assumes "tables_ok st"
  shows "case pcapsession_handling_get_new st of
      (None, st') \<Rightarrow> st' = st \<and> (\<forall>i < 128. state (sess st i) \<noteq> 0)
    | (Some i, st') \<Rightarrow> i < 128 \<and> state (sess st i) = 0 \<and> (\<forall>k < i. state (sess st k) \<noteq> 0) \<and>
        sess st' i = zero_session\<lparr>sid := int i, state := 1\<rparr> \<and>
        (\<forall>j < 128. j \<noteq> i \<longrightarrow> sess st' j = sess st j)"
proof (cases "pcapsession_handling_get_new st")
  case (Pair r st')
  show ?thesis
  proof (cases r)
    case None
    then have "st' = st"
      using Pair by (auto simp: pcapsession_handling_get_new_def Let_def split: if_splits)
    moreover have "\<forall>i < 128. state (sess st i) \<noteq> 0"
      using get_new_None [OF assms] Pair None assms by (auto simp: tables_ok_def)
    ultimately show ?thesis using Pair None by simp
  next
    case (Some i)
    note g = get_new_Some [OF assms Pair [unfolded Some]]
    show ?thesis using Pair Some g assms by (auto simp: sess_simps tables_ok_def)
  qed
qed

theorem get_new_first_unused_witness:
  "case pcapsession_handling_get_new init_gstate of (None, st') \<Rightarrow> False
   | (Some i, st') \<Rightarrow> i < 128 \<and> sess st' i = zero_session\<lparr>sid := int i, state := 1\<rparr>"
proof -
  have t: "tables_ok init_gstate" by (simp add: tables_ok_def init_gstate_def)
  have n: "fst (pcapsession_handling_get_new init_gstate) \<noteq> None"
    unfolding get_new_None [OF t] by (simp add: init_gstate_def zero_session_def)
  show ?thesis using get_new_first_unused [OF t] n
    by (auto split: prod.splits option.splits)
qed

end
