(* ===== verification/Session_Stop.thy ===== *)
theory Session_Stop
  imports Session_Core
begin

text \<open>
  The stop functions of the six kinds of session, each from the file of its kind under
  \<open>src/pcapsession/\<close>. The steps that several of them repeat word for word (closing the dumper, the
  capture handle, the descriptor and the monitor) are defined once. The locale \<open>session_stopper\<close> is
  the contract between session handling and a stop function; every stop function of the program is
  an instance, and so is the dispatch through the function pointer of a session.
\<close>

section \<open>Shared steps\<close>

definition set_conn :: "int \<Rightarrow> nat option \<Rightarrow> gstate \<Rightarrow> gstate" where
  "set_conn i v st =
     (if 0 \<le> i \<and> i < int PCAP_SESSION_MAX_SESSIONS
      then st\<lparr>clientconnlist := (clientconnlist st)[nat i := v]\<rparr> else fault_at Out_of_bounds st)"

text \<open>
  The dumper is closed when the file behind it is open, tested twice, and the pointer is cleared in
  any case.
\<close>

definition stop_dumper :: "os \<Rightarrow> nat \<Rightarrow> gstate \<Rightarrow> gstate" where
  "stop_dumper os i st =
     (let d = pcap_dumper (sess st i);
          st = (if d \<noteq> 0 then
             let (f, st) = ext os (Pcap_dump_fileno d) st; (open1, st) = iotests_fd_open os f st in
             if open1 then
               let (f, st) = ext os (Pcap_dump_fileno d) st; (open2, st) = iotests_fd_open os f st in
               if open2 then ext_do (Pcap_dump_close d) st else st
             else st
           else st)
      in set_sess i (\<lambda>s. s\<lparr>pcap_dumper := 0\<rparr>) st)"

definition stop_handle :: "bool \<Rightarrow> nat \<Rightarrow> gstate \<Rightarrow> gstate" where
  "stop_handle breakloop i st =
     (let h = pcap_handle (sess st i) in
      if h \<noteq> 0 then
        let st = (if breakloop then ext_do (Pcap_breakloop h) st else st)
        in set_sess i (\<lambda>s. s\<lparr>pcap_handle := 0\<rparr>) (ext_do (Pcap_close h) st)
      else st)"

definition stop_fd :: "os \<Rightarrow> nat \<Rightarrow> gstate \<Rightarrow> gstate" where
  "stop_fd os i st =
     (let f = fd (sess st i);
          st = (if f > 0 then let (is_open, st) = iotests_fd_open os f st in
                  if is_open then ext_do (Close f) st else st
                else st)
      in set_sess i (\<lambda>s. s\<lparr>fd := 0\<rparr>) st)"

text \<open>\<open>monitor_close\<close> frees the monitor; the pointer is cleared by the caller.\<close>

definition stop_monitor :: "nat \<Rightarrow> gstate \<Rightarrow> gstate" where
  "stop_monitor i st =
     (if mon (sess st i) \<noteq> None then set_sess i (\<lambda>s. s\<lparr>mon := None\<rparr>) st else st)"

text \<open>The final branch of the stop functions that order a restart unless the session is aborting.\<close>

definition stop_or_restart :: "bool \<Rightarrow> nat \<Rightarrow> gstate \<Rightarrow> gstate" where
  "stop_or_restart always_stop i st =
     (if state (sess st i) = PCAP_SESSION_ABORTING \<or> always_stop
      then pcapsession_change_state (sid (sess st i)) PCAP_SESSION_STOPPED st
      else pcapsession_change_state (sid (sess st i)) PCAP_SESSION_START st)"

section \<open>The stop functions\<close>

definition pcapsession_server_stop :: "os \<Rightarrow> nat option \<Rightarrow> gstate \<Rightarrow> gstate" where
  "pcapsession_server_stop os p st =
     (case p of None \<Rightarrow> st
      | Some i \<Rightarrow>
          let st = (if fd (sess st i) > 0 then
                let (_, st) = close_server_socket os (fd (sess st i)) (Some 200) st
                in set_sess i (\<lambda>s. s\<lparr>fd := 0\<rparr>) st
              else st)
          in stop_or_restart False i st)"

definition pcapsession_clientconn_stop :: "os \<Rightarrow> nat option \<Rightarrow> gstate \<Rightarrow> gstate" where
  "pcapsession_clientconn_stop os p st =
     (case p of None \<Rightarrow> st
      | Some i \<Rightarrow>
          let st = set_conn (sid (sess st i)) None st;
              st = stop_dumper os i st;
              st = stop_handle False i st;
              st = stop_fd os i st;
              st = stop_monitor i st
          in pcapsession_change_state (sid (sess st i)) PCAP_SESSION_STOPPED st)"

definition pcapsession_livecapture_stop :: "os \<Rightarrow> nat option \<Rightarrow> gstate \<Rightarrow> gstate" where
  "pcapsession_livecapture_stop os p st =
     (case p of None \<Rightarrow> st
      | Some i \<Rightarrow> stop_or_restart False i (stop_monitor i (stop_handle True i st)))"

definition pcapsession_filecapture_stop :: "os \<Rightarrow> nat option \<Rightarrow> gstate \<Rightarrow> gstate" where
  "pcapsession_filecapture_stop os p st =
     (case p of None \<Rightarrow> st
      | Some i \<Rightarrow>
          let st = stop_monitor i (stop_handle True i st)
          in stop_or_restart (iterations (sess st i) = 0) i st)"

text \<open>The second test of the descriptor in the source follows its reset to zero and never holds.\<close>

definition pcapsession_merger_stop :: "os \<Rightarrow> nat option \<Rightarrow> gstate \<Rightarrow> gstate" where
  "pcapsession_merger_stop os p st =
     (case p of None \<Rightarrow> st
      | Some i \<Rightarrow>
          let st = stop_dumper os i st;
              st = stop_handle False i st;
              st = stop_fd os i st;
              st = (if fd (sess st i) > 0
                    then set_sess i (\<lambda>s. s\<lparr>fd := 0\<rparr>) (ext_do (Close (fd (sess st i))) st) else st);
              st = stop_monitor i st
          in stop_or_restart False i st)"

definition pcapsession_client_stop :: "os \<Rightarrow> nat option \<Rightarrow> gstate \<Rightarrow> gstate" where
  "pcapsession_client_stop os p st =
     (case p of None \<Rightarrow> st
      | Some i \<Rightarrow>
          let st = stop_handle True i st;
              st = stop_fd os i st;
              st = stop_monitor i st
          in stop_or_restart False i st)"

text \<open>The call through the \<open>stopper\<close> pointer of a session.\<close>

definition call_stopper :: "session_kind \<Rightarrow> os \<Rightarrow> nat option \<Rightarrow> gstate \<Rightarrow> gstate" where
  "call_stopper k = (case k of
       Server \<Rightarrow> pcapsession_server_stop
     | Clientconn \<Rightarrow> pcapsession_clientconn_stop
     | Livecapture \<Rightarrow> pcapsession_livecapture_stop
     | Filecapture \<Rightarrow> pcapsession_filecapture_stop
     | Merger \<Rightarrow> pcapsession_merger_stop
     | Client \<Rightarrow> pcapsession_client_stop)"

section \<open>What a stop leaves of its session\<close>

text \<open>The session struct after the stop function of each kind, as a function of the struct before.\<close>

definition after_stop :: "session_kind \<Rightarrow> session \<Rightarrow> session" where
  "after_stop k s = (case k of
       Server \<Rightarrow> s\<lparr>fd := (if fd s > 0 then 0 else fd s), state := (if state s = 8 then 1 else 2)\<rparr>
     | Clientconn \<Rightarrow> s\<lparr>pcap_dumper := 0, pcap_handle := 0, fd := 0, mon := None, state := 1\<rparr>
     | Livecapture \<Rightarrow> s\<lparr>pcap_handle := 0, mon := None, state := (if state s = 8 then 1 else 2)\<rparr>
     | Filecapture \<Rightarrow> s\<lparr>pcap_handle := 0, mon := None,
         state := (if state s = 8 \<or> iterations s = 0 then 1 else 2)\<rparr>
     | Merger \<Rightarrow> s\<lparr>pcap_dumper := 0, pcap_handle := 0, fd := 0, mon := None,
         state := (if state s = 8 then 1 else 2)\<rparr>
     | Client \<Rightarrow> s\<lparr>pcap_handle := 0, fd := 0, mon := None, state := (if state s = 8 then 1 else 2)\<rparr>)"

text \<open>Which sessions are started again after they terminate.\<close>

definition restarts :: "session_kind \<Rightarrow> session \<Rightarrow> bool" where
  "restarts k s \<longleftrightarrow> k \<noteq> Clientconn \<and> \<not> (k = Filecapture \<and> iterations s = 0)"

lemma after_stop_simps [simp]:
  "sid (after_stop k s) = sid s" "runner (after_stop k s) = runner s"
  "stopper (after_stop k s) = stopper s" "iterations (after_stop k s) = iterations s"
  "supervise_fd (after_stop k s) = supervise_fd s" "thread (after_stop k s) = thread s"
  "mon (after_stop k s) = (if k = Server then mon s else None)"
  "interval_counter (after_stop k s) = interval_counter s"
  by (cases k; simp add: after_stop_def)+

lemma after_stop_state:
  "state (after_stop k s) = (if state s = 8 \<or> \<not> restarts k s then 1 else 2)"
  by (cases k) (auto simp: after_stop_def restarts_def)

section \<open>Lemmas on the shared steps\<close>

lemma set_conn_frame [sess_simps]:
  "session_list (set_conn i v st) = session_list st"
  "session_handling_state (set_conn i v st) = session_handling_state st"
  "length (clientconnlist (set_conn i v st)) = length (clientconnlist st)"
  by (simp_all add: set_conn_def sess_simps)

lemma set_conn_eq [sess_simps]:
  "i < 128 \<Longrightarrow> clientconnlist (set_conn (int i) v st) = (clientconnlist st)[i := v]"
  by (simp add: set_conn_def)

lemma stop_dumper_frame [sess_simps]:
  "length (session_list (stop_dumper os i st)) = length (session_list st)"
  "session_handling_state (stop_dumper os i st) = session_handling_state st"
  "clientconnlist (stop_dumper os i st) = clientconnlist st"
  "faults (stop_dumper os i st) = faults st"
  by (simp_all add: stop_dumper_def Let_def split_def ext_simps sess_simps)

lemma stop_dumper_nth [sess_simps]:
  "j < length (session_list st) \<Longrightarrow> session_list (stop_dumper os i st) ! j =
     (if i = j then (session_list st ! j)\<lparr>pcap_dumper := 0\<rparr> else session_list st ! j)"
  by (simp add: stop_dumper_def Let_def split_def ext_simps sess_simps)

lemma stop_handle_frame [sess_simps]:
  "length (session_list (stop_handle b i st)) = length (session_list st)"
  "session_handling_state (stop_handle b i st) = session_handling_state st"
  "clientconnlist (stop_handle b i st) = clientconnlist st"
  "faults (stop_handle b i st) = faults st"
  by (simp_all add: stop_handle_def Let_def sess_simps)

lemma stop_handle_nth [sess_simps]:
  "j < length (session_list st) \<Longrightarrow> session_list (stop_handle b i st) ! j =
     (if i = j then (session_list st ! j)\<lparr>pcap_handle := 0\<rparr> else session_list st ! j)"
  by (auto simp: stop_handle_def Let_def sess_simps)

lemma stop_fd_frame [sess_simps]:
  "length (session_list (stop_fd os i st)) = length (session_list st)"
  "session_handling_state (stop_fd os i st) = session_handling_state st"
  "clientconnlist (stop_fd os i st) = clientconnlist st"
  "faults (stop_fd os i st) = faults st"
  by (simp_all add: stop_fd_def Let_def split_def ext_simps sess_simps)

lemma stop_fd_nth [sess_simps]:
  "j < length (session_list st) \<Longrightarrow> session_list (stop_fd os i st) ! j =
     (if i = j then (session_list st ! j)\<lparr>fd := 0\<rparr> else session_list st ! j)"
  by (simp add: stop_fd_def Let_def split_def ext_simps sess_simps)

lemma stop_monitor_frame [sess_simps]:
  "length (session_list (stop_monitor i st)) = length (session_list st)"
  "session_handling_state (stop_monitor i st) = session_handling_state st"
  "clientconnlist (stop_monitor i st) = clientconnlist st"
  "faults (stop_monitor i st) = faults st"
  by (simp_all add: stop_monitor_def sess_simps)

lemma stop_monitor_nth [sess_simps]:
  "j < length (session_list st) \<Longrightarrow> session_list (stop_monitor i st) ! j =
     (if i = j then (session_list st ! j)\<lparr>mon := None\<rparr> else session_list st ! j)"
  by (auto simp: stop_monitor_def sess_simps)

lemma close_server_socket_frame [sess_simps]:
  "session_list (snd (close_server_socket os h e st)) = session_list st"
  "session_handling_state (snd (close_server_socket os h e st)) = session_handling_state st"
  "clientconnlist (snd (close_server_socket os h e st)) = clientconnlist st"
  "faults (snd (close_server_socket os h e (st :: gstate))) = faults st"
  by (simp_all add: close_server_socket_def ext_def)

section \<open>The contract\<close>

text \<open>
  A stop function, called by session handling on a session in use, changes no other session and no
  other entry of the list of client connections, keeps the session handling state, and leaves its own
  session as \<open>effect\<close> says; it stops an aborting session for good and otherwise stops it or orders its
  restart.
\<close>

locale session_stopper =
  fixes stop :: "os \<Rightarrow> nat option \<Rightarrow> gstate \<Rightarrow> gstate"
    and effect :: "session \<Rightarrow> session"
    and listed :: bool
  assumes stop_null: "stop os None st = st"
    and stop_length: "sid (sess st i) = int i \<Longrightarrow> i < 128 \<Longrightarrow> tables_ok st \<Longrightarrow>
      length (session_list (stop os (Some i) st)) = 128"
    and stop_nth: "sid (sess st i) = int i \<Longrightarrow> i < 128 \<Longrightarrow> tables_ok st \<Longrightarrow> j < 128 \<Longrightarrow>
      sess (stop os (Some i) st) j = (if i = j then effect (sess st j) else sess st j)"
    and stop_handling: "sid (sess st i) = int i \<Longrightarrow> i < 128 \<Longrightarrow> tables_ok st \<Longrightarrow>
      session_handling_state (stop os (Some i) st) = session_handling_state st"
    and stop_conn: "sid (sess st i) = int i \<Longrightarrow> i < 128 \<Longrightarrow> tables_ok st \<Longrightarrow>
      clientconnlist (stop os (Some i) st) =
        (if listed then (clientconnlist st)[i := None] else clientconnlist st)"
    and stop_faults: "sid (sess st i) = int i \<Longrightarrow> i < 128 \<Longrightarrow> tables_ok st \<Longrightarrow>
      faults (stop os (Some i) st) = faults st"
    and effect_sid: "sid (effect s) = sid s"
    and effect_kind: "runner (effect s) = runner s" "stopper (effect s) = stopper s"
    and effect_abort: "state s = 8 \<Longrightarrow> state (effect s) = 1"
    and effect_state: "state (effect s) \<in> {1, 2}"
begin

lemma stop_tables: "sid (sess st i) = int i \<Longrightarrow> i < 128 \<Longrightarrow> tables_ok st \<Longrightarrow> tables_ok (stop os (Some i) st)"
  using stop_length [of st i os] stop_conn [of st i os] by (simp add: tables_ok_def)

lemma stop_sessions_ok:
  assumes "sessions_ok st" "i < 128" "state (sess st i) \<noteq> 0"
  shows "sessions_ok (stop os (Some i) st)"
proof -
  have i: "sid (sess st i) = int i" "tables_ok st"
    using assms by (auto simp: sessions_ok_def session_ok_def)
  show ?thesis
    using assms stop_tables [OF i(1) assms(2) i(2)] stop_nth [OF i(1) assms(2) i(2)]
    by (auto simp: sessions_ok_def session_ok_def effect_sid effect_kind)
qed

text \<open>No stop is left half way: afterwards the session is stopped or due to start again.\<close>

lemma stop_settles:
  assumes "sid (sess st i) = int i" "i < 128" "tables_ok st"
  shows "state (sess (stop os (Some i) st) i) \<in> {1, 2}"
  using stop_nth [OF assms assms(2)] effect_state by simp

end

lemma stop_or_restart_frame [sess_simps]:
  "length (session_list (stop_or_restart b i st)) = length (session_list st)"
  "session_handling_state (stop_or_restart b i st) = session_handling_state st"
  "clientconnlist (stop_or_restart b i st) = clientconnlist st"
  by (simp_all add: stop_or_restart_def pcapsession_change_state_def sess_simps)

lemma stop_or_restart_nth [sess_simps]:
  "i < 128 \<Longrightarrow> i < length (session_list st) \<Longrightarrow> sid (session_list st ! i) = int i \<Longrightarrow>
   j < length (session_list st) \<Longrightarrow> session_list (stop_or_restart b i st) ! j =
     (if i = j then (session_list st ! j)\<lparr>state := (if state (session_list st ! j) = 8 \<or> b then 1 else 2)\<rparr>
      else session_list st ! j)"
  by (auto simp: stop_or_restart_def sess_simps)

lemma stop_or_restart_faults [sess_simps]:
  "i < 128 \<Longrightarrow> sid (session_list st ! i) = int i \<Longrightarrow> faults (stop_or_restart b i st) = faults st"
  by (simp add: stop_or_restart_def sess_simps)

lemma set_conn_faults [sess_simps]: "i < 128 \<Longrightarrow> faults (set_conn (int i) v st) = faults st"
  by (simp add: set_conn_def)

lemmas stop_defs = pcapsession_server_stop_def pcapsession_clientconn_stop_def
  pcapsession_livecapture_stop_def pcapsession_filecapture_stop_def pcapsession_merger_stop_def
  pcapsession_client_stop_def

interpretation server_stopper: session_stopper pcapsession_server_stop "after_stop Server" False
  by unfold_locales
    (auto simp: stop_defs tables_ok_def Let_def split_def sess_simps after_stop_def)

interpretation clientconn_stopper: session_stopper pcapsession_clientconn_stop "after_stop Clientconn" True
  by unfold_locales
    (auto simp: stop_defs tables_ok_def Let_def split_def sess_simps after_stop_def)

interpretation livecapture_stopper: session_stopper pcapsession_livecapture_stop "after_stop Livecapture" False
  by unfold_locales
    (auto simp: stop_defs tables_ok_def Let_def split_def sess_simps after_stop_def)

interpretation filecapture_stopper: session_stopper pcapsession_filecapture_stop "after_stop Filecapture" False
  by unfold_locales
    (auto simp: stop_defs tables_ok_def Let_def split_def sess_simps after_stop_def)

interpretation merger_stopper: session_stopper pcapsession_merger_stop "after_stop Merger" False
  by unfold_locales
    (auto simp: stop_defs tables_ok_def Let_def split_def sess_simps after_stop_def)

interpretation client_stopper: session_stopper pcapsession_client_stop "after_stop Client" False
  by unfold_locales
    (auto simp: stop_defs tables_ok_def Let_def split_def sess_simps after_stop_def)

text \<open>The dispatch through the function pointer keeps the contract, whichever kind it finds.\<close>

lemma call_stopper_contract: "session_stopper (call_stopper k) (after_stop k) (k = Clientconn)"
  by (cases k) (simp_all add: call_stopper_def server_stopper.session_stopper_axioms
      clientconn_stopper.session_stopper_axioms livecapture_stopper.session_stopper_axioms
      filecapture_stopper.session_stopper_axioms merger_stopper.session_stopper_axioms
      client_stopper.session_stopper_axioms)

interpretation any_stopper: session_stopper "call_stopper k" "after_stop k" "k = Clientconn" for k
  by (rule call_stopper_contract)

end
