(* ===== verification/Session_Handling.thy ===== *)
theory Session_Handling
  imports Session_Stop
begin

text \<open>
  Session handling, the rest of \<open>src/pcapsession/pcapsession.c\<close>: start and stop of a session, the
  transitions between its states, and the supervision thread that runs over all sessions once per
  interval. The supervision loop is given fuel and returns \<open>None\<close> when it is still running; the
  shutdown theorems say when two rounds are enough and when no number of rounds is.
\<close>

section \<open>Start and stop of a session\<close>

definition pcapsession_start :: "os \<Rightarrow> nat \<Rightarrow> gstate \<Rightarrow> int \<times> gstate" where
  "pcapsession_start os i st =
     (if state (sess st i) \<noteq> PCAP_SESSION_STARTING then (0, st)
      else let (rc, st) = ext os (Pthread_create i) st in
        if rc \<noteq> 0 then (0, st)
        else let (t, st) = ext os (Pthread_id i) st in (1, set_sess i (\<lambda>s. s\<lparr>thread := t\<rparr>) st))"

definition pcapsession_stop :: "os \<Rightarrow> nat \<Rightarrow> gstate \<Rightarrow> gstate" where
  "pcapsession_stop os i st =
     (let t = thread (sess st i);
          st = (if t \<noteq> 0 then
             set_sess i (\<lambda>s. s\<lparr>thread := 0\<rparr>) (ext_do (Pthread_join t) (ext_do (Pthread_cancel t) st))
           else st);
          st = (case stopper (sess st i) of
             None \<Rightarrow> fault_at Null_pointer st
           | Some k \<Rightarrow> call_stopper k os (Some i) st)
      in if state (sess st i) = PCAP_SESSION_STOPPED
         then pcapsession_change_state (int i) PCAP_SESSION_UNUSED st else st)"

section \<open>Transitions\<close>

definition timed_out :: "session \<Rightarrow> bool" where
  "timed_out s \<longleftrightarrow> interval_counter s \<ge> PCAP_SESSION_SUPERVISION_TRANSITION_INTERVALS"

definition enter_state :: "nat \<Rightarrow> int \<Rightarrow> gstate \<Rightarrow> gstate" where
  "enter_state i x st =
     set_sess i (\<lambda>s. s\<lparr>interval_counter := 0\<rparr>) (pcapsession_change_state (int i) x st)"

definition pcapsession_transition_session :: "os \<Rightarrow> nat \<Rightarrow> gstate \<Rightarrow> gstate" where
  "pcapsession_transition_session os i st =
     (let x = state (sess st i) in
      if x = PCAP_SESSION_UNUSED \<or> x = PCAP_SESSION_STOPPED then st
      else if x = PCAP_SESSION_START
        then snd (pcapsession_start os i (enter_state i PCAP_SESSION_STARTING st))
      else if x = PCAP_SESSION_STARTING then
        (if timed_out (sess st i) then pcapsession_change_state (int i) PCAP_SESSION_TERMINATE st
         else set_sess i (\<lambda>s. s\<lparr>interval_counter := interval_counter s + 1\<rparr>) st)
      else if x = PCAP_SESSION_RUNNING then st
      else if x = PCAP_SESSION_TERMINATE
        then pcapsession_stop os i (enter_state i PCAP_SESSION_TERMINATING st)
      else if x = PCAP_SESSION_ABORT
        then pcapsession_stop os i (enter_state i PCAP_SESSION_ABORTING st)
      else if x = PCAP_SESSION_TERMINATING \<or> x = PCAP_SESSION_ABORTING then
        (if timed_out (sess st i)
         then pcapsession_stop os i (pcapsession_change_state (int i) PCAP_SESSION_STOPPED st)
         else set_sess i (\<lambda>s. s\<lparr>interval_counter := interval_counter s + 1\<rparr>) st)
      else pcapsession_stop os i (pcapsession_change_state (int i) PCAP_SESSION_STOPPED st))"

section \<open>Supervision\<close>

text \<open>The flush and monitor output at the end of the loop body, for a running session.\<close>

definition supervise_monitor :: "os \<Rightarrow> nat \<Rightarrow> gstate \<Rightarrow> gstate" where
  "supervise_monitor os i st =
     (let st = (case mon (sess st i) of None \<Rightarrow> st
        | Some m \<Rightarrow> if pcap_dumper (sess st i) \<noteq> 0 \<and> bytes m = 0
            then ext_do (Pcap_dump_flush (pcap_dumper (sess st i))) st else st)
      in case mon (sess st i) of None \<Rightarrow> st
        | Some m \<Rightarrow>
            let (now, st) = ext os Time st in
            case handle_monitor F_pcapsession now m (clocks st) of
              Inl f \<Rightarrow> fault_at f st
            | Inr (m', clocks', _) \<Rightarrow> (set_sess i (\<lambda>s. s\<lparr>mon := Some m'\<rparr>) st)\<lparr>clocks := clocks'\<rparr>)"

definition supervise_abort :: "nat \<Rightarrow> gstate \<Rightarrow> gstate" where
  "supervise_abort i st =
     (if session_handling_state st \<noteq> PCAP_SESSION_RUNNING \<and>
         state (sess st i) \<noteq> PCAP_SESSION_STOPPED \<and> state (sess st i) \<noteq> PCAP_SESSION_ABORTING
      then pcapsession_change_state (int i) PCAP_SESSION_ABORT st else st)"

definition supervise_descriptor :: "os \<Rightarrow> nat \<Rightarrow> gstate \<Rightarrow> gstate" where
  "supervise_descriptor os i st =
     (if supervise_fd (sess st i) = PCAP_SESSION_SUPERVISED_FD \<and> fd (sess st i) > 2 then
        let (is_open, st) = iotests_fd_open os (fd (sess st i)) st in
        if \<not> is_open then pcapsession_change_state (int i) PCAP_SESSION_TERMINATE st else st
      else st)"

text \<open>The body of the loop over the sessions, with the running count of the sessions in use.\<close>

definition supervise_session :: "os \<Rightarrow> nat \<Rightarrow> nat \<times> gstate \<Rightarrow> nat \<times> gstate" where
  "supervise_session os i = (\<lambda>(sessioncount, st).
     if state (sess st i) = PCAP_SESSION_UNUSED then (sessioncount, st)
     else
       let st = supervise_abort i st;
           st = supervise_descriptor os i st;
           st = pcapsession_transition_session os i st
       in (sessioncount + 1,
           if state (sess st i) \<noteq> PCAP_SESSION_RUNNING then st else supervise_monitor os i st))"

definition supervision_pass :: "os \<Rightarrow> gstate \<Rightarrow> nat \<times> gstate" where
  "supervision_pass os st = fold (supervise_session os) [0..<PCAP_SESSION_MAX_SESSIONS] (0, st)"

fun supervision_loop :: "os \<Rightarrow> nat \<Rightarrow> gstate \<Rightarrow> gstate option" where
  "supervision_loop os 0 st = None"
| "supervision_loop os (Suc fuel) st =
     (let (sessioncount, st) = supervision_pass os st in
      if sessioncount = 0 \<and> session_handling_state st \<noteq> PCAP_SESSION_RUNNING
      then Some (st\<lparr>session_handling_state := PCAP_SESSION_STOPPED\<rparr>)
      else supervision_loop os fuel st)"

definition pcapsession_supervision_run :: "os \<Rightarrow> nat \<Rightarrow> gstate \<Rightarrow> gstate option" where
  "pcapsession_supervision_run os fuel st =
     supervision_loop os fuel (st\<lparr>session_handling_state := PCAP_SESSION_RUNNING\<rparr>)"

text \<open>
  The initialisation waits until the supervision thread has stored its first state. The thread is
  number \<open>PCAP_SESSION_MAX_SESSIONS\<close>, after those of the sessions.
\<close>

definition pcapsession_handling_init :: "os \<Rightarrow> gstate \<Rightarrow> int \<times> gstate" where
  "pcapsession_handling_init os st =
     (if session_handling_state st = PCAP_SESSION_STOPPED then
        let st = st\<lparr>session_handling_state := PCAP_SESSION_STARTING,
                    session_list := replicate PCAP_SESSION_MAX_SESSIONS zero_session\<rparr>;
            st = fold (\<lambda>i. pcapsession_change_state (int i) PCAP_SESSION_UNUSED)
                   [0..<PCAP_SESSION_MAX_SESSIONS] st;
            (rc, st) = ext os (Pthread_create PCAP_SESSION_MAX_SESSIONS) st in
        if rc \<noteq> 0 then (0, st) else (1, st\<lparr>session_handling_state := PCAP_SESSION_RUNNING\<rparr>)
      else (1, st))"

definition pcapsession_handling_close :: "gstate \<Rightarrow> gstate" where
  "pcapsession_handling_close st = st\<lparr>session_handling_state := PCAP_SESSION_TERMINATING\<rparr>"

section \<open>The life cycle, abstractly\<close>

text \<open>
  What one transition is to make of the state of a session, given whether its interval counter has run out and whether its kind
  is started again after it terminates: a session that is due to start is started, one that does not start in time is terminated,
  one that terminates is started again or released, one that is aborted, or whose termination does not end in time, is
  stopped and released, as the comments of \<open>pcapsession_transition_session\<close> and of the stop functions say.
\<close>

definition next_state :: "bool \<Rightarrow> bool \<Rightarrow> int \<Rightarrow> int" where
  "next_state expired again x =
     (if x = PCAP_SESSION_UNUSED \<or> x = PCAP_SESSION_STOPPED \<or> x = PCAP_SESSION_RUNNING then x
      else if x = PCAP_SESSION_START then PCAP_SESSION_STARTING
      else if x = PCAP_SESSION_STARTING then (if expired then PCAP_SESSION_TERMINATE else PCAP_SESSION_STARTING)
      else if x = PCAP_SESSION_TERMINATE then (if again then PCAP_SESSION_START else PCAP_SESSION_UNUSED)
      else if (x = PCAP_SESSION_TERMINATING \<or> x = PCAP_SESSION_ABORTING) \<and> \<not> expired then x
      else PCAP_SESSION_UNUSED)"

text \<open>
  What the code makes of it. It differs for a termination or an abort that has timed out: the state is set to stopped before the
  stop function is called, which then does not see that the session is aborting and orders a new start.
\<close>

definition transition_state :: "bool \<Rightarrow> bool \<Rightarrow> int \<Rightarrow> int" where
  "transition_state expired again x =
     (if x = 0 \<or> x = 1 \<or> x = 4 then x
      else if x = 2 then 3
      else if x = 3 then (if expired then 5 else 3)
      else if x = 6 then 0
      else if (x = 7 \<or> x = 8) \<and> \<not> expired then x
      else if again then 2 else 0)"

lemma transition_next_state:
  "x \<in> {0..8} \<Longrightarrow> \<not> (again \<and> expired \<and> x \<in> {7, 8}) \<Longrightarrow> transition_state expired again x = next_state expired again x"
  by (auto simp: transition_state_def next_state_def)

definition session_restarts :: "session \<Rightarrow> bool" where
  "session_restarts s \<longleftrightarrow> (\<exists>k. stopper s = Some k \<and> restarts k s)"

section \<open>Lemmas\<close>

lemma sessions_okD:
  assumes "sessions_ok st" "i < 128" "state (sess st i) \<noteq> 0"
  shows "tables_ok st" "sid (sess st i) = int i" "length (session_list st) = 128"
    "\<exists>k. stopper (sess st i) = Some k \<and> runner (sess st i) = Some k"
  using assms by (auto simp: sessions_ok_def session_ok_def tables_ok_def)

lemma sessions_ok_set:
  assumes "sessions_ok st" "i < 128" "session_ok i (f (sess st i)) \<or> state (f (sess st i)) = 0"
  shows "sessions_ok (set_sess i f st)"
  using assms by (auto simp: sessions_ok_def tables_ok_def sess_simps)

lemma sessions_ok_cong:
  assumes "session_list st' = session_list st" "clientconnlist st' = clientconnlist st"
  shows "sessions_ok st' = sessions_ok st"
  using assms by (simp add: sessions_ok_def tables_ok_def)

lemma sessions_ok_state:
  assumes "sessions_ok st" "i < 128" "state (sess st i) \<noteq> 0"
    "\<And>s. sid (f s) = sid s \<and> runner (f s) = runner s \<and> stopper (f s) = stopper s"
  shows "sessions_ok (set_sess i f st)"
  using assms by (intro sessions_ok_set) (auto simp: sessions_ok_def session_ok_def)

text \<open>
  \<open>only i st st'\<close>: the step from \<open>st\<close> to \<open>st'\<close> wrote at most session \<open>i\<close> and the entry of the client
  connection list with the same index, and kept the sessions well formed.
\<close>

definition only :: "nat \<Rightarrow> gstate \<Rightarrow> gstate \<Rightarrow> bool" where
  "only i st st' \<longleftrightarrow> sessions_ok st' \<and> session_handling_state st' = session_handling_state st \<and>
     (\<forall>j < 128. j \<noteq> i \<longrightarrow> sess st' j = sess st j \<and> clientconnlist st' ! j = clientconnlist st ! j)"

lemma only_trans: "only i st st' \<Longrightarrow> only i st' st'' \<Longrightarrow> only i st st''"
  by (simp add: only_def)

lemma only_refl: "sessions_ok st \<Longrightarrow> only i st st"
  by (simp add: only_def)

lemma only_set:
  assumes "sessions_ok st" "i < 128" "state (sess st i) \<noteq> 0"
    "\<And>s. sid (f s) = sid s \<and> runner (f s) = runner s \<and> stopper (f s) = stopper s"
  shows "only i st (set_sess i f st)"
  using assms sessions_ok_state [OF assms]
  by (auto simp: only_def sess_simps sessions_ok_def tables_ok_def)

lemma only_world:
  assumes "sessions_ok st" "session_list st' = session_list st" "clientconnlist st' = clientconnlist st"
    "session_handling_state st' = session_handling_state st"
  shows "only i st st'"
  using assms sessions_ok_cong [of st' st] by (simp add: only_def)

lemma set_sess_at [simp]:
  "sessions_ok st \<Longrightarrow> i < 128 \<Longrightarrow> sess (set_sess i f st) i = f (sess st i)"
  by (simp add: sess_simps sessions_ok_def tables_ok_def)

lemma thread_update_same: "thread s = 0 \<Longrightarrow> s\<lparr>thread := 0\<rparr> = s"
  by (cases s) simp

text \<open>Stopping a session: its thread is gone and its struct is what the stop function leaves.\<close>

lemma stop_session:
  assumes ok: "sessions_ok st" "i < 128" "state (sess st i) \<noteq> 0" and k: "stopper (sess st i) = Some k"
  shows "only i st (pcapsession_stop os i st)"
    and "sess (pcapsession_stop os i st) i =
      (let s = after_stop k ((sess st i)\<lparr>thread := 0\<rparr>) in if state s = 1 then s\<lparr>state := 0\<rparr> else s)"
    and "faults (pcapsession_stop os i st) = faults st"
    and "clientconnlist (pcapsession_stop os i st) =
      (if k = Clientconn then (clientconnlist st)[i := None] else clientconnlist st)"
proof -
  define st1 where "st1 = (if thread (sess st i) \<noteq> 0 then set_sess i (\<lambda>s. s\<lparr>thread := 0\<rparr>)
     (ext_do (Pthread_join (thread (sess st i))) (ext_do (Pthread_cancel (thread (sess st i))) st)) else st)"
  have len: "length (session_list st) = 128" using ok by (simp add: sessions_ok_def tables_ok_def)
  have s1: "session_list st1 = (session_list st)[i := (sess st i)\<lparr>thread := 0\<rparr>]"
    "clientconnlist st1 = clientconnlist st" "session_handling_state st1 = session_handling_state st"
    "faults st1 = faults st"
    by (simp_all add: st1_def set_sess_def ext_do_def thread_update_same)
  have n1: "sess st1 i = (sess st i)\<lparr>thread := 0\<rparr>" using s1 len ok by simp
  have ok1: "sessions_ok st1"
    using ok s1 by (auto simp: sessions_ok_def tables_ok_def session_ok_def nth_list_update)
  have i1: "sid (sess st1 i) = int i" "tables_ok st1"
    using sessions_okD [OF ok] ok1 n1 by (auto simp: sessions_ok_def)
  define st2 where "st2 = call_stopper k os (Some i) st1"
  have ok2: "sessions_ok st2" unfolding st2_def
    by (rule any_stopper.stop_sessions_ok) (use ok ok1 n1 in simp_all)
  have n2: "sess st2 j = (if i = j then after_stop k (sess st1 j) else sess st1 j)" if "j < 128" for j
    unfolding st2_def using any_stopper.stop_nth [OF i1(1) ok(2) i1(2) that] .
  have h2: "session_handling_state st2 = session_handling_state st" "faults st2 = faults st"
    unfolding st2_def using any_stopper.stop_handling [OF i1(1) ok(2) i1(2)]
      any_stopper.stop_faults [OF i1(1) ok(2) i1(2)] s1 by simp_all
  have cc: "clientconnlist st2 = (if k = Clientconn then (clientconnlist st)[i := None] else clientconnlist st)"
    unfolding st2_def using any_stopper.stop_conn [OF i1(1) ok(2) i1(2)] s1 by simp
  then have c2: "clientconnlist st2 ! j = clientconnlist st ! j" if "j \<noteq> i" for j using that by simp
  have o2: "only i st st2"
    using ok2 h2 n2 c2 s1 by (auto simp: only_def)
  have r: "pcapsession_stop os i st =
      (if state (sess st2 i) = 1 then set_sess i (\<lambda>s. s\<lparr>state := 0\<rparr>) st2 else st2)"
    unfolding pcapsession_stop_def Let_def st1_def [symmetric]
    using k n1 ok(2) by (simp add: st2_def [symmetric] change_state_eq)
  have "only i st2 (set_sess i (\<lambda>s. s\<lparr>state := 0\<rparr>) st2)" if "state (sess st2 i) = 1"
    using ok2 ok(2) that by (intro only_set) simp_all
  then show "only i st (pcapsession_stop os i st)" using r o2 only_trans by auto
  show "sess (pcapsession_stop os i st) i =
      (let s = after_stop k ((sess st i)\<lparr>thread := 0\<rparr>) in if state s = 1 then s\<lparr>state := 0\<rparr> else s)"
    using r n2 [OF ok(2)] n1 ok2 ok(2) by (simp add: Let_def)
  show "faults (pcapsession_stop os i st) = faults st" using r h2 by (simp add: sess_simps)
  show "clientconnlist (pcapsession_stop os i st) =
      (if k = Clientconn then (clientconnlist st)[i := None] else clientconnlist st)"
    using r cc by (simp add: sess_simps)
qed

lemma enter_state_props:
  assumes "sessions_ok st" "i < 128" "state (sess st i) \<noteq> 0" "x \<noteq> 0"
  shows "only i st (enter_state i x st)"
    and "sess (enter_state i x st) i = (sess st i)\<lparr>state := x, interval_counter := 0\<rparr>"
proof -
  have a: "only i st (set_sess i (\<lambda>s. s\<lparr>state := x\<rparr>) st)"
    using assms by (intro only_set) simp_all
  have b: "sess (set_sess i (\<lambda>s. s\<lparr>state := x\<rparr>) st) i = (sess st i)\<lparr>state := x\<rparr>"
    using assms by simp
  have ok: "sessions_ok (set_sess i (\<lambda>s. s\<lparr>state := x\<rparr>) st)" using a by (simp add: only_def)
  have "only i (set_sess i (\<lambda>s. s\<lparr>state := x\<rparr>) st) (enter_state i x st)"
    unfolding enter_state_def change_state_eq [OF assms(2)]
    by (rule only_set) (use ok assms b in simp_all)
  then show "only i st (enter_state i x st)" using a only_trans by blast
  show "sess (enter_state i x st) i = (sess st i)\<lparr>state := x, interval_counter := 0\<rparr>"
    unfolding enter_state_def change_state_eq [OF assms(2)] using ok assms b by simp
qed

lemma start_props:
  assumes "sessions_ok st" "i < 128" "state (sess st i) = 3"
  shows "only i st (snd (pcapsession_start os i st))"
    and "\<exists>t. sess (snd (pcapsession_start os i st)) i = (sess st i)\<lparr>thread := t\<rparr>"
    and "faults (snd (pcapsession_start os i st)) = faults st"
proof -
  let ?w = "snd (ext os (Pthread_create i) st)"
  let ?v = "snd (ext os (Pthread_id i) ?w)"
  have w: "only i st ?w" and v: "only i ?w ?v" "sess ?v i = sess st i" "sessions_ok ?v"
    using assms(1) sessions_ok_cong [of ?w st] sessions_ok_cong [of ?v st]
    by (auto intro!: only_world simp: ext_def)
  have s: "only i ?v (set_sess i (\<lambda>s. s\<lparr>thread := t\<rparr>) ?v)" for t
    using v assms by (intro only_set) simp_all
  have e: "\<exists>t. (sess st i) = (sess st i)\<lparr>thread := t\<rparr>"
    by (rule exI [of _ "thread (sess st i)"]) simp
  show "only i st (snd (pcapsession_start os i st))"
    using w v(1) s only_trans assms(1) only_refl
    by (auto simp: pcapsession_start_def Let_def split_def)
  show "\<exists>t. sess (snd (pcapsession_start os i st)) i = (sess st i)\<lparr>thread := t\<rparr>"
    using v e assms by (auto simp: pcapsession_start_def Let_def split_def ext_def)
  show "faults (snd (pcapsession_start os i st)) = faults st"
    by (simp add: pcapsession_start_def Let_def split_def ext_def sess_simps)
qed

text \<open>Stopping after a change to state \<open>x\<close>, as every terminating transition does.\<close>

lemma stop_after:
  assumes ok: "sessions_ok st" "i < 128" "state (sess st i) \<noteq> 0"
    and o: "only i st st'" and x: "state (sess st' i) = x" "x \<noteq> 0"
    and k: "stopper (sess st' i) = stopper (sess st i)" "iterations (sess st' i) = iterations (sess st i)"
  shows "only i st (pcapsession_stop os i st')"
    and "state (sess (pcapsession_stop os i st') i) =
      (if x = 8 \<or> \<not> session_restarts (sess st i) then 0 else 2)"
proof -
  have ok': "sessions_ok st'" "state (sess st' i) \<noteq> 0" using o x by (simp_all add: only_def)
  obtain kd where kd: "stopper (sess st' i) = Some kd" using sessions_okD(4) [OF ok] k by auto
  note p = stop_session [OF ok'(1) ok(2) ok'(2) kd, of os]
  show "only i st (pcapsession_stop os i st')" using p(1) o only_trans by blast
  show "state (sess (pcapsession_stop os i st') i) =
      (if x = 8 \<or> \<not> session_restarts (sess st i) then 0 else 2)"
    using p(2) x kd k by (auto simp: Let_def after_stop_state session_restarts_def restarts_def)
qed

lemma start_entering:
  assumes ok: "sessions_ok st" "i < 128" "state (sess st i) \<noteq> 0"
  shows "only i st (snd (pcapsession_start os i (enter_state i 3 st)))"
    and "state (sess (snd (pcapsession_start os i (enter_state i 3 st))) i) = 3"
proof -
  have o: "only i st (enter_state i 3 st)"
    and n: "sess (enter_state i 3 st) i = (sess st i)\<lparr>state := 3, interval_counter := 0\<rparr>"
    using enter_state_props [OF ok, of 3] by simp_all
  then have "sessions_ok (enter_state i 3 st)" "state (sess (enter_state i 3 st) i) = 3"
    by (simp_all add: only_def)
  note sp = start_props [OF this(1) ok(2) this(2), of os]
  show "only i st (snd (pcapsession_start os i (enter_state i 3 st)))"
    by (rule only_trans [OF o sp(1)])
  show "state (sess (snd (pcapsession_start os i (enter_state i 3 st))) i) = 3"
    using sp(2) n by auto
qed

lemma transition_props:
  assumes ok: "sessions_ok st" "i < 128" "state (sess st i) \<noteq> 0"
  shows "only i st (pcapsession_transition_session os i st)"
    and "state (sess (pcapsession_transition_session os i st) i) =
      transition_state (timed_out (sess st i)) (session_restarts (sess st i)) (state (sess st i))"
proof -
  let ?x = "state (sess st i)"
  have c1: "only i st (pcapsession_change_state (int i) y st)"
    "sess (pcapsession_change_state (int i) y st) i = (sess st i)\<lparr>state := y\<rparr>" for y
    unfolding change_state_eq [OF ok(2)] using ok by (auto intro!: only_set)
  have inc: "only i st (set_sess i (\<lambda>s. s\<lparr>interval_counter := interval_counter s + 1\<rparr>) st)"
    using ok by (intro only_set) simp_all
  have e: "only i st (enter_state i y st)"
    "sess (enter_state i y st) i = (sess st i)\<lparr>state := y, interval_counter := 0\<rparr>" if "y \<noteq> 0" for y
    using enter_state_props [OF ok that] .
  note e3 = start_entering [OF ok, of os]
  have st7: "only i st (pcapsession_stop os i (enter_state i 7 st))"
    "state (sess (pcapsession_stop os i (enter_state i 7 st)) i) = (if session_restarts (sess st i) then 2 else 0)"
    using stop_after [OF ok e(1) [of 7], of 7 os] e(2) [of 7] by simp_all
  have st8: "only i st (pcapsession_stop os i (enter_state i 8 st))"
    "state (sess (pcapsession_stop os i (enter_state i 8 st)) i) = 0"
    using stop_after [OF ok e(1) [of 8], of 8 os] e(2) [of 8] by simp_all
  have st1: "only i st (pcapsession_stop os i (pcapsession_change_state (int i) 1 st))"
    "state (sess (pcapsession_stop os i (pcapsession_change_state (int i) 1 st)) i) =
      (if session_restarts (sess st i) then 2 else 0)"
    using stop_after [OF ok c1(1) [of 1], of 1 os] c1(2) [of 1] by simp_all
  show "only i st (pcapsession_transition_session os i st)"
    using c1(1) [of 5] inc e3 st7 st8 st1 only_refl [OF ok(1)]
    by (simp add: pcapsession_transition_session_def Let_def)
  show "state (sess (pcapsession_transition_session os i st) i) =
      transition_state (timed_out (sess st i)) (session_restarts (sess st i)) ?x"
    using c1(2) [of 5] e3 st7 st8 st1 ok
    by (auto simp: pcapsession_transition_session_def Let_def transition_state_def)
qed

lemma supervise_monitor_props:
  assumes ok: "sessions_ok st" "i < 128" "state (sess st i) \<noteq> 0"
  shows "only i st (supervise_monitor os i st) \<and>
    (\<exists>m. sess (supervise_monitor os i st) i = (sess st i)\<lparr>mon := m\<rparr>)"
proof (cases "mon (sess st i)")
  case None
  then have "supervise_monitor os i st = st" by (simp add: supervise_monitor_def)
  moreover have "sess st i = (sess st i)\<lparr>mon := mon (sess st i)\<rparr>" by simp
  ultimately show ?thesis using only_refl [OF ok(1)] by metis
next
  case (Some m)
  define st1 where "st1 = snd (ext os Time (if pcap_dumper (sess st i) \<noteq> 0 \<and> bytes m = 0
     then ext_do (Pcap_dump_flush (pcap_dumper (sess st i))) st else st))"
  define now where "now = fst (ext os Time (if pcap_dumper (sess st i) \<noteq> 0 \<and> bytes m = 0
     then ext_do (Pcap_dump_flush (pcap_dumper (sess st i))) st else st))"
  have l: "session_list st1 = session_list st" "clientconnlist st1 = clientconnlist st"
    "session_handling_state st1 = session_handling_state st"
    by (auto simp: st1_def ext_def sess_simps)
  have eq: "supervise_monitor os i st = (case handle_monitor F_pcapsession now m (clocks st1) of
      Inl f \<Rightarrow> fault_at f st1
    | Inr (m', c', _) \<Rightarrow> (set_sess i (\<lambda>s. s\<lparr>mon := Some m'\<rparr>) st1)\<lparr>clocks := c'\<rparr>)"
    unfolding st1_def now_def using Some
    by (cases "pcap_dumper (sess st i) \<noteq> 0 \<and> bytes m = 0")
      (simp_all add: supervise_monitor_def Let_def split_def ext_do_frame)
  have ok1: "sessions_ok st1" using sessions_ok_cong [OF l(1,2)] ok by simp
  have "only i st1 (set_sess i (\<lambda>s. s\<lparr>mon := Some m'\<rparr>) st1)" for m'
    using ok1 ok l by (intro only_set) simp_all
  then have o: "only i st (set_sess i (\<lambda>s. s\<lparr>mon := Some m'\<rparr>) st1)" for m'
    using only_trans only_world [OF ok(1) l] by blast
  have "only i st (supervise_monitor os i st)"
  proof (cases "handle_monitor F_pcapsession now m (clocks st1)")
    case (Inl f)
    then show ?thesis using eq l ok by (auto intro!: only_world simp: sess_simps)
  next
    case (Inr r)
    obtain m' c' x where r: "r = (m', c', x)" by (cases r) auto
    let ?st = "set_sess i (\<lambda>s. s\<lparr>mon := Some m'\<rparr>) st1"
    have "only i ?st (?st\<lparr>clocks := c'\<rparr>)"
      using o [of m'] by (intro only_world) (simp_all add: only_def)
    then show ?thesis using eq Inr r o [of m'] only_trans by auto
  qed
  moreover have "\<exists>m. sess st i = (sess st i)\<lparr>mon := m\<rparr>"
    by (rule exI [of _ "mon (sess st i)"]) simp
  then have "\<exists>m. sess (supervise_monitor os i st) i = (sess st i)\<lparr>mon := m\<rparr>"
    using eq l ok1 ok(2) by (auto split: sum.splits prod.splits simp: sess_simps)
  ultimately show ?thesis ..
qed

lemma supervise_abort_props:
  assumes ok: "sessions_ok st" "i < 128" "state (sess st i) \<noteq> 0"
  shows "only i st (supervise_abort i st)"
    and "sess (supervise_abort i st) i = (sess st i)\<lparr>state :=
      (if session_handling_state st \<noteq> 4 \<and> state (sess st i) \<noteq> 1 \<and> state (sess st i) \<noteq> 8
       then 6 else state (sess st i))\<rparr>"
proof -
  have "only i st (set_sess i (\<lambda>s. s\<lparr>state := 6\<rparr>) st)" using ok by (intro only_set) simp_all
  then show "only i st (supervise_abort i st)"
    using ok only_refl by (simp add: supervise_abort_def change_state_eq)
  show "sess (supervise_abort i st) i = (sess st i)\<lparr>state :=
      (if session_handling_state st \<noteq> 4 \<and> state (sess st i) \<noteq> 1 \<and> state (sess st i) \<noteq> 8
       then 6 else state (sess st i))\<rparr>"
    using ok by (simp add: supervise_abort_def change_state_eq)
qed

definition fd_lost :: "os \<Rightarrow> gstate \<Rightarrow> nat \<Rightarrow> bool" where
  "fd_lost os st i \<longleftrightarrow> supervise_fd (sess st i) = 1 \<and> fd (sess st i) > 2 \<and>
     os (hist st) (Poll (fd (sess st i))) \<noteq> 0"

lemma supervise_descriptor_props:
  assumes ok: "sessions_ok st" "i < 128" "state (sess st i) \<noteq> 0"
  shows "only i st (supervise_descriptor os i st)"
    and "sess (supervise_descriptor os i st) i =
      (sess st i)\<lparr>state := (if fd_lost os st i then 5 else state (sess st i))\<rparr>"
proof -
  let ?w = "st\<lparr>hist := Poll (fd (sess st i)) # hist st\<rparr>"
  have w: "only i st ?w" "sessions_ok ?w"
    using ok sessions_ok_cong [of ?w st] by (auto intro!: only_world)
  have "only i ?w (set_sess i (\<lambda>s. s\<lparr>state := 5\<rparr>) ?w)" using ok w by (intro only_set) simp_all
  then have o: "only i st (set_sess i (\<lambda>s. s\<lparr>state := 5\<rparr>) ?w)" using w only_trans by blast
  show "only i st (supervise_descriptor os i st)"
    using ok o w only_refl
    by (simp add: supervise_descriptor_def ext_simps Let_def change_state_eq)
  show "sess (supervise_descriptor os i st) i =
      (sess st i)\<lparr>state := (if fd_lost os st i then 5 else state (sess st i))\<rparr>"
    using ok w by (simp add: supervise_descriptor_def ext_simps Let_def change_state_eq fd_lost_def)
qed

text \<open>The state of a session before the transition of a supervision round.\<close>

definition ordered_state :: "os \<Rightarrow> gstate \<Rightarrow> nat \<Rightarrow> int" where
  "ordered_state os st i =
     (if fd_lost os st i then 5
      else if session_handling_state st \<noteq> 4 \<and> state (sess st i) \<noteq> 1 \<and> state (sess st i) \<noteq> 8 then 6
      else state (sess st i))"

lemma ordered_state_pos: "state (sess st i) \<noteq> 0 \<Longrightarrow> ordered_state os st i \<noteq> 0"
  by (simp add: ordered_state_def)

lemma supervise_orders:
  fixes os :: os
  assumes ok: "sessions_ok st" "i < 128" "state (sess st i) \<noteq> 0"
  defines "st' \<equiv> supervise_descriptor os i (supervise_abort i st)"
  shows "only i st st'" and "sess st' i = (sess st i)\<lparr>state := ordered_state os st i\<rparr>"
proof -
  note a = supervise_abort_props [OF ok]
  have ok1: "sessions_ok (supervise_abort i st)" "state (sess (supervise_abort i st) i) \<noteq> 0"
    using a ok by (auto simp: only_def)
  have l: "fd_lost os (supervise_abort i st) i = fd_lost os st i"
    using a(2) by (simp add: fd_lost_def supervise_abort_def pcapsession_change_state_def sess_simps)
  note d = supervise_descriptor_props [OF ok1(1) ok(2) ok1(2), of os]
  show "only i st st'" unfolding st'_def using a(1) d(1) only_trans by blast
  show "sess st' i = (sess st i)\<lparr>state := ordered_state os st i\<rparr>"
    unfolding st'_def d(2) l using a(2) by (simp add: ordered_state_def)
qed

lemma supervise_session_props:
  assumes ok: "sessions_ok st" "i < 128" "state (sess st i) \<noteq> 0"
  shows "\<exists>st'. supervise_session os i (c, st) = (c + 1, st') \<and> only i st st' \<and>
    state (sess st' i) = transition_state (timed_out (sess st i)) (session_restarts (sess st i)) (ordered_state os st i)"
proof -
  define st1 where "st1 = supervise_descriptor os i (supervise_abort i st)"
  note o = supervise_orders [OF ok, of os, folded st1_def]
  have ok1: "sessions_ok st1" "state (sess st1 i) \<noteq> 0"
    using o ordered_state_pos [OF ok(3)] by (simp_all add: only_def)
  define st2 where "st2 = pcapsession_transition_session os i st1"
  note t = transition_props [OF ok1(1) ok(2) ok1(2), of os, folded st2_def]
  have o2: "only i st st2" "sessions_ok st2" using o(1) t(1) only_trans by (blast, simp add: only_def)
  have x: "state (sess st2 i) =
      transition_state (timed_out (sess st i)) (session_restarts (sess st i)) (ordered_state os st i)"
    using t(2) o(2) by (simp add: timed_out_def session_restarts_def restarts_def)
  have e: "supervise_session os i (c, st) =
      (c + 1, if state (sess st2 i) \<noteq> 4 then st2 else supervise_monitor os i st2)"
    using ok by (simp add: supervise_session_def Let_def st1_def st2_def)
  show ?thesis
  proof (cases "state (sess st2 i) = 4")
    case False
    then show ?thesis using e o2 x by simp
  next
    case True
    then have nz: "state (sess st2 i) \<noteq> 0" by simp
    note m = supervise_monitor_props [OF o2(2) ok(2) nz, of os]
    have "state (sess (supervise_monitor os i st2) i) = state (sess st2 i)" using m by auto
    then show ?thesis using e True x only_trans [OF o2(1) conjunct1 [OF m]] by simp
  qed
qed

lemma supervise_session_unused: "state (sess st i) = 0 \<Longrightarrow> supervise_session os i (c, st) = (c, st)"
  by (simp add: supervise_session_def)

text \<open>A whole round, session by session: it keeps the sessions well formed.\<close>

lemma fold_supervise_ok:
  assumes "sessions_ok st" "\<forall>i \<in> set is. i < 128"
  shows "\<exists>c' st'. fold (supervise_session os) is (c, st) = (c', st') \<and> c \<le> c' \<and> sessions_ok st' \<and>
    session_handling_state st' = session_handling_state st \<and>
    (\<forall>j < 128. j \<notin> set is \<longrightarrow> sess st' j = sess st j)"
  using assms
proof (induction "is" arbitrary: c st)
  case Nil
  then show ?case by simp
next
  case (Cons i "is")
  obtain st1 c1 where s1: "supervise_session os i (c, st) = (c1, st1)" "c \<le> c1" "only i st st1"
    using supervise_session_props [of st i os c] supervise_session_unused [of st i os c] Cons.prems
      only_refl [of st i] by (cases "state (sess st i) = 0") auto
  then have "sessions_ok st1" by (simp add: only_def)
  from Cons.IH [OF this, of c1] Cons.prems(2) s1 show ?case by (auto simp: only_def)
qed

text \<open>A round over sessions that are all to be aborted and whose descriptors are in order.\<close>

definition no_fd_lost :: "os \<Rightarrow> session \<Rightarrow> bool" where
  "no_fd_lost os s \<longleftrightarrow> (supervise_fd s = 1 \<and> fd s > 2 \<longrightarrow> (\<forall>h. os h (Poll (fd s)) = 0))"

lemma fold_supervise_shutdown:
  assumes "sessions_ok st" "session_handling_state st \<noteq> 4" "distinct is" "\<forall>i \<in> set is. i < 128"
    and "\<forall>i \<in> set is. state (sess st i) \<noteq> 1 \<and> state (sess st i) \<noteq> 8 \<and> no_fd_lost os (sess st i)"
  shows "\<forall>i \<in> set is. state (sess (snd (fold (supervise_session os) is (c, st))) i) = 0"
  using assms
proof (induction "is" arbitrary: c st)
  case Nil
  then show ?case by simp
next
  case (Cons i "is")
  have il: "i < 128" using Cons.prems by simp
  obtain st1 c1 where s1: "supervise_session os i (c, st) = (c1, st1)" "only i st st1" "state (sess st1 i) = 0"
  proof (cases "state (sess st i) = 0")
    case True
    then show ?thesis using that [of c st] Cons.prems supervise_session_unused [OF True] only_refl by simp
  next
    case False
    have "ordered_state os st i = 6"
      using Cons.prems False by (simp add: ordered_state_def fd_lost_def no_fd_lost_def)
    then show ?thesis using that supervise_session_props [OF Cons.prems(1) il False, of os c]
      by (auto simp: transition_state_def)
  qed
  have same: "sess st1 j = sess st j" if "j \<in> set is" for j
    using s1(2) that Cons.prems(3,4) by (auto simp: only_def)
  have ok1: "sessions_ok st1" "session_handling_state st1 \<noteq> 4"
    using s1(2) Cons.prems by (auto simp: only_def)
  have rest: "\<forall>j \<in> set is. state (sess (snd (fold (supervise_session os) is (c1, st1))) j) = 0"
    by (rule Cons.IH [OF ok1]) (use Cons.prems same in auto)
  obtain c2 st2 where f: "fold (supervise_session os) is (c1, st1) = (c2, st2)"
      "\<forall>j < 128. j \<notin> set is \<longrightarrow> sess st2 j = sess st1 j"
    using fold_supervise_ok [OF ok1(1), of "is" os c1] Cons.prems(4) by auto
  have "state (sess st2 i) = 0" using f(2) s1(3) il Cons.prems(3) by simp
  then show ?case using rest f(1) s1(1) by simp
qed

lemma fold_supervise_idle:
  assumes "\<forall>i \<in> set is. state (sess st i) = 0"
  shows "fold (supervise_session os) is (c, st) = (c, st)"
  using assms by (induction "is") (simp_all add: supervise_session_unused)

lemma supervision_pass_ok:
  assumes "sessions_ok st"
  shows "sessions_ok (snd (supervision_pass os st)) \<and>
    session_handling_state (snd (supervision_pass os st)) = session_handling_state st"
proof -
  obtain c' st' where "supervision_pass os st = (c', st')" "sessions_ok st'"
      "session_handling_state st' = session_handling_state st"
    using fold_supervise_ok [OF assms, of "[0..<128]" os 0] by (auto simp: supervision_pass_def)
  then show ?thesis by simp
qed

text \<open>A capture session whose descriptor is gone while the struct still names it.\<close>

definition stale_capture :: "os \<Rightarrow> gstate \<Rightarrow> nat \<Rightarrow> bool" where
  "stale_capture os st i \<longleftrightarrow> sessions_ok st \<and> i < 128 \<and> state (sess st i) \<notin> {0, 1} \<and>
     (stopper (sess st i) = Some Livecapture \<or>
      stopper (sess st i) = Some Filecapture \<and> iterations (sess st i) \<noteq> 0) \<and>
     supervise_fd (sess st i) = 1 \<and> fd (sess st i) > 2 \<and> (\<forall>h. os h (Poll (fd (sess st i))) \<noteq> 0)"

lemma transition_stale:
  assumes ok: "sessions_ok st" "i < 128" and k: "stopper (sess st i) = Some k"
    and x: "state (sess st i) = 5" and kd: "k = Livecapture \<or> k = Filecapture \<and> iterations (sess st i) \<noteq> 0"
  shows "let s = sess (pcapsession_transition_session os i st) i in state s = 2 \<and> stopper s = Some k \<and>
    supervise_fd s = supervise_fd (sess st i) \<and> fd s = fd (sess st i) \<and> iterations s = iterations (sess st i)"
proof -
  have nz: "state (sess st i) \<noteq> 0" using x by simp
  note e = enter_state_props [OF ok nz, of 7, simplified]
  have ok7: "sessions_ok (enter_state i 7 st)" "state (sess (enter_state i 7 st) i) \<noteq> 0"
    "stopper (sess (enter_state i 7 st) i) = Some k"
    using e k by (simp_all add: only_def)
  have t: "pcapsession_transition_session os i st = pcapsession_stop os i (enter_state i 7 st)"
    using x by (simp add: pcapsession_transition_session_def)
  show ?thesis
    unfolding t stop_session(2) [OF ok7(1) ok(2) ok7(2,3)] using kd k e(2)
    by (auto simp: Let_def after_stop_def)
qed

lemma supervise_stale:
  assumes st: "stale_capture os st i"
  shows "\<exists>st'. supervise_session os i (c, st) = (c + 1, st') \<and> stale_capture os st' i \<and>
    session_handling_state st' = session_handling_state st"
proof -
  have ok: "sessions_ok st" "i < 128" "state (sess st i) \<noteq> 0" using st by (auto simp: stale_capture_def)
  obtain k where k: "stopper (sess st i) = Some k"
      "k = Livecapture \<or> k = Filecapture \<and> iterations (sess st i) \<noteq> 0"
    using st by (auto simp: stale_capture_def)
  define st1 where "st1 = supervise_descriptor os i (supervise_abort i st)"
  note o = supervise_orders [OF ok, of os, folded st1_def]
  have "fd_lost os st i" using st by (simp add: stale_capture_def fd_lost_def)
  then have s1: "sess st1 i = (sess st i)\<lparr>state := 5\<rparr>" using o(2) by (simp add: ordered_state_def)
  have ok1: "sessions_ok st1" using o(1) by (simp add: only_def)
  define st2 where "st2 = pcapsession_transition_session os i st1"
  have t: "state (sess st2 i) = 2" "stopper (sess st2 i) = Some k" "supervise_fd (sess st2 i) = 1"
    "fd (sess st2 i) = fd (sess st i)" "iterations (sess st2 i) = iterations (sess st i)"
    using transition_stale [OF ok1 ok(2), of k os] s1 k st
    by (auto simp: Let_def st2_def stale_capture_def)
  have o2: "only i st1 st2"
    unfolding st2_def by (rule transition_props) (use ok1 ok s1 in simp_all)
  then have "sessions_ok st2" "session_handling_state st2 = session_handling_state st"
    using o(1) by (simp_all add: only_def)
  moreover have "supervise_session os i (c, st) = (c + 1, st2)"
    using ok t(1) by (simp add: supervise_session_def Let_def st1_def [symmetric] st2_def [symmetric])
  ultimately show ?thesis using t k st by (auto simp: stale_capture_def)
qed

lemma stale_pass:
  assumes "stale_capture os st i"
  shows "stale_capture os (snd (supervision_pass os st)) i \<and> 0 < fst (supervision_pass os st)"
proof -
  have i: "i < 128" and ok: "sessions_ok st" using assms by (simp_all add: stale_capture_def)
  have split: "[0..<128] = [0..<i] @ i # [Suc i..<128]"
    using i upt_add_eq_append [of 0 i "128 - i"] upt_conv_Cons [of i 128] by simp
  obtain c1 st1 where f1: "fold (supervise_session os) [0..<i] (0, st) = (c1, st1)" "sessions_ok st1"
      "\<forall>j < 128. j \<notin> set [0..<i] \<longrightarrow> sess st1 j = sess st j"
    using fold_supervise_ok [OF ok, of "[0..<i]" os 0] i by auto
  have s1: "stale_capture os st1 i" using f1 assms i by (simp add: stale_capture_def)
  obtain st2 where f2: "supervise_session os i (c1, st1) = (c1 + 1, st2)" "stale_capture os st2 i"
    using supervise_stale [OF s1] by blast
  have ok2: "sessions_ok st2" using f2 by (simp add: stale_capture_def)
  obtain c3 st3 where f3: "fold (supervise_session os) [Suc i..<128] (Suc c1, st2) = (c3, st3)"
      "Suc c1 \<le> c3" "sessions_ok st3" "\<forall>j < 128. j \<notin> set [Suc i..<128] \<longrightarrow> sess st3 j = sess st2 j"
    using fold_supervise_ok [OF ok2, of "[Suc i..<128]" os "Suc c1"] by auto
  have "supervision_pass os st = (c3, st3)"
    unfolding supervision_pass_def split by (simp add: f1 f2 f3)
  then show ?thesis using f2(2) f3 i by (simp add: stale_capture_def)
qed

section \<open>Properties\<close>

text \<open>
  C8: the life cycle. For a session in one of the states of a session in use, and not in a termination or abort that has
  timed out, one transition moves its state as the abstract life cycle \<open>next_state\<close> says: start leads to starting, starting to terminate once the counter has run
  out, terminate to a new start or to unused depending on the kind of session, abort to unused in one
  step; it writes no other session and keeps the sessions well formed. The same holds for a termination or abort
  that has timed out if the kind of the session is not started again.
\<close>

theorem transition_refines_lifecycle:
  assumes "sessions_ok st" and "i < 128" and "state (sess st i) \<in> {1..8}"
    and "\<not> (session_restarts (sess st i) \<and> timed_out (sess st i) \<and> state (sess st i) \<in> {7, 8})"
  shows "state (sess (pcapsession_transition_session os i st) i) =
      next_state (timed_out (sess st i)) (session_restarts (sess st i)) (state (sess st i)) \<and>
    sessions_ok (pcapsession_transition_session os i st) \<and>
    (\<forall>j < 128. j \<noteq> i \<longrightarrow> sess (pcapsession_transition_session os i st) j = sess st j)"
proof -
  have "state (sess st i) \<noteq> 0" using assms(3) by simp
  then show ?thesis
    using transition_props [OF assms(1,2)] transition_next_state assms(3,4) by (simp add: only_def)
qed

text \<open>The exception: a session of a kind that is started again is not stopped by a termination or abort that has timed out.\<close>

lemma timeout_restarts:
  assumes "sessions_ok st" and "i < 128" and "state (sess st i) \<in> {7, 8}" and "timed_out (sess st i)"
    and "session_restarts (sess st i)"
  shows "state (sess (pcapsession_transition_session os i st) i) = PCAP_SESSION_START"
  using transition_props(2) [OF assms(1,2)] assms(3-5) by (auto simp: transition_state_def)

text \<open>A state with one session of the given kind in slot 0.\<close>

definition one_session :: "session_kind \<Rightarrow> int \<Rightarrow> int \<Rightarrow> gstate" where
  "one_session k x f = (set_sess 0 (\<lambda>s. s\<lparr>state := x, runner := Some k, stopper := Some k, fd := f,
     supervise_fd := 1\<rparr>) init_gstate)\<lparr>session_handling_state := 7\<rparr>"

lemma one_session_ok: "sessions_ok (one_session k x f)"
  by (auto simp: one_session_def sessions_ok_def tables_ok_def session_ok_def set_sess_def
      init_gstate_def zero_session_def nth_list_update)

lemma one_session_0:
  "sess (one_session k x f) 0 = zero_session\<lparr>state := x, runner := Some k, stopper := Some k, fd := f,
     supervise_fd := 1\<rparr>"
  by (simp add: one_session_def set_sess_def init_gstate_def)

theorem transition_refines_lifecycle_witness:
  "state (sess (pcapsession_transition_session quiet_os 0 (one_session Merger 5 7)) 0) = 2"
  using transition_refines_lifecycle [OF one_session_ok, of 0 Merger 5 7 quiet_os]
  by (simp add: one_session_0 next_state_def session_restarts_def restarts_def)

text \<open>
  Graceful shutdown: once session handling is told to terminate, with no session half way through
  its allocation or abortion and every supervised descriptor still open, the supervision thread ends
  within two rounds: session handling is stopped and every session is unused again.
\<close>

lemma shutdown_completes:
  assumes "sessions_ok st" and "session_handling_state st \<noteq> 4"
    and "\<forall>i < 128. state (sess st i) \<noteq> 1 \<and> state (sess st i) \<noteq> 8 \<and> no_fd_lost os (sess st i)"
  shows "\<exists>st'. supervision_loop os (Suc (Suc n)) st = Some st' \<and> session_handling_state st' = 1 \<and>
    (\<forall>i < 128. state (sess st' i) = 0)"
proof -
  obtain c1 st1 where p: "supervision_pass os st = (c1, st1)" by fastforce
  have idle: "\<forall>i < 128. state (sess st1 i) = 0"
    using fold_supervise_shutdown [OF assms(1,2), of "[0..<128]" os 0] assms(3) p
    by (simp add: supervision_pass_def)
  have h: "session_handling_state st1 \<noteq> 4" using supervision_pass_ok [OF assms(1), of os] p assms(2) by simp
  have p2: "supervision_pass os st1 = (0, st1)"
    unfolding supervision_pass_def by (rule fold_supervise_idle) (use idle in simp)
  show ?thesis using p p2 h idle by (cases "c1 = 0") simp_all
qed

text \<open>
  C38: shutdown can hang. A capture session (live, or from files with iterations left) whose supervised
  descriptor is closed while its struct still names it is never released: every round finds the
  descriptor closed after it has ordered the abort, replaces the abort by a termination, and the stop
  function, which does not clear the descriptor, orders a restart. The supervision loop then never ends,
  whatever the number of rounds and also while session handling is terminating.
\<close>

theorem shutdown_hangs:
  assumes "stale_capture os st i"
  shows "supervision_loop os fuel st = None"
  using assms
proof (induction fuel arbitrary: st)
  case 0
  then show ?case by simp
next
  case (Suc fuel)
  then show ?case using stale_pass [OF Suc.prems] by (simp add: split_def Let_def)
qed

definition closed_os :: os where
  "closed_os h c = (case c of Poll _ \<Rightarrow> 1 | _ \<Rightarrow> 0)"

theorem shutdown_hangs_witness:
  "session_handling_state (one_session Livecapture 5 7) = 7 \<and>
   supervision_loop closed_os 100 (one_session Livecapture 5 7) = None"
proof -
  have "stale_capture closed_os (one_session Livecapture 5 7) 0"
    using one_session_ok by (simp add: stale_capture_def one_session_0 closed_os_def)
  then show ?thesis using shutdown_hangs [of closed_os "one_session Livecapture 5 7" 0 100]
    by (simp add: one_session_def)
qed

lemma starting_counts:
  assumes "sessions_ok st" "i < 128" "state (sess st i) = 3" "interval_counter (sess st i) + int n \<le> 10"
  shows "sessions_ok ((pcapsession_transition_session os i ^^ n) st) \<and>
    sess ((pcapsession_transition_session os i ^^ n) st) i =
      (sess st i)\<lparr>interval_counter := interval_counter (sess st i) + int n\<rparr>"
  using assms(4)
proof (induction n)
  case 0
  then show ?case using assms by simp
next
  case (Suc n)
  define st' where "st' = (pcapsession_transition_session os i ^^ n) st"
  have IH: "sessions_ok st'" "sess st' i = (sess st i)\<lparr>interval_counter := interval_counter (sess st i) + int n\<rparr>"
    using Suc by (simp_all add: st'_def)
  have t: "pcapsession_transition_session os i st' =
      set_sess i (\<lambda>s. s\<lparr>interval_counter := interval_counter s + 1\<rparr>) st'"
    using IH assms(3) Suc.prems by (simp add: pcapsession_transition_session_def timed_out_def Let_def)
  have nz: "state (sess st' i) \<noteq> 0" using IH assms(3) by simp
  have "sessions_ok (pcapsession_transition_session os i st')"
    using transition_props(1) [OF IH(1) assms(2) nz] by (simp add: only_def)
  then show ?case using IH t assms(2) by (simp add: st'_def [symmetric])
qed

text \<open>
  Start supervision: a session that has entered the starting state and whose thread never reports
  is left starting for ten more rounds of transitions and ordered to terminate by the eleventh.
\<close>

lemma start_times_out:
  assumes "sessions_ok st" and "i < 128" and "state (sess st i) = 3" and "interval_counter (sess st i) = 0"
  shows "(\<forall>n \<le> 10. state (sess ((pcapsession_transition_session os i ^^ n) st) i) = 3) \<and>
    state (sess ((pcapsession_transition_session os i ^^ 11) st) i) = 5"
proof -
  have c: "sessions_ok ((pcapsession_transition_session os i ^^ n) st)"
    "sess ((pcapsession_transition_session os i ^^ n) st) i = (sess st i)\<lparr>interval_counter := int n\<rparr>"
    if "n \<le> 10" for n
    using starting_counts [OF assms(1-3), of n os] that assms(4) by simp_all
  define st' where "st' = (pcapsession_transition_session os i ^^ 10) st"
  have s: "sess st' i = (sess st i)\<lparr>interval_counter := 10\<rparr>" "sessions_ok st'"
    using c [of 10] by (simp_all add: st'_def)
  have "state (sess (pcapsession_transition_session os i st') i) = 5"
    using transition_props(2) [OF s(2) assms(2)] s(1) assms(3) by (simp add: transition_state_def timed_out_def)
  moreover have "(pcapsession_transition_session os i ^^ 11) st = pcapsession_transition_session os i st'"
    by (simp add: st'_def eval_nat_numeral)
  ultimately show ?thesis using c assms(3) by simp
qed

end
