(* ===== verification/Session_Open.thy ===== *)
theory Session_Open
  imports Session_Stop
begin

text \<open>
  The functions that open a session of each of the six kinds: they allocate a session, fill in its
  struct, acquire what the kind needs (a listening socket, a capture handle) and hand the session to
  session handling, which will start it. All six keep one contract, the locale \<open>session_opener\<close>.
\<close>

section \<open>The open functions\<close>

definition pcapsession_server_open :: "os \<Rightarrow> int \<Rightarrow> gstate \<Rightarrow> int \<times> gstate" where
  "pcapsession_server_open os port st =
     (case pcapsession_handling_get_new st of
        (None, st) \<Rightarrow> (0, st)
      | (Some i, st) \<Rightarrow>
          let st = set_sess i (\<lambda>s. s\<lparr>runner := Some Server, stopper := Some Server, mon := None,
                pcap_handle := 0, pcap_dumper := 0, handler := None,
                untunnel := PCAP_SESSION_UNTUNNEL_OFF, iterations := 0\<rparr>) st;
              ((f, addr), st) = open_server_socket os port (address (sess st i)) (Some 200) st;
              st = set_sess i (\<lambda>s. s\<lparr>fd := f, address := addr\<rparr>) st in
          if fd (sess st i) < 0 then
            let st = set_sess i (\<lambda>s. s\<lparr>fd := 0\<rparr>) st
            in (0, pcapsession_change_state (sid (sess st i)) PCAP_SESSION_UNUSED st)
          else
            let st = set_sess i (\<lambda>s. s\<lparr>supervise_fd := PCAP_SESSION_UNSUPERVISED_FD\<rparr>) st;
                st = set_description i (show_address (address (sess st i))) st
            in pcapsession_handling_add (sid (sess st i)) st)"

text \<open>The first client connection clears the list of client connections.\<close>

definition init_clientconnlist :: "gstate \<Rightarrow> gstate" where
  "init_clientconnlist st =
     (if clientconnlist_initialized st then st
      else st\<lparr>clientconnlist := replicate PCAP_SESSION_MAX_SESSIONS None,
              clientconnlist_initialized := True\<rparr>)"

definition pcapsession_clientconn_open :: "int \<Rightarrow> sockaddr_in \<Rightarrow> gstate \<Rightarrow> int \<times> gstate" where
  "pcapsession_clientconn_open client_socket_fd client_address st =
     (case pcapsession_handling_get_new (init_clientconnlist st) of
        (None, st) \<Rightarrow> (0, st)
      | (Some i, st) \<Rightarrow>
          let st = set_sess i (\<lambda>s. s\<lparr>runner := Some Clientconn, stopper := Some Clientconn,
                fd := client_socket_fd, supervise_fd := PCAP_SESSION_SUPERVISED_FD,
                address := client_address\<rparr>) st;
              st = set_description i (show_address (address (sess st i))) st;
              st = set_sess i (\<lambda>s. s\<lparr>mon := None, pcap_handle := 0, pcap_dumper := 0,
                handler := None, untunnel := PCAP_SESSION_UNTUNNEL_OFF, iterations := 0\<rparr>) st
          in pcapsession_handling_add (sid (sess st i)) st)"

definition pcapsession_livecapture_open :: "os \<Rightarrow> string \<Rightarrow> gstate \<Rightarrow> int \<times> gstate" where
  "pcapsession_livecapture_open os interface_name st =
     (case pcapsession_handling_get_new st of
        (None, st) \<Rightarrow> (0, st)
      | (Some i, st) \<Rightarrow>
          let st = set_sess i (\<lambda>s. s\<lparr>runner := Some Livecapture, stopper := Some Livecapture\<rparr>) st;
              st = set_description i interface_name st;
              (h, st) = ext os (Pcap_open_live (description (sess st i))) st;
              st = set_sess i (\<lambda>s. s\<lparr>pcap_handle := h\<rparr>) st in
          if pcap_handle (sess st i) = 0 then
            (0, pcapsession_change_state (sid (sess st i)) PCAP_SESSION_UNUSED st)
          else
            let (f, st) = ext os (Pcap_get_selectable_fd (pcap_handle (sess st i))) st;
                st = set_sess i (\<lambda>s. s\<lparr>fd := f, supervise_fd := PCAP_SESSION_SUPERVISED_FD, mon := None,
                  pcap_dumper := 0, handler := None, untunnel := PCAP_SESSION_UNTUNNEL_OFF,
                  iterations := 0\<rparr>) st
            in pcapsession_handling_add (sid (sess st i)) st)"

definition pcapsession_filecapture_open :: "string \<Rightarrow> int \<Rightarrow> gstate \<Rightarrow> int \<times> gstate" where
  "pcapsession_filecapture_open directory_name iters st =
     (case pcapsession_handling_get_new st of
        (None, st) \<Rightarrow> (0, st)
      | (Some i, st) \<Rightarrow>
          let st = set_sess i (\<lambda>s. s\<lparr>runner := Some Filecapture, stopper := Some Filecapture\<rparr>) st;
              st = set_description i directory_name st;
              st = set_sess i (\<lambda>s. s\<lparr>fd := 0, supervise_fd := PCAP_SESSION_UNSUPERVISED_FD, mon := None,
                pcap_handle := 0, pcap_dumper := 0, handler := None,
                untunnel := PCAP_SESSION_UNTUNNEL_OFF, iterations := iters\<rparr>) st
          in pcapsession_handling_add (sid (sess st i)) st)"

text \<open>The merger is returned as a pointer to its session.\<close>

definition pcapsession_merger_open :: "string \<Rightarrow> int \<Rightarrow> gstate \<Rightarrow> nat option \<times> gstate" where
  "pcapsession_merger_open filename untun st =
     (case pcapsession_handling_get_new st of
        (None, st) \<Rightarrow> (None, st)
      | (Some i, st) \<Rightarrow>
          let st = set_sess i (\<lambda>s. s\<lparr>runner := Some Merger, stopper := Some Merger, untunnel := untun,
                mon := None, pcap_handle := 0, pcap_dumper := 0, handler := None, fd := 0,
                supervise_fd := PCAP_SESSION_SUPERVISED_FD, iterations := 0\<rparr>) st;
              st = set_description i filename st;
              (r, st) = pcapsession_handling_add (sid (sess st i)) st
          in (if r = 0 then None else Some i, st))"

definition pcapsession_client_open :: "sockaddr_in \<Rightarrow> nat option \<Rightarrow> gstate \<Rightarrow> int \<times> gstate" where
  "pcapsession_client_open server_address pcapsession_merger st =
     (case pcapsession_handling_get_new st of
        (None, st) \<Rightarrow> (0, st)
      | (Some i, st) \<Rightarrow>
          let st = set_sess i (\<lambda>s. s\<lparr>runner := Some Client, stopper := Some Client,
                handler := pcapsession_merger, address := server_address\<rparr>) st;
              st = set_description i (show_address (address (sess st i))) st;
              st = set_sess i (\<lambda>s. s\<lparr>fd := 0, supervise_fd := PCAP_SESSION_SUPERVISED_FD, mon := None,
                pcap_handle := 0, pcap_dumper := 0, untunnel := PCAP_SESSION_UNTUNNEL_OFF,
                iterations := 0\<rparr>) st
          in pcapsession_handling_add (sid (sess st i)) st)"

section \<open>What an open function does to the table\<close>

text \<open>
  \<open>opened k i st st'\<close>: slot \<open>i\<close>, the first unused one, became a session of kind \<open>k\<close> that is due to
  start; \<open>not_opened st st'\<close>: the same sessions are in use. Neither writes a session in use.
\<close>

definition keeps_used :: "gstate \<Rightarrow> gstate \<Rightarrow> bool" where
  "keeps_used st st' \<longleftrightarrow> tables_ok st' \<and> session_handling_state st' = session_handling_state st \<and>
     (\<forall>j < 128. state (sess st j) \<noteq> 0 \<longrightarrow> sess st' j = sess st j)"

definition opened :: "session_kind \<Rightarrow> nat \<Rightarrow> gstate \<Rightarrow> gstate \<Rightarrow> bool" where
  "opened k i st st' \<longleftrightarrow> keeps_used st st' \<and> i < 128 \<and> state (sess st i) = 0 \<and>
     (\<forall>j < i. state (sess st j) \<noteq> 0) \<and> state (sess st' i) = 2 \<and> sid (sess st' i) = int i \<and>
     runner (sess st' i) = Some k \<and> stopper (sess st' i) = Some k \<and> thread (sess st' i) = 0 \<and>
     (\<forall>j < 128. j \<noteq> i \<longrightarrow> sess st' j = sess st j)"

definition not_opened :: "gstate \<Rightarrow> gstate \<Rightarrow> bool" where
  "not_opened st st' \<longleftrightarrow> keeps_used st st' \<and> (\<forall>j < 128. state (sess st' j) = 0 \<longleftrightarrow> state (sess st j) = 0)"

definition used :: "gstate \<Rightarrow> nat set" where
  "used st = {i. i < 128 \<and> state (sess st i) \<noteq> 0}"

lemma opened_sessions_ok:
  assumes "sessions_ok st" "opened k i st st'"
  shows "sessions_ok st'"
proof -
  have "session_ok j (sess st' j)" if "j < 128" "state (sess st' j) \<noteq> 0" for j
    using assms that by (cases "j = i") (auto simp: sessions_ok_def opened_def session_ok_def)
  then show ?thesis using assms(2) by (simp add: sessions_ok_def opened_def keeps_used_def)
qed

lemma not_opened_sessions_ok:
  assumes "sessions_ok st" "not_opened st st'"
  shows "sessions_ok st'"
proof -
  have "session_ok j (sess st' j)" if "j < 128" "state (sess st' j) \<noteq> 0" for j
    using assms that by (auto simp: sessions_ok_def not_opened_def keeps_used_def)
  then show ?thesis using assms(2) by (simp add: sessions_ok_def not_opened_def keeps_used_def)
qed

section \<open>The contract\<close>

locale session_opener =
  fixes opener :: "gstate \<Rightarrow> bool \<times> gstate"
    and kind :: session_kind
  assumes opener_cases: "tables_ok st \<Longrightarrow> opener st = (b, st') \<Longrightarrow>
    (if b then \<exists>i. opened kind i st st' else not_opened st st')"
begin

lemma opener_success: "tables_ok st \<Longrightarrow> fst (opener st) \<Longrightarrow> \<exists>i. opened kind i st (snd (opener st))"
  using opener_cases [OF _ surjective_pairing, of st] by simp

lemma opener_failure: "tables_ok st \<Longrightarrow> \<not> fst (opener st) \<Longrightarrow> not_opened st (snd (opener st))"
  using opener_cases [OF _ surjective_pairing, of st] by simp

lemma opener_keeps: "tables_ok st \<Longrightarrow> keeps_used st (snd (opener st))"
  using opener_success [of st] opener_failure [of st]
  by (cases "fst (opener st)") (auto simp: opened_def not_opened_def)

lemma opener_sessions_ok:
  assumes "sessions_ok st"
  shows "sessions_ok (snd (opener st))"
proof -
  have t: "tables_ok st" using assms by (simp add: sessions_ok_def)
  show ?thesis
  proof (cases "fst (opener st)")
    case True
    then obtain i where "opened kind i st (snd (opener st))" using opener_success [OF t] by blast
    then show ?thesis by (rule opened_sessions_ok [OF assms])
  next
    case False
    then show ?thesis using not_opened_sessions_ok [OF assms opener_failure [OF t]] by simp
  qed
qed

text \<open>A successful call takes one more session into use, a failed one none.\<close>

lemma opener_used:
  assumes "tables_ok st"
  shows "card (used (snd (opener st))) = card (used st) + (if fst (opener st) then 1 else 0)"
proof (cases "fst (opener st)")
  case True
  then obtain i where i: "opened kind i st (snd (opener st))" using opener_success [OF assms] by blast
  have "used (snd (opener st)) = insert i (used st)"
    using i by (auto simp: used_def opened_def)
  moreover have "i \<notin> used st" using i by (simp add: used_def opened_def)
  ultimately show ?thesis using True by (simp add: used_def)
next
  case False
  have "used (snd (opener st)) = used st"
    using opener_failure [OF assms False] by (auto simp: used_def not_opened_def)
  then show ?thesis using False by simp
qed

lemma opener_full:
  assumes "tables_ok st" "card (used st) = 128"
  shows "\<not> fst (opener st)"
proof
  assume "fst (opener st)"
  then have "card (used (snd (opener st))) = 129" using opener_used [OF assms(1)] assms(2) by simp
  moreover have "card (used (snd (opener st))) \<le> card {..<128::nat}"
    by (rule card_mono) (auto simp: used_def)
  ultimately show False by simp
qed

end

section \<open>The six instances\<close>

text \<open>The result of an open function read as success or failure.\<close>

definition succeeds :: "int \<times> gstate \<Rightarrow> bool \<times> gstate" where
  "succeeds r = (fst r \<noteq> 0, snd r)"

definition succeeds_ptr :: "nat option \<times> gstate \<Rightarrow> bool \<times> gstate" where
  "succeeds_ptr r = (fst r \<noteq> None, snd r)"

lemma get_new_cases:
  assumes "tables_ok st"
  obtains (full) "pcapsession_handling_get_new st = (None, st)"
  | (slot) i where "i < 128" "state (sess st i) = 0" "\<forall>j < i. state (sess st j) \<noteq> 0"
      "pcapsession_handling_get_new st =
        (Some i, set_sess i (\<lambda>_. zero_session\<lparr>sid := int i, state := 1\<rparr>) st)"
proof (cases "pcapsession_handling_get_new st")
  case (Pair r st')
  show ?thesis
  proof (cases r)
    case None
    then show ?thesis using Pair full
      by (auto simp: pcapsession_handling_get_new_def Let_def split: if_splits)
  next
    case (Some i)
    then show ?thesis using get_new_Some [OF assms, of i st'] Pair slot by blast
  qed
qed

lemma handling_add_eq [sess_simps]:
  "i < 128 \<Longrightarrow> pcapsession_handling_add (int i) st =
     (1, set_sess i (\<lambda>s. s\<lparr>sid := int i\<rparr>) (set_sess i (\<lambda>s. s\<lparr>state := 2\<rparr>) st))"
  by (simp add: pcapsession_handling_add_def sess_simps)

lemma open_server_socket_frame [sess_simps]:
  "session_list (snd (open_server_socket os port a e st)) = session_list st"
  "session_handling_state (snd (open_server_socket os port a e st)) = session_handling_state st"
  "clientconnlist (snd (open_server_socket os port a e st)) = clientconnlist st"
  "clientconnlist_initialized (snd (open_server_socket os port a e st)) = clientconnlist_initialized st"
  by (simp_all add: open_server_socket_def error_return_def ext_def ext_do_def Let_def split_def)

lemma zero_session_state [simp]: "state zero_session = 0" "thread zero_session = 0"
  by (simp_all add: zero_session_def)

lemma not_opened_refl: "tables_ok st \<Longrightarrow> not_opened st st"
  by (simp add: not_opened_def keeps_used_def)

lemmas open_contract = opened_def not_opened_def keeps_used_def tables_ok_def

text \<open>
  The two ways through an open function, after the table is found full and after a slot is allocated;
  every instance of the contract is proved by running its function on both.
\<close>

lemma session_openerI:
  assumes full: "\<And>st. tables_ok st \<Longrightarrow> pcapsession_handling_get_new st = (None, st) \<Longrightarrow>
      \<not> fst (opener st) \<and> not_opened st (snd (opener st))"
    and slot: "\<And>st i. tables_ok st \<Longrightarrow> i < 128 \<Longrightarrow> state (sess st i) = 0 \<Longrightarrow>
      \<forall>j < i. state (sess st j) \<noteq> 0 \<Longrightarrow>
      pcapsession_handling_get_new st =
        (Some i, set_sess i (\<lambda>_. zero_session\<lparr>sid := int i, state := 1\<rparr>) st) \<Longrightarrow>
      (if fst (opener st) then opened k i st (snd (opener st)) else not_opened st (snd (opener st)))"
  shows "session_opener opener k"
proof
  fix st st' b
  assume t: "tables_ok st" and e: "opener st = (b, st')"
  from t show "if b then \<exists>i. opened k i st st' else not_opened st st'"
  proof (cases rule: get_new_cases)
    case full
    then show ?thesis using assms(1) [OF t] e by simp
  next
    case (slot i)
    then show ?thesis using assms(2) [OF t slot] e by (auto split: if_splits)
  qed
qed

interpretation server_opener: session_opener "\<lambda>st. succeeds (pcapsession_server_open os port st)" Server for os port
  by (rule session_openerI)
    (auto simp: pcapsession_server_open_def succeeds_def Let_def split_def not_opened_refl sess_simps ext_simps
      open_contract)

interpretation livecapture_opener: session_opener "\<lambda>st. succeeds (pcapsession_livecapture_open os name st)" Livecapture for os name
  by (rule session_openerI)
    (auto simp: pcapsession_livecapture_open_def succeeds_def Let_def split_def not_opened_refl sess_simps ext_simps
      open_contract)

interpretation filecapture_opener: session_opener "\<lambda>st. succeeds (pcapsession_filecapture_open dir n st)" Filecapture for dir n
  by (rule session_openerI)
    (auto simp: pcapsession_filecapture_open_def succeeds_def Let_def split_def not_opened_refl sess_simps ext_simps
      open_contract)

interpretation merger_opener: session_opener "\<lambda>st. succeeds_ptr (pcapsession_merger_open fname u st)" Merger for fname u
  by (rule session_openerI)
    (auto simp: pcapsession_merger_open_def succeeds_ptr_def Let_def split_def not_opened_refl sess_simps ext_simps
      open_contract)

interpretation client_opener: session_opener "\<lambda>st. succeeds (pcapsession_client_open addr m st)" Client for addr m
  by (rule session_openerI)
    (auto simp: pcapsession_client_open_def succeeds_def Let_def split_def not_opened_refl sess_simps ext_simps
      open_contract)

lemma init_clientconnlist_frame [sess_simps]:
  "session_list (init_clientconnlist st) = session_list st"
  "session_handling_state (init_clientconnlist st) = session_handling_state st"
  "tables_ok st \<Longrightarrow> tables_ok (init_clientconnlist st)"
  "clientconnlist_initialized (init_clientconnlist st)"
  "length (clientconnlist st) = 128 \<Longrightarrow> length (clientconnlist (init_clientconnlist st)) = 128"
  by (simp_all add: init_clientconnlist_def tables_ok_def)

lemma get_new_init_clientconnlist:
  "pcapsession_handling_get_new (init_clientconnlist st) =
     (let (r, st') = pcapsession_handling_get_new st in (r, init_clientconnlist st'))"
  by (simp add: pcapsession_handling_get_new_def Let_def init_clientconnlist_def set_sess_def
      pcapsession_change_state_def fault_at_def)

interpretation clientconn_opener: session_opener "\<lambda>st. succeeds (pcapsession_clientconn_open f addr st)" Clientconn
  for f addr
  by (rule session_openerI)
    (auto simp: pcapsession_clientconn_open_def get_new_init_clientconnlist succeeds_def Let_def sess_simps
      open_contract)

section \<open>Properties\<close>

lemma clientconn_open_succeeds:
  assumes "tables_ok st" "card (used st) < 128"
  shows "fst (pcapsession_clientconn_open f addr st) = 1"
proof -
  obtain i where i: "i < 128" "state (sess st i) = 0"
  proof (rule ccontr)
    assume "\<not> thesis"
    then have "used st = {..<128}" using that by (auto simp: used_def)
    then show False using assms(2) by simp
  qed
  from assms(1) show ?thesis
  proof (cases rule: get_new_cases)
    case full
    then have "fst (pcapsession_handling_get_new st) = None" by simp
    then have "state (sess st i) \<noteq> 0"
      using get_new_None [OF assms(1)] assms(1) i by (auto simp: tables_ok_def)
    then show ?thesis using i by simp
  next
    case (slot j)
    then show ?thesis using assms(1)
      by (simp add: pcapsession_clientconn_open_def get_new_init_clientconnlist Let_def sess_simps tables_ok_def)
  qed
qed

lemma clientconn_open_iff:
  assumes "tables_ok st"
  shows "fst (pcapsession_clientconn_open f addr st) \<noteq> 0 \<longleftrightarrow> card (used st) < 128"
proof -
  have "card (used st) \<le> card {..<128::nat}" by (rule card_mono) (auto simp: used_def)
  then show ?thesis
    using clientconn_open_succeeds [OF assms, of f addr] clientconn_opener.opener_full [OF assms, of f addr]
    by (cases "card (used st) < 128") (simp_all add: succeeds_def)
qed

text \<open>
  C15: no slot is lost on any path of the six open functions. A call that reports success has taken
  exactly one more session into use, and a call that reports failure (a full table, a port that is out
  of range, a socket, capture device or listen that fails) has taken none; a client connection is
  refused exactly when all 128 sessions are in use.
\<close>

theorem open_functions_allocate:
  assumes "tables_ok st"
  shows "card (used (snd (pcapsession_server_open os port st))) =
      card (used st) + (if fst (pcapsession_server_open os port st) \<noteq> 0 then 1 else 0) \<and>
    card (used (snd (pcapsession_livecapture_open os name st))) =
      card (used st) + (if fst (pcapsession_livecapture_open os name st) \<noteq> 0 then 1 else 0) \<and>
    card (used (snd (pcapsession_filecapture_open dir n st))) =
      card (used st) + (if fst (pcapsession_filecapture_open dir n st) \<noteq> 0 then 1 else 0) \<and>
    card (used (snd (pcapsession_merger_open fname u st))) =
      card (used st) + (if fst (pcapsession_merger_open fname u st) \<noteq> None then 1 else 0) \<and>
    card (used (snd (pcapsession_client_open addr m st))) =
      card (used st) + (if fst (pcapsession_client_open addr m st) \<noteq> 0 then 1 else 0) \<and>
    card (used (snd (pcapsession_clientconn_open f addr st))) =
      card (used st) + (if fst (pcapsession_clientconn_open f addr st) \<noteq> 0 then 1 else 0) \<and>
    (fst (pcapsession_clientconn_open f addr st) \<noteq> 0 \<longleftrightarrow> card (used st) < 128)"
  using server_opener.opener_used [OF assms, of os port] livecapture_opener.opener_used [OF assms, of os name]
    filecapture_opener.opener_used [OF assms, of dir n] merger_opener.opener_used [OF assms, of fname u]
    client_opener.opener_used [OF assms, of addr m] clientconn_opener.opener_used [OF assms, of f addr]
    clientconn_open_iff [OF assms, of f addr]
  by (simp add: succeeds_def succeeds_ptr_def)

theorem open_functions_allocate_witness:
  "card (used (snd (pcapsession_clientconn_open 7 zero_sockaddr init_gstate))) = 1"
proof -
  have t: "tables_ok init_gstate" by (simp add: tables_ok_def init_gstate_def)
  have u: "used init_gstate = {}" by (auto simp: used_def init_gstate_def)
  show ?thesis
    using open_functions_allocate [OF t, where f = 7 and addr = zero_sockaddr] u by simp
qed

end
