(* ===== verification/Session_Packets.thy ===== *)
theory Session_Packets
  imports Session_Open
begin

text \<open>
  The packet handlers: \<open>pcapsession_clientconn.c\<close> hands every captured packet to every open client
  connection, \<open>pcapsession_merger.c\<close> writes every packet received from a server to the merged file,
  optionally without its GTP-U tunnel. Packets are dumped through calls \<open>Pcap_dump\<close> recorded in the
  history of calls, so what a client has been sent is read off the history.
\<close>

section \<open>Handlers\<close>

text \<open>
  \<open>pcap_dump\<close> of libpcap writes the \<open>caplen\<close> captured octets of a packet to a dumper, which must not be
  null; the octets must be there to read.
\<close>

definition captured :: "packet \<Rightarrow> packet" where
  "captured pkt = (fst pkt, take (unat (caplen (fst pkt))) (snd pkt))"

definition whole :: "packet \<Rightarrow> bool" where
  "whole pkt \<longleftrightarrow> unat (caplen (fst pkt)) \<le> length (snd pkt)"

definition pcap_dump :: "int \<Rightarrow> packet \<Rightarrow> gstate \<Rightarrow> gstate" where
  "pcap_dump dumper pkt st =
     (if dumper = 0 then fault_at Null_pointer st
      else if \<not> whole pkt then fault_at Out_of_bounds st
      else ext_do (Pcap_dump dumper (fst pkt) (snd (captured pkt))) st)"

text \<open>\<open>monitor_increment (session->monitor, 1, header->len)\<close>.\<close>

definition count_in :: "packet \<Rightarrow> session \<Rightarrow> session" where
  "count_in pkt s = s\<lparr>mon := count_packet (pkt_len (fst pkt)) (mon s)\<rparr>"

definition pcapsession_clientconn_client_handle_packet ::
    "os \<Rightarrow> nat option \<Rightarrow> packet \<Rightarrow> gstate \<Rightarrow> gstate" where
  "pcapsession_clientconn_client_handle_packet os client pkt st =
     (case client of None \<Rightarrow> st
      | Some c \<Rightarrow>
          if state (sess st c) \<noteq> PCAP_SESSION_RUNNING then st
          else let (is_open, st) = iotests_fd_open os (fd (sess st c)) st in
            if is_open then set_sess c (count_in pkt) (pcap_dump (pcap_dumper (sess st c)) pkt st)
            else set_conn (sid (sess st c)) None st)"

text \<open>The body of the loop over the client connections.\<close>

definition conn_step :: "os \<Rightarrow> packet \<Rightarrow> nat \<Rightarrow> gstate \<Rightarrow> gstate" where
  "conn_step os pkt i st =
     (if clientconnlist st ! i \<noteq> None
      then pcapsession_clientconn_client_handle_packet os (clientconnlist st ! i) pkt st else st)"

definition pcapsession_clientconn_packet_handler ::
    "os \<Rightarrow> nat option \<Rightarrow> packet \<Rightarrow> gstate \<Rightarrow> gstate" where
  "pcapsession_clientconn_packet_handler os p pkt st =
     (case p of None \<Rightarrow> st
      | Some i \<Rightarrow> fold (conn_step os pkt) [0..<PCAP_SESSION_MAX_SESSIONS] (set_sess i (count_in pkt) st))"

text \<open>
  The merger is the session the receiving connection names as its handler. Undefined behaviour of the
  untunnelling is recorded and the packet is dumped as it was.
\<close>

definition merger_untunnel :: "nat \<Rightarrow> packet \<Rightarrow> gstate \<Rightarrow> packet \<times> gstate" where
  "merger_untunnel m pkt st =
     (if untunnel (sess st m) = PCAP_SESSION_UNTUNNEL_ON then
        case pcapsession_untunnel_packet (mon (sess st m)) (fst pkt) (snd pkt) of
          Inl f \<Rightarrow> (pkt, fault_at f st)
        | Inr (mon', header', data') \<Rightarrow> ((header', data'), set_sess m (\<lambda>s. s\<lparr>mon := mon'\<rparr>) st)
      else (pkt, st))"

definition pcapsession_merger_packet_handler :: "nat option \<Rightarrow> packet \<Rightarrow> gstate \<Rightarrow> gstate" where
  "pcapsession_merger_packet_handler p pkt st =
     (case p of None \<Rightarrow> st
      | Some i \<Rightarrow>
          (case handler (sess st i) of None \<Rightarrow> st
           | Some m \<Rightarrow>
               let (new_pkt, st) = merger_untunnel m pkt st;
                   st = pcap_dump (pcap_dumper (sess st m)) new_pkt st;
                   st = set_sess i (count_in pkt) st
               in set_sess m (count_in pkt) st))"

section \<open>What has been dumped\<close>

fun dumped :: "call list \<Rightarrow> (int \<times> packet) list" where
  "dumped [] = []"
| "dumped (Pcap_dump d h b # cs) = (d, (h, b)) # dumped cs"
| "dumped (c # cs) = dumped cs"

text \<open>The packets written to one dumper, oldest first.\<close>

definition stream_of :: "int \<Rightarrow> 'a world_scheme \<Rightarrow> packet list" where
  "stream_of d st = map snd (filter (\<lambda>x. fst x = d) (rev (dumped (hist st))))"

text \<open>
  With the answers \<open>p\<close> of polling a descriptor, which do not change during the call: the connections a
  packet is delivered to, and those found closed.
\<close>

definition listed :: "gstate \<Rightarrow> nat \<Rightarrow> bool" where
  "listed st j \<longleftrightarrow> clientconnlist st ! j \<noteq> None \<and> state (sess st j) = 4"

definition delivers :: "(int \<Rightarrow> int) \<Rightarrow> gstate \<Rightarrow> nat \<Rightarrow> bool" where
  "delivers p st j \<longleftrightarrow> listed st j \<and> p (fd (sess st j)) = 0"

definition lost :: "(int \<Rightarrow> int) \<Rightarrow> gstate \<Rightarrow> nat \<Rightarrow> bool" where
  "lost p st j \<longleftrightarrow> listed st j \<and> p (fd (sess st j)) \<noteq> 0"

definition polls :: "(int \<Rightarrow> int) \<Rightarrow> os \<Rightarrow> bool" where
  "polls p os \<longleftrightarrow> (\<forall>h f. os h (Poll f) = p f)"

section \<open>Lemmas\<close>

lemma count_in_simps [simp]:
  "state (count_in k s) = state s" "sid (count_in k s) = sid s" "fd (count_in k s) = fd s"
  "pcap_dumper (count_in k s) = pcap_dumper s" "stopper (count_in k s) = stopper s"
  "runner (count_in k s) = runner s" "handler (count_in k s) = handler s"
  "untunnel (count_in k s) = untunnel s" "thread (count_in k s) = thread s"
  "pcap_handle (count_in k s) = pcap_handle s"
  "iterations (count_in k s) = iterations s" "description (count_in k s) = description s"
  "supervise_fd (count_in k s) = supervise_fd s"
  by (simp_all add: count_in_def)

lemma pcap_dump_frame [sess_simps]:
  "session_list (pcap_dump d pkt st) = session_list st"
  "session_handling_state (pcap_dump d pkt st) = session_handling_state st"
  "clientconnlist (pcap_dump d pkt st) = clientconnlist st"
  "clocks (pcap_dump d pkt st) = clocks st"
  by (simp_all add: pcap_dump_def sess_simps)

lemma pcap_dump_good [sess_simps]:
  assumes "d \<noteq> 0" "whole pkt"
  shows "faults (pcap_dump d pkt st) = faults st"
    "dumped (hist (pcap_dump d pkt st)) = (d, captured pkt) # dumped (hist st)"
  using assms by (simp_all add: pcap_dump_def captured_def)

lemma stream_of_add:
  "dumped (hist st') = rev xs @ dumped (hist st) \<Longrightarrow>
     stream_of d st' = stream_of d st @ map snd (filter (\<lambda>x. fst x = d) xs)"
  by (simp add: stream_of_def)

lemma conn_step_eq:
  assumes ok: "sessions_ok st" "dump_list_ok st" and p: "polls p os" and j: "j < 128"
  shows "conn_step os pkt j st =
    (let st1 = st\<lparr>hist := Poll (fd (sess st j)) # hist st\<rparr> in
     if delivers p st j then set_sess j (count_in pkt) (pcap_dump (pcap_dumper (sess st j)) pkt st1)
     else if lost p st j then st1\<lparr>clientconnlist := (clientconnlist st)[j := None]\<rparr> else st)"
proof (cases "listed st j")
  case True
  then have l: "clientconnlist st ! j = Some j" "state (sess st j) = 4" "sid (sess st j) = int j"
    using ok j by (auto simp: dump_list_ok_def listed_def sessions_ok_def session_ok_def)
  have r: "os h (Poll f) = p f" for h f using p by (simp add: polls_def)
  show ?thesis
    using True l j
    by (simp add: conn_step_def pcapsession_clientconn_client_handle_packet_def delivers_def lost_def r
        iotests_fd_open_eq set_conn_def Let_def)
next
  case False
  then have "conn_step os pkt j st = st"
    using ok j by (auto simp: listed_def conn_step_def dump_list_ok_def
        pcapsession_clientconn_client_handle_packet_def)
  then show ?thesis using False by (simp add: delivers_def lost_def)
qed

lemma conn_step_effect:
  assumes ok: "sessions_ok st" "dump_list_ok st" and p: "polls p os" and j: "j < 128" and w: "whole pkt"
  shows "dumped (hist (conn_step os pkt j st)) =
      (if delivers p st j then [(pcap_dumper (sess st j), captured pkt)] else []) @ dumped (hist st)"
    and "faults (conn_step os pkt j st) = faults st"
    and "session_list (conn_step os pkt j st) =
      (if delivers p st j then (session_list st)[j := count_in pkt (sess st j)] else session_list st)"
    and "clientconnlist (conn_step os pkt j st) =
      (if lost p st j then (clientconnlist st)[j := None] else clientconnlist st)"
    and "session_handling_state (conn_step os pkt j st) = session_handling_state st"
    and "clientconnlist_initialized (conn_step os pkt j st) = clientconnlist_initialized st"
proof -
  have d: "pcap_dumper (sess st j) \<noteq> 0" if "delivers p st j"
    using that ok j by (auto simp: dump_list_ok_def delivers_def listed_def)
  have x: "\<not> lost p st j" if "delivers p st j" using that by (simp add: delivers_def lost_def)
  show "dumped (hist (conn_step os pkt j st)) =
      (if delivers p st j then [(pcap_dumper (sess st j), captured pkt)] else []) @ dumped (hist st)"
    "faults (conn_step os pkt j st) = faults st"
    "session_list (conn_step os pkt j st) =
      (if delivers p st j then (session_list st)[j := count_in pkt (sess st j)] else session_list st)"
    "clientconnlist (conn_step os pkt j st) =
      (if lost p st j then (clientconnlist st)[j := None] else clientconnlist st)"
    "session_handling_state (conn_step os pkt j st) = session_handling_state st"
    "clientconnlist_initialized (conn_step os pkt j st) = clientconnlist_initialized st"
    unfolding conn_step_eq [OF ok p j] Let_def using d x w
    by (simp_all add: set_sess_def pcap_dump_def captured_def ext_do_def)
qed

text \<open>The invariant of the distribution, and that a step of the loop keeps it.\<close>

definition conns_ok :: "gstate \<Rightarrow> bool" where
  "conns_ok st \<longleftrightarrow> sessions_ok st \<and> dump_list_ok st"

text \<open>
  Sessions that agree in everything the invariant, the delivery and the supervision depend on: all but
  the monitor.
\<close>

definition same_session :: "session \<Rightarrow> session \<Rightarrow> bool" where
  "same_session s s' \<longleftrightarrow> s'\<lparr>mon := mon s\<rparr> = s"

lemma same_session_simps:
  assumes "same_session s s'"
  shows "state s' = state s" "sid s' = sid s" "fd s' = fd s" "pcap_dumper s' = pcap_dumper s"
    "stopper s' = stopper s" "runner s' = runner s" "handler s' = handler s" "untunnel s' = untunnel s"
    "thread s' = thread s" "pcap_handle s' = pcap_handle s" "iterations s' = iterations s"
    "description s' = description s" "supervise_fd s' = supervise_fd s"
  using assms by (cases s; cases s'; simp add: same_session_def)+

lemma same_session_count [simp]: "same_session s (count_in pkt s)" "same_session s s"
  by (simp_all add: same_session_def count_in_def)

lemma same_session_trans: "same_session a b \<Longrightarrow> same_session b c \<Longrightarrow> same_session a c"
  by (cases a; cases b; cases c; simp add: same_session_def)

definition same_table :: "gstate \<Rightarrow> gstate \<Rightarrow> bool" where
  "same_table st st' \<longleftrightarrow> length (session_list st') = length (session_list st) \<and>
     length (clientconnlist st') = length (clientconnlist st) \<and>
     session_handling_state st' = session_handling_state st \<and>
     clientconnlist_initialized st' = clientconnlist_initialized st \<and>
     (\<forall>j < 128. same_session (sess st j) (sess st' j)) \<and>
     (\<forall>j < 128. clientconnlist st' ! j \<noteq> None \<longrightarrow> clientconnlist st' ! j = clientconnlist st ! j)"

lemma same_table_refl [simp]: "same_table st st"
  by (simp add: same_table_def)

lemma same_table_trans:
  assumes "same_table a b" "same_table b c"
  shows "same_table a c"
proof -
  have "same_session (sess a j) (sess c j)" if "j < 128" for j
    using assms that same_session_trans [of "sess a j" "sess b j" "sess c j"] by (simp add: same_table_def)
  moreover have "clientconnlist c ! j = clientconnlist a ! j" if "j < 128" "clientconnlist c ! j \<noteq> None" for j
    using assms that unfolding same_table_def by (simp del: not_None_eq)
  ultimately show ?thesis using assms by (simp add: same_table_def)
qed

lemma same_table_conns_ok:
  assumes "conns_ok st" "same_table st st'"
  shows "conns_ok st'"
proof -
  have s: "state (sess st' j) = state (sess st j)" "sid (sess st' j) = sid (sess st j)"
    "runner (sess st' j) = runner (sess st j)" "stopper (sess st' j) = stopper (sess st j)"
    "pcap_dumper (sess st' j) = pcap_dumper (sess st j)" if "j < 128" for j
    using assms(2) that same_session_simps by (simp_all add: same_table_def)
  have "sessions_ok st'"
    using assms s by (simp add: conns_ok_def sessions_ok_def same_table_def tables_ok_def session_ok_def)
  moreover have "dump_list_ok st'"
    using assms s by (auto simp: conns_ok_def dump_list_ok_def same_table_def)
  ultimately show ?thesis by (simp add: conns_ok_def)
qed

lemma conn_step_same:
  assumes "conns_ok st" "polls p os" "j < 128" "whole pkt"
  shows "same_table st (conn_step os pkt j st)"
proof -
  note e = conn_step_effect [OF _ _ assms(2-4), of st]
  show ?thesis
    using assms e by (auto simp: same_table_def conns_ok_def nth_list_update sessions_ok_def tables_ok_def)
qed

lemma conn_step_other:
  assumes "conns_ok st" "polls p os" "j < 128" "whole pkt" "k < 128" "k \<noteq> j"
  shows "sess (conn_step os pkt j st) k = sess st k"
    "clientconnlist (conn_step os pkt j st) ! k = clientconnlist st ! k"
  using conn_step_effect [OF _ _ assms(2-4), of st] assms by (auto simp: conns_ok_def)

lemma fold_conn_step:
  assumes "conns_ok st" "polls p os" "whole pkt" "distinct js" "set js \<subseteq> {..<128}"
  shows "dumped (hist (fold (conn_step os pkt) js st)) =
      rev (map (\<lambda>j. (pcap_dumper (sess st j), captured pkt)) (filter (delivers p st) js)) @ dumped (hist st) \<and>
    faults (fold (conn_step os pkt) js st) = faults st \<and>
    same_table st (fold (conn_step os pkt) js st) \<and>
    (\<forall>k < 128. clientconnlist (fold (conn_step os pkt) js st) ! k =
      (if k \<in> set js \<and> lost p st k then None else clientconnlist st ! k)) \<and>
    (\<forall>k < 128. sess (fold (conn_step os pkt) js st) k =
      (if k \<in> set js \<and> delivers p st k then count_in pkt (sess st k) else sess st k))"
  using assms
proof (induction js arbitrary: st)
  case Nil
  then show ?case by simp
next
  case (Cons j js)
  define st1 where "st1 = conn_step os pkt j st"
  have j: "j < 128" "j \<notin> set js" "set js \<subseteq> {..<128}" using Cons.prems by auto
  have ok: "sessions_ok st" "dump_list_ok st" using Cons.prems(1) by (simp_all add: conns_ok_def)
  note e = conn_step_effect [OF ok Cons.prems(2) j(1) Cons.prems(3), folded st1_def]
  have same: "same_table st st1"
    unfolding st1_def by (rule conn_step_same [OF Cons.prems(1,2) j(1) Cons.prems(3)])
  have o: "sess st1 k = sess st k" "clientconnlist st1 ! k = clientconnlist st ! k"
    if "k < 128" "k \<noteq> j" for k
    using conn_step_other [OF Cons.prems(1,2) j(1) Cons.prems(3) that] by (simp_all add: st1_def)
  have js: "k < 128 \<and> k \<noteq> j" if "k \<in> set js" for k using that j by auto
  have d: "delivers p st1 k = delivers p st k" "lost p st1 k = lost p st k" if "k \<in> set js" for k
    using o js [OF that] by (simp_all add: delivers_def lost_def listed_def)
  have m: "map (\<lambda>k. (pcap_dumper (sess st1 k), captured pkt)) (filter (delivers p st1) js) =
      map (\<lambda>k. (pcap_dumper (sess st k), captured pkt)) (filter (delivers p st) js)"
    using d(1) o(1) js by (auto intro!: map_cong filter_cong)
  note IH = Cons.IH [OF same_table_conns_ok [OF Cons.prems(1) same] Cons.prems(2,3) _ j(3), unfolded m]
  have len: "length (session_list st) = 128" "length (clientconnlist st) = 128"
    using ok by (simp_all add: sessions_ok_def tables_ok_def)
  have cs: "clientconnlist st1 ! j = (if lost p st j then None else clientconnlist st ! j)"
    "sess st1 j = (if delivers p st j then count_in pkt (sess st j) else sess st j)"
    using e(3,4) j(1) len by simp_all
  define st2 where "st2 = fold (conn_step os pkt) js st1"
  have "distinct js" using Cons.prems(4) by simp
  note ih = IH [OF this, folded st2_def]
  have ih4: "clientconnlist st2 ! k = (if k \<in> set js \<and> lost p st1 k then None else clientconnlist st1 ! k)"
    "sess st2 k = (if k \<in> set js \<and> delivers p st1 k then count_in pkt (sess st1 k) else sess st1 k)"
    if "k < 128" for k
    using ih that by (simp_all only: conj_assoc)
  have "clientconnlist st2 ! k = (if k \<in> set (j # js) \<and> lost p st k then None else clientconnlist st ! k)"
    if k: "k < 128" for k
    using ih4(1) [OF k] cs(1) o(2) [OF k] d(2) [of k] j(2) by (cases "k = j") auto
  moreover have "sess st2 k = (if k \<in> set (j # js) \<and> delivers p st k then count_in pkt (sess st k) else sess st k)"
    if k: "k < 128" for k
    using ih4(2) [OF k] cs(2) o(1) [OF k] d(1) [of k] j(2) by (cases "k = j") auto
  moreover have "fold (conn_step os pkt) (j # js) st = st2" by (simp add: st1_def st2_def)
  ultimately show ?case
    using ih e(1,2) same_table_trans [OF same, of st2] by simp
qed

lemma handler_counted:
  assumes "conns_ok st" "i < 128"
  shows "conns_ok (set_sess i (count_in pkt) st)" "same_table st (set_sess i (count_in pkt) st)"
    "delivers p (set_sess i (count_in pkt) st) = delivers p st"
    "lost p (set_sess i (count_in pkt) st) = lost p st"
    "pcap_dumper (sess (set_sess i (count_in pkt) st) j) = pcap_dumper (sess st j)"
proof -
  have s: "same_session (sess st j) (sess (set_sess i (count_in pkt) st) j)" for j
    by (cases "j < length (session_list st)"; cases "i = j") (simp_all add: set_sess_def list_update_beyond)
  show st: "same_table st (set_sess i (count_in pkt) st)"
    using s by (simp add: same_table_def sess_simps)
  show "conns_ok (set_sess i (count_in pkt) st)" by (rule same_table_conns_ok [OF assms(1) st])
  show "delivers p (set_sess i (count_in pkt) st) = delivers p st"
    "lost p (set_sess i (count_in pkt) st) = lost p st"
    "pcap_dumper (sess (set_sess i (count_in pkt) st) j) = pcap_dumper (sess st j)"
    using same_session_simps [OF s] by (auto simp: delivers_def lost_def listed_def sess_simps)
qed

text \<open>One packet, in full.\<close>

lemma packet_handler_effect:
  assumes "conns_ok st" "polls p os" "whole pkt" "i < 128"
  defines "st' \<equiv> pcapsession_clientconn_packet_handler os (Some i) pkt st"
  shows "dumped (hist st') =
      rev (map (\<lambda>j. (pcap_dumper (sess st j), captured pkt)) (filter (delivers p st) [0..<128])) @ dumped (hist st)"
    and "faults st' = faults st" and "same_table st st'"
    and "\<And>k. k < 128 \<Longrightarrow> clientconnlist st' ! k = (if lost p st k then None else clientconnlist st ! k)"
    and "\<And>k. k < 128 \<Longrightarrow> k \<noteq> i \<Longrightarrow>
      sess st' k = (if delivers p st k then count_in pkt (sess st k) else sess st k)"
proof -
  note c = handler_counted [OF assms(1,4), where pkt = pkt]
  have u: "set [0..<128] \<subseteq> {..<128 :: nat}" by auto
  note f = fold_conn_step [OF c(1) assms(2,3) distinct_upt [of 0 128] u, unfolded c(3-5)]
  show "dumped (hist st') =
      rev (map (\<lambda>j. (pcap_dumper (sess st j), captured pkt)) (filter (delivers p st) [0..<128])) @ dumped (hist st)"
    "faults st' = faults st"
    using f by (simp_all add: st'_def pcapsession_clientconn_packet_handler_def sess_simps)
  show "same_table st st'"
    using f same_table_trans [OF c(2)] by (simp add: st'_def pcapsession_clientconn_packet_handler_def)
  show "clientconnlist st' ! k = (if lost p st k then None else clientconnlist st ! k)" if "k < 128" for k
    using f that by (simp add: st'_def pcapsession_clientconn_packet_handler_def sess_simps)
  show "sess st' k = (if delivers p st k then count_in pkt (sess st k) else sess st k)"
    if "k < 128" "k \<noteq> i" for k
    using f that by (auto simp: st'_def pcapsession_clientconn_packet_handler_def set_sess_def)
qed

text \<open>The handler keeps the invariant of the distribution, so the capture loop does.\<close>

interpretation distribution: packet_handler "pcapsession_clientconn_packet_handler os (Some i)" whole
    "\<lambda>st. conns_ok st \<and> i < 128 \<and> polls p os" for os i p
  by unfold_locales (auto intro: same_table_conns_ok packet_handler_effect(3))

lemma handler_delivers:
  assumes "conns_ok st" "polls p os" "whole pkt" "i < 128" "j < 128"
  shows "delivers p (pcapsession_clientconn_packet_handler os (Some i) pkt st) j = delivers p st j"
    "pcap_dumper (sess (pcapsession_clientconn_packet_handler os (Some i) pkt st) j) = pcap_dumper (sess st j)"
proof -
  note e = packet_handler_effect [OF assms(1-4)]
  have s: "same_session (sess st j) (sess (pcapsession_clientconn_packet_handler os (Some i) pkt st) j)"
    using e(3) assms(5) by (simp add: same_table_def)
  show "delivers p (pcapsession_clientconn_packet_handler os (Some i) pkt st) j = delivers p st j"
    "pcap_dumper (sess (pcapsession_clientconn_packet_handler os (Some i) pkt st) j) = pcap_dumper (sess st j)"
    using e(4) [OF assms(5)] same_session_simps [OF s] by (auto simp: delivers_def listed_def lost_def)
qed

text \<open>The connections that write to a given dumper.\<close>

definition sole_dumper :: "(int \<Rightarrow> int) \<Rightarrow> gstate \<Rightarrow> nat \<Rightarrow> bool" where
  "sole_dumper p st j \<longleftrightarrow> delivers p st j \<and>
     (\<forall>k < 128. delivers p st k \<and> pcap_dumper (sess st k) = pcap_dumper (sess st j) \<longrightarrow> k = j)"

lemma handler_stream:
  assumes "conns_ok st" "polls p os" "whole pkt" "i < 128" "j < 128" "sole_dumper p st j"
  shows "stream_of (pcap_dumper (sess st j)) (pcapsession_clientconn_packet_handler os (Some i) pkt st) =
      stream_of (pcap_dumper (sess st j)) st @ [captured pkt]"
    "sole_dumper p (pcapsession_clientconn_packet_handler os (Some i) pkt st) j"
proof -
  have "filter (\<lambda>k. delivers p st k \<and> pcap_dumper (sess st k) = pcap_dumper (sess st j)) [0..<128] =
      filter (\<lambda>k. k = j) [0..<128]"
    using assms(6) by (intro filter_cong) (auto simp: sole_dumper_def)
  also have "\<dots> = [j]"
    using assms(5) filter_eq_single [of "[0..<128]" j] by simp
  finally show "stream_of (pcap_dumper (sess st j)) (pcapsession_clientconn_packet_handler os (Some i) pkt st) =
      stream_of (pcap_dumper (sess st j)) st @ [captured pkt]"
    unfolding stream_of_add [OF packet_handler_effect(1) [OF assms(1-4)]]
    by (simp add: filter_map o_def)
  show "sole_dumper p (pcapsession_clientconn_packet_handler os (Some i) pkt st) j"
    using assms(5,6) handler_delivers [OF assms(1-4)] by (simp add: sole_dumper_def)
qed

lemma loop_stream:
  assumes "conns_ok st" "polls p os" "\<forall>pkt \<in> set pkts. whole pkt" "i < 128" "j < 128" "sole_dumper p st j"
  shows "stream_of (pcap_dumper (sess st j)) (pcap_loop (pcapsession_clientconn_packet_handler os (Some i)) pkts st) =
      stream_of (pcap_dumper (sess st j)) st @ map captured pkts \<and>
    faults (pcap_loop (pcapsession_clientconn_packet_handler os (Some i)) pkts st) = faults st"
  using assms
proof (induction pkts arbitrary: st)
  case Nil
  then show ?case by simp
next
  case (Cons pkt pkts)
  define st1 where "st1 = pcapsession_clientconn_packet_handler os (Some i) pkt st"
  have w: "whole pkt" "\<forall>q \<in> set pkts. whole q" using Cons.prems(3) by simp_all
  note e = packet_handler_effect [OF Cons.prems(1,2) w(1) Cons.prems(4), folded st1_def]
  note h = handler_stream [OF Cons.prems(1,2) w(1) Cons.prems(4-6), folded st1_def]
  have ok: "conns_ok st1" by (rule same_table_conns_ok [OF Cons.prems(1) e(3)])
  have d: "pcap_dumper (sess st1 j) = pcap_dumper (sess st j)"
    using handler_delivers(2) [OF Cons.prems(1,2) w(1) Cons.prems(4,5)] by (simp add: st1_def)
  show ?case using Cons.IH [OF ok Cons.prems(2) w(2) Cons.prems(4,5) h(2)] h(1) d e(2)
    by (simp add: st1_def [symmetric])
qed

section \<open>Merging\<close>

text \<open>What the merger writes for a packet.\<close>

definition merged :: "int \<Rightarrow> packet \<Rightarrow> packet" where
  "merged u pkt = (if u = PCAP_SESSION_UNTUNNEL_ON then
     case pcapsession_untunnel_packet None (fst pkt) (snd pkt) of
       Inl _ \<Rightarrow> pkt | Inr (_, header', data') \<Rightarrow> (header', data')
     else pkt)"

definition mergeable :: "int \<Rightarrow> packet \<Rightarrow> bool" where
  "mergeable u pkt \<longleftrightarrow> whole (merged u pkt) \<and>
     (u = PCAP_SESSION_UNTUNNEL_ON \<longrightarrow> (\<forall>f. pcapsession_untunnel_packet None (fst pkt) (snd pkt) \<noteq> Inl f))"

text \<open>The header and data that untunnelling returns do not depend on the monitor.\<close>

lemma untunnel_monitor:
  assumes "pcapsession_untunnel_packet None h d = Inr (x, h', d')"
  shows "\<exists>mo'. pcapsession_untunnel_packet mo h d = Inr (mo', h', d')"
proof (cases "gtpv1_get_header (caplen h) d")
  case (Inr r)
  show ?thesis
  proof (cases r)
    case (Some off)
    obtain g where g: "rd_gtpv1hdr d (unat off) = Inr g"
      using assms Inr Some
      by (cases "rd_gtpv1hdr d (unat off)") (simp_all add: pcapsession_untunnel_packet_def)
    show ?thesis
      using assms
      by (cases "rd16 d 12")
        (auto simp: pcapsession_untunnel_packet_def Inr Some g Let_def sbind_Inr_iff split: if_splits)
  qed (use assms Inr in \<open>simp add: pcapsession_untunnel_packet_def\<close>)
qed (use assms in \<open>simp add: pcapsession_untunnel_packet_def\<close>)

lemma merger_untunnel_effect:
  assumes "mergeable (untunnel (sess st m)) pkt"
  obtains mo where "merger_untunnel m pkt st =
    (merged (untunnel (sess st m)) pkt, set_sess m (\<lambda>s. s\<lparr>mon := mo\<rparr>) st)"
proof (cases "untunnel (sess st m) = 1")
  case True
  obtain x h' d' where n: "pcapsession_untunnel_packet None (fst pkt) (snd pkt) = Inr (x, h', d')"
    using assms True by (cases "pcapsession_untunnel_packet None (fst pkt) (snd pkt)")
      (auto simp: mergeable_def)
  obtain mo' where "pcapsession_untunnel_packet (mon (sess st m)) (fst pkt) (snd pkt) = Inr (mo', h', d')"
    using untunnel_monitor [OF n] by blast
  then show ?thesis using that [of mo'] n True by (simp add: merger_untunnel_def merged_def)
next
  case False
  have "set_sess m (\<lambda>s. s\<lparr>mon := mon (sess st m)\<rparr>) st = st" by (simp add: set_sess_def)
  then show ?thesis using that [of "mon (sess st m)"] False by (simp add: merger_untunnel_def merged_def)
qed

text \<open>The merger \<open>m\<close> is open for the packets of connection \<open>i\<close>.\<close>

definition merges_to :: "gstate \<Rightarrow> nat \<Rightarrow> nat \<Rightarrow> bool" where
  "merges_to st m i \<longleftrightarrow> i < length (session_list st) \<and> handler (sess st i) = Some m"

lemma merger_handler_effect:
  assumes "merges_to st m i" "m < length (session_list st)" "pcap_dumper (sess st m) \<noteq> 0"
    "mergeable (untunnel (sess st m)) pkt"
  defines "st' \<equiv> pcapsession_merger_packet_handler (Some i) pkt st"
  shows "dumped (hist st') = (pcap_dumper (sess st m), captured (merged (untunnel (sess st m)) pkt)) # dumped (hist st)"
    "faults st' = faults st" "length (session_list st') = length (session_list st)"
    "\<And>k. k < length (session_list st) \<Longrightarrow> same_session (sess st k) (sess st' k)"
proof -
  obtain mo where u: "merger_untunnel m pkt st =
      (merged (untunnel (sess st m)) pkt, set_sess m (\<lambda>s. s\<lparr>mon := mo\<rparr>) st)"
    using merger_untunnel_effect [OF assms(4)] by blast
  have w: "whole (merged (untunnel (sess st m)) pkt)" using assms(4) by (simp add: mergeable_def)
  have e: "st' = set_sess m (count_in pkt) (set_sess i (count_in pkt)
      (pcap_dump (pcap_dumper (sess st m)) (merged (untunnel (sess st m)) pkt)
        (set_sess m (\<lambda>s. s\<lparr>mon := mo\<rparr>) st)))"
    using assms(1,2)
    by (simp add: st'_def pcapsession_merger_packet_handler_def merges_to_def u Let_def sess_simps)
  show "dumped (hist st') = (pcap_dumper (sess st m), captured (merged (untunnel (sess st m)) pkt)) # dumped (hist st)"
    "faults st' = faults st" "length (session_list st') = length (session_list st)"
    unfolding e using assms(3) w by (simp_all add: sess_simps)
  show "same_session (sess st k) (sess st' k)" if "k < length (session_list st)" for k
    unfolding e using that by (simp add: sess_simps same_session_def count_in_def)
qed

text \<open>Packets of several connections, in the order in which they enter the critical section.\<close>

definition merge_all :: "(nat \<times> packet) list \<Rightarrow> gstate \<Rightarrow> gstate" where
  "merge_all evs st = fold (\<lambda>(i, pkt). pcapsession_merger_packet_handler (Some i) pkt) evs st"

lemma merge_all_effect:
  assumes "m < length (session_list st)" "pcap_dumper (sess st m) \<noteq> 0"
    "\<forall>(i, pkt) \<in> set evs. merges_to st m i \<and> mergeable (untunnel (sess st m)) pkt"
  shows "stream_of (pcap_dumper (sess st m)) (merge_all evs st) =
      stream_of (pcap_dumper (sess st m)) st @ map (\<lambda>(_, pkt). captured (merged (untunnel (sess st m)) pkt)) evs \<and>
    faults (merge_all evs st) = faults st"
  using assms
proof (induction evs arbitrary: st)
  case Nil
  then show ?case by (simp add: merge_all_def)
next
  case (Cons ev evs)
  obtain i pkt where ev: "ev = (i, pkt)" by (cases ev)
  define st1 where "st1 = pcapsession_merger_packet_handler (Some i) pkt st"
  have h: "merges_to st m i" "mergeable (untunnel (sess st m)) pkt" using Cons.prems(3) ev by simp_all
  note e = merger_handler_effect [OF h(1) Cons.prems(1,2) h(2), folded st1_def]
  note s = same_session_simps [OF e(4)]
  have m1: "pcap_dumper (sess st1 m) = pcap_dumper (sess st m)" "untunnel (sess st1 m) = untunnel (sess st m)"
    using s Cons.prems(1) by simp_all
  have "merges_to st1 m k" if "merges_to st m k" for k
    using that s e(3) by (simp add: merges_to_def)
  then have evs: "\<forall>(i, pkt) \<in> set evs. merges_to st1 m i \<and> mergeable (untunnel (sess st1 m)) pkt"
    using Cons.prems(3) m1 by auto
  have "stream_of (pcap_dumper (sess st m)) st1 =
      stream_of (pcap_dumper (sess st m)) st @ [captured (merged (untunnel (sess st m)) pkt)]"
    using e(1) by (simp add: stream_of_def)
  moreover have "merge_all (ev # evs) st = merge_all evs st1" by (simp add: merge_all_def ev st1_def)
  ultimately show ?case
    using Cons.IH [of st1] Cons.prems e(2,3) m1 evs ev by simp
qed

section \<open>Properties\<close>

text \<open>A capture session in slot 0 and a client connection with an open dumper in slot 1.\<close>

definition dist_state :: gstate where
  "dist_state = (set_sess 1 (\<lambda>s. s\<lparr>sid := 1, state := 4, runner := Some Clientconn,
       stopper := Some Clientconn, fd := 7, pcap_dumper := 9\<rparr>)
     (set_sess 0 (\<lambda>s. s\<lparr>state := 4, runner := Some Livecapture, stopper := Some Livecapture\<rparr>) init_gstate))
     \<lparr>clientconnlist := (replicate 128 None)[1 := Some 1]\<rparr>"

lemma dist_state_sess:
  "sess dist_state 0 = zero_session\<lparr>state := 4, runner := Some Livecapture, stopper := Some Livecapture\<rparr>"
  "sess dist_state 1 = zero_session\<lparr>sid := 1, state := 4, runner := Some Clientconn,
     stopper := Some Clientconn, fd := 7, pcap_dumper := 9\<rparr>"
  "\<And>i. 1 < i \<Longrightarrow> i < 128 \<Longrightarrow> sess dist_state i = zero_session"
  "clientconnlist dist_state = (replicate 128 None)[1 := Some 1]"
  by (simp_all add: dist_state_def set_sess_def init_gstate_def)

lemma dist_state_delivers: "delivers (\<lambda>_. 0) dist_state i \<longleftrightarrow> i = 1" if "i < 128"
  using that dist_state_sess by (auto simp: delivers_def listed_def nth_list_update)

lemma dist_state_ok: "conns_ok dist_state"
proof -
  have c: "i = 0 \<or> i = 1 \<or> 1 < i" for i :: nat by linarith
  have "session_ok i (sess dist_state i)" if "i < 128" "state (sess dist_state i) \<noteq> 0" for i
    using c [of i] that dist_state_sess by (auto simp: session_ok_def zero_session_def)
  then show ?thesis
    using dist_state_sess
    by (auto simp: conns_ok_def sessions_ok_def tables_ok_def dump_list_ok_def nth_list_update dist_state_def
        set_sess_def init_gstate_def)
qed

lemma quiet_polls: "polls (\<lambda>_. 0) quiet_os"
  by (simp add: polls_def quiet_os_def)

lemma sample_whole: "whole (\<lparr>ts_sec = 1, ts_usec = 2, caplen = 3, pkt_len = 60\<rparr>, [1, 2, 3])"
  by (simp add: whole_def)

text \<open>
  C11: distribution of one packet. Handing a captured packet to the client connections dumps it to
  exactly those connections that are on the list, running and have an open descriptor, once each and in
  the order of their indices; a listed running connection whose descriptor is closed is taken off the
  list; no other entry of the list changes and nothing undefined happens.
\<close>

theorem distribution_exact:
  assumes "sessions_ok st" and "dump_list_ok st" and "polls p os" and "whole pkt" and "i < 128"
  shows "dumped (hist (pcapsession_clientconn_packet_handler os (Some i) pkt st)) =
      rev (map (\<lambda>j. (pcap_dumper (sess st j), captured pkt)) (filter (delivers p st) [0..<128])) @ dumped (hist st) \<and>
    faults (pcapsession_clientconn_packet_handler os (Some i) pkt st) = faults st \<and>
    (\<forall>j < 128. clientconnlist (pcapsession_clientconn_packet_handler os (Some i) pkt st) ! j =
      (if lost p st j then None else clientconnlist st ! j))"
proof -
  have "conns_ok st" using assms by (simp add: conns_ok_def)
  then show ?thesis using packet_handler_effect [OF _ assms(3-5)] by simp
qed

theorem distribution_exact_witness:
  "dumped (hist (pcapsession_clientconn_packet_handler quiet_os (Some 0)
     (\<lparr>ts_sec = 1, ts_usec = 2, caplen = 3, pkt_len = 60\<rparr>, [1, 2, 3]) dist_state)) =
   [(9, (\<lparr>ts_sec = 1, ts_usec = 2, caplen = 3, pkt_len = 60\<rparr>, [1, 2, 3]))]"
proof -
  have f: "filter (delivers (\<lambda>_. 0) dist_state) [0..<128] = [1]"
    using filter_eq_single [of "[0..<128]" "1 :: nat"] dist_state_delivers
    by (subst filter_cong [OF refl, where Q = "\<lambda>j. j = 1"]) auto
  have h: "hist dist_state = []" by (simp add: dist_state_def init_gstate_def set_sess_def)
  show ?thesis
    using distribution_exact [OF _ _ quiet_polls sample_whole, of dist_state 0] dist_state_ok f h
    by (simp add: conns_ok_def dist_state_sess captured_def del: One_nat_def)
qed

text \<open>
  C3: distribution of a stream. However many packets the capture loop hands over, a client connection
  that is running, open and the only one writing to its dumper is sent exactly these packets: none is
  lost, repeated or reordered, and each carries its captured octets. No fault occurs.
\<close>

theorem distribution_streams:
  assumes "sessions_ok st" and "dump_list_ok st" and "polls p os" and "\<forall>pkt \<in> set pkts. whole pkt"
    and "i < 128" and "j < 128" and "sole_dumper p st j"
  shows "stream_of (pcap_dumper (sess st j)) (pcap_loop (pcapsession_clientconn_packet_handler os (Some i)) pkts st) =
      stream_of (pcap_dumper (sess st j)) st @ map captured pkts \<and>
    faults (pcap_loop (pcapsession_clientconn_packet_handler os (Some i)) pkts st) = faults st"
  using loop_stream [OF _ assms(3-7)] assms(1,2) by (simp add: conns_ok_def)

theorem distribution_streams_witness:
  "map snd (stream_of 9 (pcap_loop (pcapsession_clientconn_packet_handler quiet_os (Some 0))
     [(\<lparr>ts_sec = 1, ts_usec = 2, caplen = 3, pkt_len = 60\<rparr>, [1, 2, 3]),
      (\<lparr>ts_sec = 1, ts_usec = 9, caplen = 2, pkt_len = 2\<rparr>, [4, 5])] dist_state)) = [[1, 2, 3], [4, 5]]"
proof -
  have d: "sole_dumper (\<lambda>_. 0) dist_state 1"
    using dist_state_delivers by (simp add: sole_dumper_def)
  have "stream_of 9 dist_state = []"
    by (simp add: stream_of_def dist_state_def init_gstate_def set_sess_def)
  then show ?thesis
    using distribution_streams [OF _ _ quiet_polls _ _ _ d, of
      "[(\<lparr>ts_sec = 1, ts_usec = 2, caplen = 3, pkt_len = 60\<rparr>, [1, 2, 3]),
        (\<lparr>ts_sec = 1, ts_usec = 9, caplen = 2, pkt_len = 2\<rparr>, [4, 5])]" 0] dist_state_ok dist_state_sess(2)
    by (simp add: conns_ok_def whole_def captured_def del: One_nat_def)
qed

text \<open>
  Merging. Packets that arrive from any number of server connections of an open merger are written
  to the merged file in the order in which they enter the critical section, each exactly once, as they
  were or untunnelled as the merger is configured; so the packets of one connection keep their order.
  No fault occurs.
\<close>

theorem merger_interleaves:
  assumes "m < length (session_list st)" and "pcap_dumper (sess st m) \<noteq> 0"
    and "\<forall>(i, pkt) \<in> set evs. merges_to st m i \<and> mergeable (untunnel (sess st m)) pkt"
  shows "stream_of (pcap_dumper (sess st m)) (merge_all evs st) =
      stream_of (pcap_dumper (sess st m)) st @ map (\<lambda>(_, pkt). captured (merged (untunnel (sess st m)) pkt)) evs \<and>
    faults (merge_all evs st) = faults st"
  by (rule merge_all_effect [OF assms])

text \<open>A merger in slot 0, writing to dumper 3, and two connections to servers.\<close>

definition merge_state :: gstate where
  "merge_state = init_gstate\<lparr>session_list :=
     zero_session\<lparr>state := 4, pcap_dumper := 3\<rparr> #
     zero_session\<lparr>sid := 1, state := 4, handler := Some 0\<rparr> #
     zero_session\<lparr>sid := 2, state := 4, handler := Some 0\<rparr> # replicate 125 zero_session\<rparr>"

theorem merger_interleaves_witness:
  "map snd (stream_of 3 (merge_all
     [(1, (\<lparr>ts_sec = 1, ts_usec = 2, caplen = 2, pkt_len = 2\<rparr>, [1, 2])),
      (2, (\<lparr>ts_sec = 1, ts_usec = 3, caplen = 1, pkt_len = 9\<rparr>, [7])),
      (1, (\<lparr>ts_sec = 1, ts_usec = 4, caplen = 1, pkt_len = 1\<rparr>, [3]))] merge_state)) = [[1, 2], [7], [3]]"
proof -
  have m: "0 < length (session_list merge_state)" "pcap_dumper (sess merge_state 0) \<noteq> 0"
    "pcap_dumper (sess merge_state 0) = 3" "untunnel (sess merge_state 0) = 0"
    "merges_to merge_state 0 1" "merges_to merge_state 0 2" "stream_of 3 merge_state = []"
    by (simp_all add: merge_state_def merges_to_def zero_session_def stream_of_def init_gstate_def)
  show ?thesis
    using merger_interleaves [OF m(1,2), of "[(1, (\<lparr>ts_sec = 1, ts_usec = 2, caplen = 2, pkt_len = 2\<rparr>, [1, 2])),
      (2, (\<lparr>ts_sec = 1, ts_usec = 3, caplen = 1, pkt_len = 9\<rparr>, [7])),
      (1, (\<lparr>ts_sec = 1, ts_usec = 4, caplen = 1, pkt_len = 1\<rparr>, [3]))]"] m
    by (simp add: mergeable_def merged_def whole_def captured_def del: One_nat_def)
qed

text \<open>
  The merger's dumper is not checked. Once the merger has been stopped, which is what session
  handling does to it before a restart, a packet that arrives from a server is dumped through a null
  pointer.
\<close>

theorem merger_dumps_to_null:
  assumes "sessions_ok st" and "m < 128" and "state (sess st m) \<noteq> 0" and "i < 128" and "handler (sess st i) = Some m"
    and "i \<noteq> m" and "untunnel (sess st m) = 0"
  shows "Null_pointer \<in> set (faults (pcapsession_merger_packet_handler (Some i) pkt
    (pcapsession_merger_stop os (Some m) st)))"
proof -
  define st' where "st' = pcapsession_merger_stop os (Some m) st"
  have s: "sid (sess st m) = int m" "tables_ok st" using assms by (auto simp: sessions_ok_def session_ok_def)
  note e = merger_stopper.stop_nth [OF s(1) assms(2) s(2), of _ os, folded st'_def]
  have "pcap_dumper (sess st' m) = 0" "untunnel (sess st' m) = 0" "handler (sess st' i) = Some m"
    using e [OF assms(2)] e [OF assms(4)] assms(5-7) by (simp_all add: after_stop_def)
  then have "faults (pcapsession_merger_packet_handler (Some i) pkt st') = Null_pointer # faults st'"
    by (simp add: pcapsession_merger_packet_handler_def merger_untunnel_def pcap_dump_def fault_at_def set_sess_def)
  then show ?thesis by (simp add: st'_def)
qed

theorem merger_dumps_to_null_witness:
  "Null_pointer \<in> set (faults (pcapsession_merger_packet_handler (Some 1)
    (\<lparr>ts_sec = 1, ts_usec = 2, caplen = 2, pkt_len = 2\<rparr>, [1, 2])
    (pcapsession_merger_stop quiet_os (Some 0)
      (set_sess 1 (\<lambda>s. s\<lparr>handler := Some 0\<rparr>) dist_state))))"
proof -
  define st where "st = set_sess 1 (\<lambda>s. s\<lparr>handler := Some 0\<rparr>) dist_state"
  have l: "length (session_list dist_state) = 128"
    using dist_state_ok by (simp add: conns_ok_def sessions_ok_def tables_ok_def)
  have n: "sess st i = (if i = 1 then (sess dist_state 1)\<lparr>handler := Some 0\<rparr> else sess dist_state i)" if "i < 128" for i
    using that l by (simp add: st_def set_sess_def)
  have "sessions_ok st"
    using dist_state_ok n
    by (simp add: conns_ok_def sessions_ok_def session_ok_def tables_ok_def st_def sess_simps)
  then have "Null_pointer \<in> set (faults (pcapsession_merger_packet_handler (Some 1)
      (\<lparr>ts_sec = 1, ts_usec = 2, caplen = 2, pkt_len = 2\<rparr>, [1, 2]) (pcapsession_merger_stop quiet_os (Some 0) st)))"
    by (rule merger_dumps_to_null)
      (use n [of 0] n [of 1] dist_state_sess(1) in \<open>simp_all add: zero_session_def\<close>)
  then show ?thesis by (simp only: st_def)
qed

end
