(* ===== verification/Session_Run.thy ===== *)
theory Session_Run
  imports Session_Packets
begin

text \<open>
  The functions that run as the thread of a session, one per kind. A run is followed from its start to
  its return; the state changes of other threads are the other operations of the development, before
  and after it. Which packets a capture handle delivers and what a directory lists are parameters, the
  record \<open>capture_env\<close>; loops that may run forever take fuel and return \<open>None\<close> when it is used up.
\<close>

section \<open>Environment\<close>

record capture_env =
  captures :: "call list \<Rightarrow> int \<Rightarrow> packet list"
  entries :: "call list \<Rightarrow> string \<Rightarrow> string list option"

text \<open>\<open>pcap_loop\<close> and \<open>pcap_close\<close> of libpcap, which do not accept a null handle.\<close>

definition loop_on :: "capture_env \<Rightarrow> (packet \<Rightarrow> gstate \<Rightarrow> gstate) \<Rightarrow> int \<Rightarrow> gstate \<Rightarrow> gstate" where
  "loop_on env h handle st =
     (if handle = 0 then fault_at Null_pointer st
      else pcap_loop h (captures env (hist st) handle) (ext_do (Pcap_loop handle) st))"

definition close_on :: "int \<Rightarrow> gstate \<Rightarrow> gstate" where
  "close_on handle st = (if handle = 0 then fault_at Null_pointer st else ext_do (Pcap_close handle) st)"

text \<open>\<open>session->monitor = monitor_open (...)\<close>; the time is read only when the file's clock is not set.\<close>

definition open_monitor :: "os \<Rightarrow> source_file \<Rightarrow> nat \<Rightarrow> gstate \<Rightarrow> gstate" where
  "open_monitor os f i st =
     (let (now, st) = (if clocks st f = 0 then ext os Time st else (0, st));
          (m, clocks') = monitor_open f now (sid (sess st i)) (description (sess st i)) (clocks st)
      in (set_sess i (\<lambda>s. s\<lparr>mon := Some m\<rparr>) st)\<lparr>clocks := clocks'\<rparr>)"

section \<open>The acceptor of the server\<close>

fun server_loop :: "os \<Rightarrow> nat \<Rightarrow> nat \<Rightarrow> gstate \<Rightarrow> gstate option" where
  "server_loop os 0 i st = None"
| "server_loop os (Suc fuel) i st =
     (if state (sess st i) \<noteq> PCAP_SESSION_RUNNING then Some st
      else let (result, st) =
             poll_server_socket os (fd (sess st i)) (Some pcapsession_clientconn_open) (Some 200) st in
        if result \<le> 0 then
          let st = pcapsession_change_state (sid (sess st i)) PCAP_SESSION_TERMINATE st in
          if result < 0 then Some st else server_loop os fuel i st
        else server_loop os fuel i st)"

definition pcapsession_server_run :: "os \<Rightarrow> nat \<Rightarrow> nat option \<Rightarrow> gstate \<Rightarrow> gstate option" where
  "pcapsession_server_run os fuel p st =
     (case p of None \<Rightarrow> Some st
      | Some i \<Rightarrow> server_loop os fuel i
          (pcapsession_change_state (sid (sess st i)) PCAP_SESSION_RUNNING st))"

section \<open>Client connections and the merger\<close>

text \<open>
  The dead handle that \<open>pcap_dump_fopen\<close> and \<open>pcap_dump_open\<close> need is closed before the result is
  looked at, and the error message then reads from it.
\<close>

definition geterr_closed :: "int \<Rightarrow> gstate \<Rightarrow> gstate" where
  "geterr_closed handle st = fault_at (if handle = 0 then Null_pointer else Use_after_free) st"

definition pcapsession_clientconn_run :: "os \<Rightarrow> nat option \<Rightarrow> gstate \<Rightarrow> gstate" where
  "pcapsession_clientconn_run os p st =
     (case p of None \<Rightarrow> st
      | Some i \<Rightarrow>
          let st = pcapsession_change_state (sid (sess st i)) PCAP_SESSION_RUNNING st;
              st = open_monitor os F_clientconn i st;
              (dead, st) = ext os Pcap_open_dead st;
              (client_fd, st) = ext os (Fdopen (fd (sess st i))) st;
              (d, st) = ext os (Pcap_dump_fopen dead client_fd) st;
              st = set_sess i (\<lambda>s. s\<lparr>pcap_dumper := d\<rparr>) st;
              st = (if dead \<noteq> 0 then ext_do (Pcap_close dead) st else st) in
          if pcap_dumper (sess st i) = 0 then
            pcapsession_change_state (sid (sess st i)) PCAP_SESSION_TERMINATE (geterr_closed dead st)
          else set_conn (sid (sess st i)) (Some i) st)"

definition pcapsession_merger_run :: "os \<Rightarrow> nat option \<Rightarrow> gstate \<Rightarrow> gstate" where
  "pcapsession_merger_run os p st =
     (case p of None \<Rightarrow> st
      | Some i \<Rightarrow>
          let st = pcapsession_change_state (sid (sess st i)) PCAP_SESSION_RUNNING st;
              st = open_monitor os F_merger i st;
              (dead, st) = ext os Pcap_open_dead st;
              (d, st) = ext os (Pcap_dump_open dead (description (sess st i))) st;
              st = set_sess i (\<lambda>s. s\<lparr>pcap_dumper := d\<rparr>) st;
              st = (if dead \<noteq> 0 then ext_do (Pcap_close dead) st else st) in
          if pcap_dumper (sess st i) = 0 then
            pcapsession_change_state (sid (sess st i)) PCAP_SESSION_TERMINATE (geterr_closed dead st)
          else let (f, st) = ext os (Pcap_dump_fileno (pcap_dumper (sess st i))) st
            in set_sess i (\<lambda>s. s\<lparr>fd := f\<rparr>) st)"

definition pcapsession_client_run :: "os \<Rightarrow> capture_env \<Rightarrow> nat option \<Rightarrow> gstate \<Rightarrow> gstate" where
  "pcapsession_client_run os env p st =
     (case p of None \<Rightarrow> st
      | Some i \<Rightarrow>
          let st = pcapsession_change_state (sid (sess st i)) PCAP_SESSION_RUNNING st;
              (f, st) = ext os Socket st;
              st = set_sess i (\<lambda>s. s\<lparr>fd := f\<rparr>) st in
          if fd (sess st i) < 0
            then pcapsession_change_state (sid (sess st i)) PCAP_SESSION_TERMINATE st
          else let (rc, st) = ext os (Connect (fd (sess st i))) st in
          if rc < 0 then pcapsession_change_state (sid (sess st i)) PCAP_SESSION_TERMINATE st
          else
            let st = open_monitor os F_client i st;
                (server_fd, st) = ext os (Fdopen (fd (sess st i))) st;
                (h, st) = ext os (Pcap_fopen_offline server_fd) st;
                st = set_sess i (\<lambda>s. s\<lparr>pcap_handle := h\<rparr>) st in
            if pcap_handle (sess st i) = 0
              then pcapsession_change_state (sid (sess st i)) PCAP_SESSION_TERMINATE st
            else
              let st = loop_on env (pcapsession_merger_packet_handler (Some i)) (pcap_handle (sess st i)) st
              in pcapsession_change_state (sid (sess st i)) PCAP_SESSION_TERMINATE st)"

section \<open>Captures\<close>

definition pcapsession_livecapture_run :: "os \<Rightarrow> capture_env \<Rightarrow> nat option \<Rightarrow> gstate \<Rightarrow> gstate" where
  "pcapsession_livecapture_run os env p st =
     (case p of None \<Rightarrow> st
      | Some i \<Rightarrow>
          let st = pcapsession_change_state (sid (sess st i)) PCAP_SESSION_RUNNING st;
              st = open_monitor os F_livecapture i st;
              st = loop_on env (pcapsession_clientconn_packet_handler os (Some i)) (pcap_handle (sess st i)) st;
              st = close_on (pcap_handle (sess st i)) st;
              st = set_sess i (\<lambda>s. s\<lparr>pcap_handle := 0\<rparr>) st
          in pcapsession_change_state (sid (sess st i)) PCAP_SESSION_TERMINATE st)"

text \<open>
  \<open>strstr\<close> and then \<open>strcmp\<close> with the file type: the first occurrence of \<open>.pcap\<close> must end the name.
\<close>

fun strstr :: "string \<Rightarrow> string \<Rightarrow> string option" where
  "strstr [] t = (if t = [] then Some [] else None)"
| "strstr (c # s) t = (if take (length t) (c # s) = t then Some (c # s) else strstr s t)"

definition is_pcap_file :: "string \<Rightarrow> bool" where
  "is_pcap_file d_name \<longleftrightarrow> strstr d_name ''.pcap'' = Some ''.pcap''"

text \<open>
  The inner loop over the entries of the directory: whether a file could not be opened, the number of
  capture files and the state. A path that does not fit its buffer is an overflow.
\<close>

definition file_path :: "nat \<Rightarrow> string \<Rightarrow> gstate \<Rightarrow> string \<times> gstate" where
  "file_path i d_name st =
     (let path = description (sess st i) @ ''/'' @ d_name in
      (path, case str_into FILENAME_MAX path of Inl f \<Rightarrow> fault_at f st | Inr _ \<Rightarrow> st))"

fun stream_entries :: "os \<Rightarrow> capture_env \<Rightarrow> nat \<Rightarrow> string list \<Rightarrow> nat \<Rightarrow> gstate \<Rightarrow> bool \<times> nat \<times> gstate" where
  "stream_entries os env i [] pcap_file_count st = (False, pcap_file_count, st)"
| "stream_entries os env i (d_name # es) pcap_file_count st =
     (if \<not> is_pcap_file d_name then stream_entries os env i es pcap_file_count st
      else
        let (path, st) = file_path i d_name st;
            (h, st) = ext os (Pcap_open_offline path) st;
            st = set_sess i (\<lambda>s. s\<lparr>pcap_handle := h\<rparr>) st in
        if pcap_handle (sess st i) = 0 then
          (True, pcap_file_count + 1,
           ext_do Closedir (pcapsession_change_state (sid (sess st i)) PCAP_SESSION_TERMINATE st))
        else
          let (f, st) = ext os (Pcap_get_selectable_fd (pcap_handle (sess st i))) st;
              st = set_sess i (\<lambda>s. s\<lparr>fd := f, supervise_fd := PCAP_SESSION_SUPERVISED_FD\<rparr>) st;
              st = loop_on env (pcapsession_clientconn_packet_handler os (Some i)) (pcap_handle (sess st i)) st;
              st = set_sess i (\<lambda>s. s\<lparr>supervise_fd := PCAP_SESSION_UNSUPERVISED_FD, fd := 0\<rparr>) st;
              st = close_on (pcap_handle (sess st i)) st;
              st = set_sess i (\<lambda>s. s\<lparr>pcap_handle := 0\<rparr>) st
          in stream_entries os env i es (pcap_file_count + 1) st)"

definition count_iteration :: "session \<Rightarrow> session" where
  "count_iteration s =
     (if iterations s \<noteq> PCAP_SESSION_ITERATE_INFINITY \<and> iterations s \<noteq> 0
      then s\<lparr>iterations := iterations s - 1\<rparr> else s)"

fun filecapture_loop :: "os \<Rightarrow> capture_env \<Rightarrow> nat \<Rightarrow> nat \<Rightarrow> gstate \<Rightarrow> gstate option" where
  "filecapture_loop os env 0 i st = None"
| "filecapture_loop os env (Suc fuel) i st =
     (let st = set_sess i count_iteration st;
          listing = entries env (hist st) (description (sess st i));
          st = ext_do (Opendir (description (sess st i))) st in
      case listing of
        None \<Rightarrow> Some (pcapsession_change_state (sid (sess st i)) PCAP_SESSION_TERMINATE st)
      | Some es \<Rightarrow>
          let (failed, pcap_file_count, st) = stream_entries os env i es 0 st in
          if failed then Some st
          else
            let st = ext_do Closedir st in
            if iterations (sess st i) \<noteq> 0 \<and> pcap_file_count > 0 then filecapture_loop os env fuel i st
            else Some (pcapsession_change_state (sid (sess st i)) PCAP_SESSION_TERMINATE st))"

definition pcapsession_filecapture_run ::
    "os \<Rightarrow> capture_env \<Rightarrow> nat \<Rightarrow> nat option \<Rightarrow> gstate \<Rightarrow> gstate option" where
  "pcapsession_filecapture_run os env fuel p st =
     (case p of None \<Rightarrow> Some st
      | Some i \<Rightarrow>
          let st = pcapsession_change_state (sid (sess st i)) PCAP_SESSION_RUNNING st;
              st = open_monitor os F_filecapture i st
          in filecapture_loop os env fuel i st)"

section \<open>Lemmas on the acceptor\<close>

lemma poll_server_socket_accepts:
  assumes "0 < f" "0 \<le> os (hist st) (Accept f)"
  defines "a \<equiv> os (hist st) (Accept f)" and "st1 \<equiv> st\<lparr>hist := Accept f # hist st\<rparr>"
  shows "poll_server_socket os f (Some cb) (Some 200) st =
    (let (r, st2) = cb a zero_sockaddr st1 in if r \<le> 0 then (r, ext_do (Close a) st2) else (r, st2))"
  unfolding a_def st1_def using assms(1,2) by (simp add: poll_server_socket_def errbuf_ok_def ext_def)

lemma hist_frame [sess_simps]:
  "tables_ok (st\<lparr>hist := h\<rparr>) = tables_ok st" "used (st\<lparr>hist := h\<rparr>) = used st"
  by (simp_all add: tables_ok_def used_def)

lemma clientconn_open_result:
  assumes "tables_ok st"
  shows "fst (pcapsession_clientconn_open f addr st) = (if card (used st) < 128 then 1 else 0)"
proof (cases "card (used st) < 128")
  case True
  then show ?thesis using clientconn_open_succeeds [OF assms] by simp
next
  case False
  then show ?thesis using clientconn_open_iff [OF assms, of f addr] by simp
qed

text \<open>One accepted connection while the table has room, and one when it is full.\<close>

lemma server_loop_accepts:
  assumes t: "tables_ok st" and i: "i < 128" and s: "state (sess st i) = 4" "0 < fd (sess st i)"
    and a: "\<forall>h. 0 \<le> os h (Accept (fd (sess st i)))" and room: "card (used st) < 128"
  shows "\<exists>st'. server_loop os (Suc fuel) i st = server_loop os fuel i st' \<and> tables_ok st' \<and>
    sess st' i = sess st i \<and> card (used st') = card (used st) + 1"
proof -
  define h where "h = Accept (fd (sess st i)) # hist st"
  define st' where "st' = snd (pcapsession_clientconn_open (os (hist st) (Accept (fd (sess st i)))) zero_sockaddr
    (st\<lparr>hist := h\<rparr>))"
  have t1: "tables_ok (st\<lparr>hist := h\<rparr>)" using t by (simp add: sess_simps)
  have r: "fst (pcapsession_clientconn_open c zero_sockaddr (st\<lparr>hist := h\<rparr>)) = 1" for c
    using clientconn_open_result [OF t1] room by (simp add: sess_simps)
  have "server_loop os (Suc fuel) i st = server_loop os fuel i st'"
    using s a r by (simp add: poll_server_socket_accepts h_def [symmetric] split_def st'_def)
  moreover have "keeps_used (st\<lparr>hist := h\<rparr>) st'"
    using clientconn_opener.opener_keeps [OF t1] by (simp add: st'_def succeeds_def)
  moreover have "card (used st') = card (used st) + 1"
    using clientconn_opener.opener_used [OF t1] r by (simp add: st'_def succeeds_def sess_simps)
  ultimately show ?thesis using i s by (auto simp: keeps_used_def)
qed

lemma server_loop_full:
  assumes t: "tables_ok st" and i: "i < 128" and s: "state (sess st i) = 4" "0 < fd (sess st i)" "sid (sess st i) = int i"
    and a: "\<forall>h. 0 \<le> os h (Accept (fd (sess st i)))" and full: "\<not> card (used st) < 128"
  shows "\<exists>st'. server_loop os (Suc (Suc fuel)) i st = Some st' \<and> tables_ok st' \<and>
    sess st' i = (sess st i)\<lparr>state := 5\<rparr> \<and> used st' = used st"
proof -
  define h where "h = Accept (fd (sess st i)) # hist st"
  define c where "c = os (hist st) (Accept (fd (sess st i)))"
  define st1 where "st1 = snd (pcapsession_clientconn_open c zero_sockaddr (st\<lparr>hist := h\<rparr>))"
  define st' where "st' = pcapsession_change_state (sid (sess st1 i)) 5 (ext_do (Close c) st1)"
  have t1: "tables_ok (st\<lparr>hist := h\<rparr>)" using t by (simp add: sess_simps)
  have r: "fst (pcapsession_clientconn_open c zero_sockaddr (st\<lparr>hist := h\<rparr>)) = 0"
    using clientconn_open_result [OF t1] full by (simp add: sess_simps)
  have n: "not_opened (st\<lparr>hist := h\<rparr>) st1"
    using clientconn_opener.opener_failure [OF t1] r by (simp add: st1_def succeeds_def)
  then have k: "tables_ok st1" "sess st1 i = sess st i" "\<forall>j < 128. state (sess st1 j) = 0 \<longleftrightarrow> state (sess st j) = 0"
    using i s by (auto simp: not_opened_def keeps_used_def)
  have st': "st' = set_sess i (\<lambda>s. s\<lparr>state := 5\<rparr>) (ext_do (Close c) st1)"
    using k(2) s(3) i by (simp add: st'_def sess_simps)
  have l: "length (session_list st1) = 128" "length (clientconnlist st1) = 128"
    using k(1) by (simp_all add: tables_ok_def)
  have "0 \<le> c" using a by (simp add: c_def)
  then have p: "poll_server_socket os (fd (sess st i)) (Some pcapsession_clientconn_open) (Some 200) st =
      (0, ext_do (Close c) st1)"
    using s(2) a r poll_server_socket_accepts [of "fd (sess st i)" os st pcapsession_clientconn_open]
    by (simp add: h_def [symmetric] c_def [symmetric] split_def st1_def [symmetric])
  have "server_loop os (Suc (Suc fuel)) i st = server_loop os (Suc fuel) i st'"
    unfolding server_loop.simps(2) [of os "Suc fuel"] using s(1)
    by (simp add: p st'_def sess_simps del: server_loop.simps)
  also have "\<dots> = Some st'" using st' l i k(2) by (simp add: sess_simps)
  finally have "server_loop os (Suc (Suc fuel)) i st = Some st'" .
  moreover have "used st' = used st"
    using k(2,3) i s(1) l by (auto simp: st' used_def sess_simps split: if_splits)
  ultimately show ?thesis using st' l k(2) i by (simp add: tables_ok_def sess_simps)
qed

lemma server_loop_fills:
  assumes "tables_ok st" "i < 128" "state (sess st i) = 4" "0 < fd (sess st i)" "sid (sess st i) = int i"
    "\<forall>h. 0 \<le> os h (Accept (fd (sess st i)))" "card (used st) + n = 128"
  shows "\<exists>st'. server_loop os (n + 2) i st = Some st' \<and> sess st' i = (sess st i)\<lparr>state := 5\<rparr> \<and> card (used st') = 128"
  using assms
proof (induction n arbitrary: st)
  case 0
  then show ?case using server_loop_full [of st i os 0, OF 0(1-6)] by (auto simp: numeral_2_eq_2)
next
  case (Suc n)
  obtain st1 where st1: "server_loop os (Suc (n + 2)) i st = server_loop os (n + 2) i st1" "tables_ok st1"
      "sess st1 i = sess st i" "card (used st1) = card (used st) + 1"
    using server_loop_accepts [of st i os "n + 2", OF Suc.prems(1-4,6)] Suc.prems(7) by auto
  then show ?case using Suc.IH [of st1] Suc.prems by simp
qed

section \<open>Lemmas on file capture\<close>

text \<open>
  A capture session \<open>i\<close> that is not itself a client, and a client connection \<open>j\<close> that receives what it
  captures.
\<close>

definition streaming :: "(int \<Rightarrow> int) \<Rightarrow> nat \<Rightarrow> nat \<Rightarrow> gstate \<Rightarrow> bool" where
  "streaming p i j st \<longleftrightarrow> conns_ok st \<and> i < 128 \<and> j < 128 \<and> i \<noteq> j \<and> clientconnlist st ! i = None \<and>
     state (sess st i) \<noteq> 0 \<and> sole_dumper p st j"

lemma streaming_hist [simp]: "streaming p i j (st\<lparr>hist := h\<rparr>) = streaming p i j st"
  by (simp add: streaming_def conns_ok_def sessions_ok_def tables_ok_def dump_list_ok_def sole_dumper_def
      delivers_def listed_def)

lemma streaming_clocks [simp]: "streaming p i j (st\<lparr>clocks := c\<rparr>) = streaming p i j st"
  by (simp add: streaming_def conns_ok_def sessions_ok_def tables_ok_def dump_list_ok_def sole_dumper_def
      delivers_def listed_def)

lemma streaming_ext_do [simp]: "streaming p i j (ext_do c st) = streaming p i j st"
  by (simp add: ext_do_def)

lemma streaming_update:
  assumes "streaming p i j st"
    and f: "state (f (sess st i)) \<noteq> 0" "sid (f (sess st i)) = sid (sess st i)"
      "runner (f (sess st i)) = runner (sess st i)" "stopper (f (sess st i)) = stopper (sess st i)"
  shows "streaming p i j (set_sess i f st)" "sess (set_sess i f st) i = f (sess st i)"
    "sess (set_sess i f st) j = sess st j"
proof -
  have l: "length (session_list st) = 128" and i: "i < 128" "j < 128" "i \<noteq> j"
    using assms(1) by (simp_all add: streaming_def conns_ok_def sessions_ok_def tables_ok_def)
  have n: "sess (set_sess i f st) k = (if k = i then f (sess st k) else sess st k)" if "k < 128" for k
    using that l by (simp add: set_sess_def)
  show "sess (set_sess i f st) i = f (sess st i)" "sess (set_sess i f st) j = sess st j" using n i by simp_all
  have a: "sessions_ok (set_sess i f st)"
    using assms n by (auto simp: streaming_def conns_ok_def sessions_ok_def tables_ok_def session_ok_def sess_simps)
  have b: "dump_list_ok (set_sess i f st)"
    using assms n by (auto simp: streaming_def conns_ok_def dump_list_ok_def sess_simps)
  have d: "delivers p (set_sess i f st) k = delivers p st k" if "k < 128" for k
    using assms(1) n [OF that] by (cases "k = i") (simp_all add: delivers_def listed_def sess_simps streaming_def)
  have "sole_dumper p (set_sess i f st) j"
    using assms(1) d n i unfolding streaming_def sole_dumper_def
    by (metis delivers_def listed_def sess_simps(4))
  then show "streaming p i j (set_sess i f st)"
    using a b assms n i by (simp add: streaming_def conns_ok_def sess_simps)
qed

lemma streaming_used: "streaming p i j st \<Longrightarrow> state (sess st i) \<noteq> 0"
  by (simp add: streaming_def)

lemma loop_same:
  assumes "conns_ok st" "polls p os" "\<forall>pkt \<in> set pkts. whole pkt" "i < 128"
  shows "same_table st (pcap_loop (pcapsession_clientconn_packet_handler os (Some i)) pkts st) \<and>
    (\<forall>k < 128. delivers p (pcap_loop (pcapsession_clientconn_packet_handler os (Some i)) pkts st) k = delivers p st k)"
  using assms
proof (induction pkts arbitrary: st)
  case Nil
  then show ?case by simp
next
  case (Cons pkt pkts)
  have w: "whole pkt" "\<forall>q \<in> set pkts. whole q" using Cons.prems(3) by simp_all
  note e = packet_handler_effect(3) [OF Cons.prems(1,2) w(1) Cons.prems(4)]
  show ?case
    using Cons.IH [OF same_table_conns_ok [OF Cons.prems(1) e] Cons.prems(2) w(2) Cons.prems(4)]
      same_table_trans [OF e] handler_delivers(1) [OF Cons.prems(1,2) w(1) Cons.prems(4)]
    by simp
qed

lemma streaming_loop:
  assumes "streaming p i j st" "polls p os" "\<forall>pkt \<in> set pkts. whole pkt"
  defines "st' \<equiv> pcap_loop (pcapsession_clientconn_packet_handler os (Some i)) pkts st"
  shows "streaming p i j st'" "same_session (sess st i) (sess st' i)"
    "pcap_dumper (sess st' j) = pcap_dumper (sess st j)"
    "stream_of (pcap_dumper (sess st j)) st' = stream_of (pcap_dumper (sess st j)) st @ map captured pkts"
    "faults st' = faults st"
proof -
  have s: "conns_ok st" "i < 128" "j < 128" "i \<noteq> j" "clientconnlist st ! i = None" "state (sess st i) \<noteq> 0"
    "sole_dumper p st j" using assms(1) by (simp_all add: streaming_def)
  note l = loop_same [OF s(1) assms(2,3) s(2), folded st'_def]
  have t: "same_session (sess st k) (sess st' k)" if "k < 128" for k
    using l that by (simp add: same_table_def)
  show "same_session (sess st i) (sess st' i)" "pcap_dumper (sess st' j) = pcap_dumper (sess st j)"
    using t s same_session_simps(4) [OF t] by simp_all
  show "stream_of (pcap_dumper (sess st j)) st' = stream_of (pcap_dumper (sess st j)) st @ map captured pkts"
    "faults st' = faults st"
    using loop_stream [OF s(1) assms(2,3) s(2,3,7)] by (simp_all add: st'_def)
  have "sole_dumper p st' j"
    using s l same_session_simps(4) [OF t] by (simp add: sole_dumper_def)
  moreover have "conns_ok st'" using same_table_conns_ok [OF s(1)] l by blast
  moreover have "clientconnlist st' ! i = None" using l s by (auto simp: same_table_def)
  ultimately show "streaming p i j st'"
    using s same_session_simps(1) [OF t] by (simp add: streaming_def)
qed

text \<open>
  A directory \<open>dir\<close> that lists the names \<open>es\<close> whenever it is read, whose capture files can be opened and
  deliver the packets \<open>pk\<close>.
\<close>

definition steady_file :: "os \<Rightarrow> capture_env \<Rightarrow> string \<Rightarrow> (string \<Rightarrow> packet list) \<Rightarrow> string \<Rightarrow> bool" where
  "steady_file os env dir pk n \<longleftrightarrow> length (dir @ ''/'' @ n) < 4096 \<and> (\<forall>q \<in> set (pk n). whole q) \<and>
     (\<exists>hd. hd \<noteq> 0 \<and> (\<forall>h. os h (Pcap_open_offline (dir @ ''/'' @ n)) = hd \<and> captures env h hd = pk n))"

definition steady_directory ::
    "os \<Rightarrow> capture_env \<Rightarrow> string \<Rightarrow> string list \<Rightarrow> (string \<Rightarrow> packet list) \<Rightarrow> bool" where
  "steady_directory os env dir es pk \<longleftrightarrow> (\<forall>h. entries env h dir = Some es) \<and>
     (\<forall>n \<in> set (filter is_pcap_file es). steady_file os env dir pk n)"

text \<open>Everything a step of the file capture keeps of its session.\<close>

definition capturing :: "session \<Rightarrow> session \<Rightarrow> bool" where
  "capturing s s' \<longleftrightarrow> description s' = description s \<and> iterations s' = iterations s \<and> sid s' = sid s \<and>
     state s' = state s"

lemma stream_one_file:
  assumes st: "streaming p i j st" and p: "polls p os" and n: "is_pcap_file n"
    and f: "steady_file os env (description (sess st i)) pk n"
  shows "\<exists>st'. stream_entries os env i (n # es) c st = stream_entries os env i es (c + 1) st' \<and>
    streaming p i j st' \<and> capturing (sess st i) (sess st' i) \<and>
    pcap_dumper (sess st' j) = pcap_dumper (sess st j) \<and> faults st' = faults st \<and>
    stream_of (pcap_dumper (sess st j)) st' = stream_of (pcap_dumper (sess st j)) st @ map captured (pk n)"
proof -
  define path where "path = description (sess st i) @ ''/'' @ n"
  obtain hd where hd: "hd \<noteq> 0" "\<And>h. os h (Pcap_open_offline path) = hd" "\<And>h. captures env h hd = pk n"
    using f by (auto simp: steady_file_def path_def)
  have w: "\<forall>q \<in> set (pk n). whole q" and len: "length path < 4096"
    using f by (simp_all add: steady_file_def path_def)
  have path: "file_path i n st = (path, st)"
    using len by (simp add: file_path_def path_def str_into_def)
  define st1 where "st1 = set_sess i (\<lambda>s. s\<lparr>pcap_handle := hd\<rparr>) (st\<lparr>hist := Pcap_open_offline path # hist st\<rparr>)"
  have s1: "streaming p i j st1" "sess st1 i = (sess st i)\<lparr>pcap_handle := hd\<rparr>" "sess st1 j = sess st j"
    using streaming_update [of p i j "st\<lparr>hist := Pcap_open_offline path # hist st\<rparr>" "\<lambda>s. s\<lparr>pcap_handle := hd\<rparr>"] st streaming_used [OF st]
    by (simp_all add: st1_def)
  define fn where "fn = os (hist st1) (Pcap_get_selectable_fd hd)"
  define st2 where "st2 = set_sess i (\<lambda>s. s\<lparr>fd := fn, supervise_fd := 1\<rparr>)
    (st1\<lparr>hist := Pcap_get_selectable_fd hd # hist st1\<rparr>)"
  have s2: "streaming p i j st2" "sess st2 i = (sess st1 i)\<lparr>fd := fn, supervise_fd := 1\<rparr>" "sess st2 j = sess st1 j"
    using streaming_update [of p i j "st1\<lparr>hist := Pcap_get_selectable_fd hd # hist st1\<rparr>"
      "\<lambda>s. s\<lparr>fd := fn, supervise_fd := 1\<rparr>"] s1(1) streaming_used [OF s1(1)] by (simp_all add: st2_def)
  define st3 where "st3 = pcap_loop (pcapsession_clientconn_packet_handler os (Some i)) (pk n) (ext_do (Pcap_loop hd) st2)"
  note s3 = streaming_loop [of p i j "ext_do (Pcap_loop hd) st2", OF _ p w, folded st3_def, simplified, OF s2(1)]
  have i3: "sess st3 i = (sess st2 i)\<lparr>mon := mon (sess st3 i)\<rparr>"
    using s3(2) by (cases "sess st3 i"; cases "sess st2 i") (simp add: same_session_def sess_simps)
  define st4 where "st4 = set_sess i (\<lambda>s. s\<lparr>supervise_fd := 0, fd := 0\<rparr>) st3"
  have s4: "streaming p i j st4" "sess st4 i = (sess st3 i)\<lparr>supervise_fd := 0, fd := 0\<rparr>" "sess st4 j = sess st3 j"
    using streaming_update [of p i j st3 "\<lambda>s. s\<lparr>supervise_fd := 0, fd := 0\<rparr>"] s3(1) streaming_used [OF s3(1)]
    by (simp_all add: st4_def)
  define st5 where "st5 = set_sess i (\<lambda>s. s\<lparr>pcap_handle := 0\<rparr>) (ext_do (Pcap_close hd) st4)"
  have s5: "streaming p i j st5" "sess st5 i = (sess st4 i)\<lparr>pcap_handle := 0\<rparr>" "sess st5 j = sess st4 j"
    using streaming_update [of p i j "ext_do (Pcap_close hd) st4" "\<lambda>s. s\<lparr>pcap_handle := 0\<rparr>"] s4(1) streaming_used [OF s4(1)]
    by (simp_all add: st5_def sess_simps)
  have h4: "pcap_handle (sess st4 i) = hd" "pcap_handle (sess st2 i) = hd" "pcap_handle (sess st1 i) = hd"
    unfolding s4(2) by (subst i3) (simp_all add: s2(2) s1(2))
  have run: "stream_entries os env i (n # es) c st = stream_entries os env i es (c + 1) st5"
    using n hd(1) h4
    by (simp add: path ext_def hd(2) st1_def [symmetric] fn_def [symmetric] st2_def [symmetric] loop_on_def hd(3)
        st3_def [symmetric] st4_def [symmetric] close_on_def st5_def [symmetric] del: stream_entries.simps(1))
  have "capturing (sess st i) (sess st5 i)"
    unfolding s5(2) s4(2) by (subst i3) (simp add: capturing_def s2(2) s1(2))
  moreover have "stream_of d st5 = stream_of d st3" "stream_of d (ext_do (Pcap_loop hd) st2) = stream_of d st" for d
    by (simp_all add: st5_def st4_def st2_def st1_def stream_of_def sess_simps)
  moreover have "faults st5 = faults st3" "faults (ext_do (Pcap_loop hd) st2) = faults st"
    by (simp_all add: st5_def st4_def st2_def st1_def sess_simps)
  ultimately show ?thesis
    using run s5(1,3) s4(3) s3(3,4,5) s2(3) s1(3) by (intro exI [of _ st5]) (simp add: sess_simps)
qed

text \<open>The packets of the capture files among the names \<open>es\<close>, in the order of the names.\<close>

definition file_packets :: "(string \<Rightarrow> packet list) \<Rightarrow> string list \<Rightarrow> packet list" where
  "file_packets pk es = map captured (concat (map pk (filter is_pcap_file es)))"

lemma stream_entries_effect:
  assumes "streaming p i j st" "polls p os"
    "\<forall>n \<in> set (filter is_pcap_file es). steady_file os env (description (sess st i)) pk n"
  shows "\<exists>st'. stream_entries os env i es c st = (False, c + length (filter is_pcap_file es), st') \<and>
    streaming p i j st' \<and> capturing (sess st i) (sess st' i) \<and>
    pcap_dumper (sess st' j) = pcap_dumper (sess st j) \<and> faults st' = faults st \<and>
    stream_of (pcap_dumper (sess st j)) st' = stream_of (pcap_dumper (sess st j)) st @ file_packets pk es"
  using assms
proof (induction es arbitrary: st c)
  case Nil
  then show ?case by (simp add: capturing_def file_packets_def)
next
  case (Cons n es)
  show ?case
  proof (cases "is_pcap_file n")
    case True
    obtain st1 where s1: "stream_entries os env i (n # es) c st = stream_entries os env i es (c + 1) st1"
        "streaming p i j st1" "capturing (sess st i) (sess st1 i)"
        "pcap_dumper (sess st1 j) = pcap_dumper (sess st j)" "faults st1 = faults st"
        "stream_of (pcap_dumper (sess st j)) st1 = stream_of (pcap_dumper (sess st j)) st @ map captured (pk n)"
      using stream_one_file [OF Cons.prems(1,2) True, of env pk es c] Cons.prems(3) True by auto
    have "\<forall>n \<in> set (filter is_pcap_file es). steady_file os env (description (sess st1 i)) pk n"
      using Cons.prems(3) s1(3) True by (simp add: capturing_def)
    then obtain st2 where "stream_entries os env i es (c + 1) st1 = (False, c + 1 + length (filter is_pcap_file es), st2)"
        "streaming p i j st2" "capturing (sess st1 i) (sess st2 i)"
        "pcap_dumper (sess st2 j) = pcap_dumper (sess st1 j)" "faults st2 = faults st1"
        "stream_of (pcap_dumper (sess st1 j)) st2 = stream_of (pcap_dumper (sess st1 j)) st1 @ file_packets pk es"
      using Cons.IH [OF s1(2) Cons.prems(2), of "c + 1"] by blast
    then show ?thesis using s1 True by (intro exI [of _ st2]) (simp add: capturing_def file_packets_def)
  next
    case False
    then show ?thesis using Cons.IH [OF Cons.prems(1,2), of c] Cons.prems(3)
      by (simp add: file_packets_def)
  qed
qed

text \<open>One pass over the directory.\<close>

lemma filecapture_pass:
  assumes st: "streaming p i j st" and p: "polls p os"
    and d: "steady_directory os env (description (sess st i)) es pk"
  shows "\<exists>st'. filecapture_loop os env (Suc fuel) i st =
      (if iterations (sess st' i) \<noteq> 0 \<and> filter is_pcap_file es \<noteq> [] then filecapture_loop os env fuel i st'
       else Some (set_sess i (\<lambda>s. s\<lparr>state := 5\<rparr>) st')) \<and>
    streaming p i j st' \<and> description (sess st' i) = description (sess st i) \<and>
    iterations (sess st' i) = iterations (count_iteration (sess st i)) \<and>
    pcap_dumper (sess st' j) = pcap_dumper (sess st j) \<and> faults st' = faults st \<and>
    stream_of (pcap_dumper (sess st j)) st' = stream_of (pcap_dumper (sess st j)) st @ file_packets pk es"
proof -
  define st1 where "st1 = ext_do (Opendir (description (sess st i))) (set_sess i count_iteration st)"
  note u = streaming_update [of p i j st count_iteration]
  have s1: "streaming p i j st1" "sess st1 i = count_iteration (sess st i)" "sess st1 j = sess st j"
    using u st streaming_used [OF st] by (simp_all add: st1_def count_iteration_def sess_simps)
  have o: "faults st1 = faults st" "stream_of d st1 = stream_of d st" for d
    by (simp_all add: st1_def stream_of_def sess_simps)
  have d1: "description (sess st1 i) = description (sess st i)" by (simp add: s1(2) count_iteration_def)
  obtain st2 where s2: "stream_entries os env i es 0 st1 = (False, length (filter is_pcap_file es), st2)"
      "streaming p i j st2" "capturing (sess st1 i) (sess st2 i)"
      "pcap_dumper (sess st2 j) = pcap_dumper (sess st1 j)" "faults st2 = faults st1"
      "stream_of (pcap_dumper (sess st1 j)) st2 = stream_of (pcap_dumper (sess st1 j)) st1 @ file_packets pk es"
    using stream_entries_effect [OF s1(1) p, of es env pk 0] d d1 by (auto simp: steady_directory_def)
  define st3 where "st3 = ext_do Closedir st2"
  have s3: "streaming p i j st3" "sess st3 = sess st2" "faults st3 = faults st2" "stream_of d st3 = stream_of d st2" for d
    using s2(2) by (simp_all add: st3_def sess_simps stream_of_def fun_eq_iff)
  have id: "sid (sess st3 i) = int i" "i < 128"
    using s3(1) by (auto simp: streaming_def conns_ok_def sessions_ok_def session_ok_def)
  have e: "entries env (hist (set_sess i count_iteration st)) (description (sess (set_sess i count_iteration st) i)) = Some es"
    using d d1 by (simp add: steady_directory_def st1_def sess_simps)
  have o1: "ext_do (Opendir (description (sess (set_sess i count_iteration st) i))) (set_sess i count_iteration st) = st1"
    using d1 by (simp add: st1_def sess_simps)
  have "filecapture_loop os env (Suc fuel) i st =
      (if iterations (sess st3 i) \<noteq> 0 \<and> filter is_pcap_file es \<noteq> [] then filecapture_loop os env fuel i st3
       else Some (set_sess i (\<lambda>s. s\<lparr>state := 5\<rparr>) st3))"
    using id by (simp add: e o1 s2(1) st3_def [symmetric] change_state_eq Let_def)
  then show ?thesis
    using s1 s2 s3 o d1 by (intro exI [of _ st3]) (simp add: capturing_def)
qed

lemma filecapture_passes:
  assumes "streaming p i j st" "polls p os" "steady_directory os env (description (sess st i)) es pk"
    "filter is_pcap_file es \<noteq> []" "iterations (sess st i) = int n"
  shows "\<exists>st'. filecapture_loop os env (max 1 n) i st = Some st' \<and> state (sess st' i) = 5 \<and>
    iterations (sess st' i) = 0 \<and> faults st' = faults st \<and>
    stream_of (pcap_dumper (sess st j)) st' =
      stream_of (pcap_dumper (sess st j)) st @ concat (replicate (max 1 n) (file_packets pk es))"
  using assms
proof (induction n arbitrary: st)
  case 0
  obtain st' where s: "filecapture_loop os env 1 i st = Some (set_sess i (\<lambda>s. s\<lparr>state := 5\<rparr>) st')" "streaming p i j st'"
      "iterations (sess st' i) = 0" "faults st' = faults st"
      "stream_of (pcap_dumper (sess st j)) st' = stream_of (pcap_dumper (sess st j)) st @ file_packets pk es"
    using filecapture_pass [OF 0(1-3), of 0] 0(5) by (auto simp: count_iteration_def)
  then show ?case using streaming_update(2) [OF s(2), of "\<lambda>s. s\<lparr>state := 5\<rparr>"]
    by (simp add: stream_of_def sess_simps)
next
  case (Suc n)
  obtain st' where s: "filecapture_loop os env (Suc n) i st =
      (if n \<noteq> 0 then filecapture_loop os env n i st' else Some (set_sess i (\<lambda>s. s\<lparr>state := 5\<rparr>) st'))" "streaming p i j st'"
      "description (sess st' i) = description (sess st i)" "iterations (sess st' i) = int n" "faults st' = faults st"
      "pcap_dumper (sess st' j) = pcap_dumper (sess st j)"
      "stream_of (pcap_dumper (sess st j)) st' = stream_of (pcap_dumper (sess st j)) st @ file_packets pk es"
    using filecapture_pass [OF Suc.prems(1-3), of n] Suc.prems(4,5) by (auto simp: count_iteration_def)
  show ?case
  proof (cases "n = 0")
    case True
    then show ?thesis using s streaming_update(2) [OF s(2), of "\<lambda>s. s\<lparr>state := 5\<rparr>"]
      by (simp add: stream_of_def sess_simps)
  next
    case False
    then have "max 1 n = n" "max 1 (Suc n) = Suc n" by simp_all
    then show ?thesis using Suc.IH [of st'] s Suc.prems False by simp
  qed
qed

lemma filecapture_forever:
  assumes "streaming p i j st" "polls p os" "steady_directory os env (description (sess st i)) es pk"
    "filter is_pcap_file es \<noteq> []" "iterations (sess st i) = -1"
  shows "filecapture_loop os env fuel i st = None"
  using assms
proof (induction fuel arbitrary: st)
  case (Suc fuel)
  obtain st' where "filecapture_loop os env (Suc fuel) i st = filecapture_loop os env fuel i st'" "streaming p i j st'"
      "description (sess st' i) = description (sess st i)" "iterations (sess st' i) = -1"
    using filecapture_pass [OF Suc.prems(1-3), of fuel] Suc.prems(4,5) by (auto simp: count_iteration_def)
  then show ?case using Suc.IH [of st'] Suc.prems by simp
qed simp

lemma open_monitor_frame [sess_simps]:
  "length (session_list (open_monitor os f i st)) = length (session_list st)"
  "session_handling_state (open_monitor os f i st) = session_handling_state st"
  "clientconnlist (open_monitor os f i st) = clientconnlist st"
  "clientconnlist_initialized (open_monitor os f i st) = clientconnlist_initialized st"
  "faults (open_monitor os f i st) = faults st"
  "dumped (hist (open_monitor os f i st)) = dumped (hist st)"
  by (simp_all add: open_monitor_def Let_def split_def ext_def set_sess_def)

lemma open_monitor_nth:
  "i < length (session_list st) \<Longrightarrow> \<exists>m. sess (open_monitor os f i st) i = (sess st i)\<lparr>mon := Some m\<rparr>"
  "j \<noteq> i \<Longrightarrow> sess (open_monitor os f i st) j = sess st j"
  by (cases "clocks st f = 0", auto simp: open_monitor_def Let_def split_def ext_def set_sess_def)

lemma streaming_open_monitor:
  assumes "streaming p i j st"
  shows "streaming p i j (open_monitor os f i st)"
    "\<exists>m. sess (open_monitor os f i st) i = (sess st i)\<lparr>mon := Some m\<rparr>"
proof -
  have l: "i < length (session_list st)"
    using assms by (simp add: streaming_def conns_ok_def sessions_ok_def tables_ok_def)
  show "\<exists>m. sess (open_monitor os f i st) i = (sess st i)\<lparr>mon := Some m\<rparr>" by (rule open_monitor_nth(1) [OF l])
  have u: "streaming p i j (set_sess i (\<lambda>s. s\<lparr>mon := m\<rparr>) (st\<lparr>hist := h\<rparr>))" for m h
    using streaming_update(1) [of p i j "st\<lparr>hist := h\<rparr>" "\<lambda>s. s\<lparr>mon := m\<rparr>"] assms streaming_used [OF assms] by simp
  have "streaming p i j (set_sess i (\<lambda>s. s\<lparr>mon := m\<rparr>) st)" for m
    using u [of m "hist st"] by simp
  then show "streaming p i j (open_monitor os f i st)"
    using u by (simp add: open_monitor_def Let_def split_def ext_def)
qed

section \<open>Properties\<close>

text \<open>
  C13: capture from files. With the iteration count \<open>n\<close> and a directory that holds at least one capture
  file, the thread of a file capture session returns after \<open>max 1 n\<close> passes (a count of zero still makes
  one pass) with the session ordered to terminate and no iterations left; a client connection has then
  been sent the packets of every capture file, in the order of the listing, once per pass. With the count
  -1 the thread never returns.
\<close>

theorem filecapture_streams:
  assumes "streaming p i j st" and "polls p os" and "steady_directory os env (description (sess st i)) es pk"
    and "filter is_pcap_file es \<noteq> []"
  shows "(iterations (sess st i) = int n \<longrightarrow>
      (\<exists>st'. pcapsession_filecapture_run os env (max 1 n) (Some i) st = Some st' \<and> state (sess st' i) = 5 \<and>
        iterations (sess st' i) = 0 \<and> faults st' = faults st \<and>
        stream_of (pcap_dumper (sess st j)) st' =
          stream_of (pcap_dumper (sess st j)) st @ concat (replicate (max 1 n) (file_packets pk es)))) \<and>
    (iterations (sess st i) = -1 \<longrightarrow> pcapsession_filecapture_run os env fuel (Some i) st = None)"
proof -
  have id: "sid (sess st i) = int i" "i < 128" "j \<noteq> i"
    using assms(1) by (auto simp: streaming_def conns_ok_def sessions_ok_def session_ok_def)
  define st1 where "st1 = set_sess i (\<lambda>s. s\<lparr>state := 4\<rparr>) st"
  have s1: "streaming p i j st1" "sess st1 i = (sess st i)\<lparr>state := 4\<rparr>" "sess st1 j = sess st j"
    using streaming_update [OF assms(1), of "\<lambda>s. s\<lparr>state := 4\<rparr>"] by (simp_all add: st1_def)
  define st2 where "st2 = open_monitor os F_filecapture i st1"
  obtain m where m: "sess st2 i = (sess st1 i)\<lparr>mon := Some m\<rparr>"
    using streaming_open_monitor(2) [OF s1(1)] by (auto simp: st2_def)
  have s2: "streaming p i j st2" "sess st2 j = sess st j" "faults st2 = faults st"
    "stream_of d st2 = stream_of d st" for d
    using streaming_open_monitor(1) [OF s1(1)] id s1(3)
    by (simp_all add: st2_def open_monitor_nth(2) st1_def stream_of_def sess_simps)
  have i2: "description (sess st2 i) = description (sess st i)" "iterations (sess st2 i) = iterations (sess st i)"
    by (simp_all add: m s1(2))
  have run: "pcapsession_filecapture_run os env f (Some i) st = filecapture_loop os env f i st2" for f
    using id by (simp add: pcapsession_filecapture_run_def change_state_eq st2_def st1_def)
  show ?thesis
    using filecapture_passes [OF s2(1) assms(2) _ assms(4), of env pk n]
      filecapture_forever [OF s2(1) assms(2) _ assms(4), of env pk fuel] assms(3) i2 s2(2-4)
    by (simp add: run)
qed

definition file_os :: os where
  "file_os h c = (case c of Pcap_open_offline _ \<Rightarrow> 11 | _ \<Rightarrow> 0)"

definition file_env :: capture_env where
  "file_env = \<lparr>captures = \<lambda>_ _. [(\<lparr>ts_sec = 1, ts_usec = 2, caplen = 1, pkt_len = 1\<rparr>, [7])],
     entries = \<lambda>_ _. Some [''a.pcap'', ''b.txt'']\<rparr>"

theorem filecapture_streams_witness:
  "\<exists>st'. pcapsession_filecapture_run file_os file_env 2 (Some 0)
       (set_sess 0 (\<lambda>s. s\<lparr>description := ''d'', iterations := 2\<rparr>) dist_state) = Some st' \<and>
     map snd (stream_of 9 st') = [[7], [7]]"
proof -
  define st where "st = set_sess 0 (\<lambda>s. s\<lparr>description := ''d'', iterations := 2\<rparr>) dist_state"
  have "sole_dumper (\<lambda>_. 0) dist_state 1" using dist_state_delivers by (simp add: sole_dumper_def)
  then have "streaming (\<lambda>_. 0) 0 1 dist_state"
    using dist_state_ok dist_state_sess(1,4) by (simp add: streaming_def)
  note u = streaming_update [OF this, of "\<lambda>s. s\<lparr>description := ''d'', iterations := 2\<rparr>"]
  have s: "streaming (\<lambda>_. 0) 0 1 st" "sess st 0 = (sess dist_state 0)\<lparr>description := ''d'', iterations := 2\<rparr>"
    "sess st 1 = sess dist_state 1"
    using u dist_state_sess(1) by (simp_all add: st_def)
  have f: "filter is_pcap_file [''a.pcap'', ''b.txt''] = [''a.pcap'']"
    by (simp add: is_pcap_file_def)
  have d: "steady_directory file_os file_env ''d'' [''a.pcap'', ''b.txt'']
      (\<lambda>_. [(\<lparr>ts_sec = 1, ts_usec = 2, caplen = 1, pkt_len = 1\<rparr>, [7])])"
    unfolding steady_directory_def f by (simp add: steady_file_def file_os_def file_env_def whole_def)
  have p: "polls (\<lambda>_. 0) file_os" by (simp add: polls_def file_os_def)
  have e: "stream_of 9 st = []"
    by (simp add: st_def dist_state_def stream_of_def set_sess_def init_gstate_def)
  show ?thesis
    using filecapture_streams [OF s(1) p, of file_env "[''a.pcap'', ''b.txt'']"
      "\<lambda>_. [(\<lparr>ts_sec = 1, ts_usec = 2, caplen = 1, pkt_len = 1\<rparr>, [7])]" 2 0] d f s(2,3) e
    by (auto simp: dist_state_sess(2) file_packets_def captured_def st_def [symmetric] numeral_2_eq_2
        simp del: One_nat_def)
qed

text \<open>
  C37: the acceptor. With a listening socket on which every accept succeeds, the server thread opens one
  client session per connection until all 128 sessions are in use; the next connection is refused, the
  refusal orders the server itself to terminate, and the thread returns.
\<close>

theorem server_fills_table:
  assumes "sessions_ok st" and "i < 128" and "state (sess st i) \<noteq> 0" and "0 < fd (sess st i)"
    and "\<forall>h. 0 \<le> os h (Accept (fd (sess st i)))"
  shows "\<exists>st'. pcapsession_server_run os (130 - card (used st)) (Some i) st = Some st' \<and>
    state (sess st' i) = PCAP_SESSION_TERMINATE \<and> card (used st') = 128"
proof -
  have t: "tables_ok st" "sid (sess st i) = int i"
    using assms by (auto simp: sessions_ok_def session_ok_def)
  define st1 where "st1 = set_sess i (\<lambda>s. s\<lparr>state := 4\<rparr>) st"
  have n: "sess st1 k = (if k = i then (sess st k)\<lparr>state := 4\<rparr> else sess st k)" if "k < 128" for k
    using that t by (simp add: st1_def set_sess_def tables_ok_def)
  have t1: "tables_ok st1" using t by (simp add: st1_def tables_ok_def sess_simps)
  have u: "used st1 = used st" using n assms(3) by (auto simp: used_def split: if_splits)
  have "card (used st) \<le> card {..<128::nat}" by (rule card_mono) (auto simp: used_def)
  then have k: "card (used st1) + (128 - card (used st)) = 128" using u by simp
  have e: "130 - card (used st) = 128 - card (used st) + 2" using k [unfolded u] by linarith
  have run: "pcapsession_server_run os f (Some i) st = server_loop os f i st1" for f
    using t assms(2) by (simp add: pcapsession_server_run_def change_state_eq st1_def)
  have "\<exists>st'. server_loop os (128 - card (used st) + 2) i st1 = Some st' \<and>
      sess st' i = (sess st1 i)\<lparr>state := 5\<rparr> \<and> card (used st') = 128"
    by (rule server_loop_fills) (use t1 assms t(2) n [of i] k in simp_all)
  then show ?thesis unfolding run e by (auto simp del: server_loop.simps)
qed

theorem server_fills_table_witness:
  "\<exists>st'. pcapsession_server_run quiet_os (130 - card (used (set_sess 0 (\<lambda>s. s\<lparr>fd := 5\<rparr>) dist_state))) (Some 0)
       (set_sess 0 (\<lambda>s. s\<lparr>fd := 5\<rparr>) dist_state) = Some st' \<and>
     state (sess st' 0) = PCAP_SESSION_TERMINATE \<and> card (used st') = 128"
proof -
  define st where "st = set_sess 0 (\<lambda>s. s\<lparr>fd := 5\<rparr>) dist_state"
  have l: "length (session_list dist_state) = 128"
    using dist_state_ok by (simp add: conns_ok_def sessions_ok_def tables_ok_def)
  have n: "sess st k = (if k = 0 then (sess dist_state 0)\<lparr>fd := 5\<rparr> else sess dist_state k)" if "k < 128" for k
    using that l by (auto simp: st_def set_sess_def)
  have ok: "sessions_ok st"
    using dist_state_ok n
    by (simp add: conns_ok_def sessions_ok_def session_ok_def tables_ok_def st_def sess_simps)
  show ?thesis
    using server_fills_table [OF ok, of 0 quiet_os] n [of 0] dist_state_sess(1)
    by (simp add: st_def [symmetric] quiet_os_def)
qed

text \<open>
  A server does not recover. Stopping a terminating server closes its socket, clears the descriptor
  and orders a restart, but the run function does not open a socket: the restarted thread accepts no
  connection, it orders termination again at once, for as often as session handling restarts it.
\<close>

theorem server_never_recovers:
  assumes "sessions_ok st" and "i < 128" and "stopper (sess st i) = Some Server" and "state (sess st i) = 7"
    and "0 < fd (sess st i)"
  shows "state (sess (pcapsession_server_stop os (Some i) st) i) = PCAP_SESSION_START \<and>
    (\<exists>st'. pcapsession_server_run os (Suc n) (Some i) (pcapsession_server_stop os (Some i) st) = Some st' \<and>
      state (sess st' i) = PCAP_SESSION_TERMINATE \<and> fd (sess st' i) = 0 \<and>
      hist st' = hist (pcapsession_server_stop os (Some i) st))"
proof -
  have t: "tables_ok st" "sid (sess st i) = int i"
    using assms by (auto simp: sessions_ok_def session_ok_def)
  define st1 where "st1 = pcapsession_server_stop os (Some i) st"
  have s1: "sess st1 i = (sess st i)\<lparr>fd := 0, state := 2\<rparr>" "i < length (session_list st1)"
    using server_stopper.stop_nth [OF t(2) assms(2) t(1) assms(2), of os] assms(4,5)
      server_stopper.stop_length [OF t(2) assms(2) t(1), of os] assms(2)
    by (simp_all add: st1_def after_stop_def)
  have "pcapsession_server_run os (Suc n) (Some i) st1 =
      Some (set_sess i (\<lambda>s. s\<lparr>state := 5\<rparr>) (set_sess i (\<lambda>s. s\<lparr>state := 4\<rparr>) st1))"
    using s1 t(2) assms(2)
    by (simp add: pcapsession_server_run_def poll_server_socket_def errbuf_ok_def sess_simps)
  then show ?thesis using s1 assms(2) by (simp add: st1_def [symmetric] sess_simps)
qed

theorem server_never_recovers_witness:
  "\<exists>st'. pcapsession_server_run quiet_os 1 (Some 0) (pcapsession_server_stop quiet_os (Some 0)
      (set_sess 0 (\<lambda>s. s\<lparr>fd := 5, state := 7, runner := Some Server, stopper := Some Server\<rparr>) dist_state)) = Some st' \<and>
    state (sess st' 0) = PCAP_SESSION_TERMINATE"
proof -
  define st where "st = set_sess 0 (\<lambda>s. s\<lparr>fd := 5, state := 7, runner := Some Server, stopper := Some Server\<rparr>) dist_state"
  have l: "length (session_list dist_state) = 128"
    using dist_state_ok by (simp add: conns_ok_def sessions_ok_def tables_ok_def)
  have n: "sess st k = (if k = 0 then (sess dist_state 0)\<lparr>fd := 5, state := 7, runner := Some Server,
      stopper := Some Server\<rparr> else sess dist_state k)" if "k < 128" for k
    using that l by (auto simp: st_def set_sess_def)
  have ok: "sessions_ok st"
    using dist_state_ok n dist_state_sess(1)
    by (auto simp: conns_ok_def sessions_ok_def session_ok_def tables_ok_def st_def sess_simps zero_session_def)
  show ?thesis
    using server_never_recovers [OF ok, of 0 quiet_os 0] n [of 0]
    by (auto simp: st_def [symmetric])
qed

text \<open>
  A live capture does not recover either. The capture handle is opened once, when the session is
  opened; stopping the session closes it and clears the pointer, so a restarted capture thread calls
  \<open>pcap_loop\<close> on a null handle.
\<close>

theorem livecapture_restart_null:
  assumes "sessions_ok st" and "i < 128" and "state (sess st i) \<noteq> 0"
  shows "Null_pointer \<in> set (faults (pcapsession_livecapture_run os env (Some i)
    (pcapsession_livecapture_stop os (Some i) st)))"
proof -
  have t: "tables_ok st" "sid (sess st i) = int i"
    using assms by (auto simp: sessions_ok_def session_ok_def)
  define st1 where "st1 = pcapsession_livecapture_stop os (Some i) st"
  have s1: "pcap_handle (sess st1 i) = 0" "sid (sess st1 i) = int i" "i < length (session_list st1)"
    using livecapture_stopper.stop_nth [OF t(2) assms(2) t(1) assms(2), of os] t(2)
      livecapture_stopper.stop_length [OF t(2) assms(2) t(1), of os] assms(2)
    by (simp_all add: st1_def after_stop_def)
  define st2 where "st2 = open_monitor os F_livecapture i (set_sess i (\<lambda>s. s\<lparr>state := 4\<rparr>) st1)"
  have s2: "pcap_handle (sess st2 i) = 0" "sid (sess st2 i) = int i"
    using open_monitor_nth(1) [of i "set_sess i (\<lambda>s. s\<lparr>state := 4\<rparr>) st1" os F_livecapture] s1
    by (auto simp: st2_def sess_simps)
  have "pcapsession_livecapture_run os env (Some i) st1 =
      set_sess i (\<lambda>s. s\<lparr>state := 5\<rparr>) (set_sess i (\<lambda>s. s\<lparr>pcap_handle := 0\<rparr>)
        (fault_at Null_pointer (fault_at Null_pointer st2)))"
    using s1 s2 assms(2)
    by (cases "i < length (session_list st2)")
      (simp_all add: pcapsession_livecapture_run_def change_state_eq st2_def [symmetric] loop_on_def close_on_def
        sess_simps, simp add: st2_def sess_simps)
  then show ?thesis by (simp add: st1_def [symmetric] sess_simps fault_at_def)
qed

theorem livecapture_restart_null_witness:
  "Null_pointer \<in> set (faults (pcapsession_livecapture_run quiet_os file_env (Some 0)
    (pcapsession_livecapture_stop quiet_os (Some 0) dist_state)))"
  by (rule livecapture_restart_null) (use dist_state_ok dist_state_sess(1) in \<open>simp_all add: conns_ok_def\<close>)

end
