(* ===== verification/Session_System.thy ===== *)
theory Session_System
  imports Session_Handling Session_Run
begin

text \<open>
  The sessions as a system: the programs open sessions, the supervision thread moves them through their
  life cycle, their threads run, clients are accepted and packets arrive, in any order. The step relation
  has one rule per operation; \<open>system_ok\<close> holds in every state that the steps reach, and the list of
  client connections that the packet handler walks over never names a connection without a dumper.
\<close>

section \<open>The invariant\<close>

definition system_ok :: "gstate \<Rightarrow> bool" where
  "system_ok st \<longleftrightarrow> sessions_ok st \<and> dump_list_ok st \<and>
     (\<forall>i < 128. clientconnlist st ! i \<noteq> None \<longrightarrow> state (sess st i) \<noteq> 2 \<and> state (sess st i) \<noteq> 3)"

lemma system_okD:
  assumes "system_ok st"
  shows "sessions_ok st" "dump_list_ok st" "conns_ok st" "tables_ok st"
    "length (session_list st) = 128" "length (clientconnlist st) = 128"
  using assms by (simp_all add: system_ok_def conns_ok_def sessions_ok_def tables_ok_def)

lemma system_ok_listed:
  assumes "system_ok st" "i < 128" "clientconnlist st ! i \<noteq> None"
  shows "clientconnlist st ! i = Some i" "pcap_dumper (sess st i) \<noteq> 0" "stopper (sess st i) = Some Clientconn"
    "state (sess st i) \<notin> {0, 2, 3}"
proof -
  have "clientconnlist st ! i = Some i \<and> pcap_dumper (sess st i) \<noteq> 0 \<and> stopper (sess st i) = Some Clientconn \<and>
      state (sess st i) \<noteq> 0"
    using assms by (simp add: system_ok_def dump_list_ok_def del: not_None_eq)
  moreover have "state (sess st i) \<noteq> 2 \<and> state (sess st i) \<noteq> 3"
    using assms by (simp add: system_ok_def del: not_None_eq)
  ultimately show "clientconnlist st ! i = Some i" "pcap_dumper (sess st i) \<noteq> 0"
    "stopper (sess st i) = Some Clientconn" "state (sess st i) \<notin> {0, 2, 3}" by simp_all
qed

lemma system_okI:
  assumes "sessions_ok st"
    and "\<And>i. i < 128 \<Longrightarrow> clientconnlist st ! i \<noteq> None \<Longrightarrow> clientconnlist st ! i = Some i \<and>
      pcap_dumper (sess st i) \<noteq> 0 \<and> stopper (sess st i) = Some Clientconn \<and> state (sess st i) \<notin> {0, 2, 3}"
  shows "system_ok st"
  using assms by (simp add: system_ok_def dump_list_ok_def)

section \<open>Supervision keeps the invariant\<close>

text \<open>If the entry \<open>i\<close> of the list is still there, so is what the invariant says of it.\<close>

definition conn_kept :: "nat \<Rightarrow> gstate \<Rightarrow> gstate \<Rightarrow> bool" where
  "conn_kept i st st' \<longleftrightarrow> (clientconnlist st' ! i \<noteq> None \<longrightarrow>
     clientconnlist st' ! i = clientconnlist st ! i \<and> pcap_dumper (sess st' i) = pcap_dumper (sess st i) \<and>
     stopper (sess st' i) = stopper (sess st i) \<and>
     (state (sess st i) \<notin> {0, 2, 3} \<longrightarrow> state (sess st' i) \<notin> {0, 2, 3}))"

lemma system_ok_only:
  assumes "system_ok st" "only i st st'" "i < 128" "conn_kept i st st'"
  shows "system_ok st'"
proof (rule system_okI)
  show "sessions_ok st'" using assms(2) by (simp add: only_def)
next
  fix j :: nat
  assume j: "j < 128" "clientconnlist st' ! j \<noteq> None"
  show "clientconnlist st' ! j = Some j \<and> pcap_dumper (sess st' j) \<noteq> 0 \<and>
      stopper (sess st' j) = Some Clientconn \<and> state (sess st' j) \<notin> {0, 2, 3}"
  proof (cases "j = i")
    case True
    then have k: "clientconnlist st' ! i = clientconnlist st ! i" "pcap_dumper (sess st' i) = pcap_dumper (sess st i)"
      "stopper (sess st' i) = stopper (sess st i)"
      "state (sess st i) \<notin> {0, 2, 3} \<longrightarrow> state (sess st' i) \<notin> {0, 2, 3}"
      using assms(4) j(2) by (simp_all add: conn_kept_def del: not_None_eq)
    have "clientconnlist st ! i \<noteq> None" using k(1) j(2) True by simp
    note l = system_ok_listed [OF assms(1,3) this]
    show ?thesis using k l True by simp
  next
    case False
    then have "sess st' j = sess st j" "clientconnlist st' ! j = clientconnlist st ! j"
      using assms(2) j by (simp_all add: only_def)
    then show ?thesis using system_ok_listed [OF assms(1) j(1)] j(2) by simp
  qed
qed

lemma kept_same_list:
  assumes "clientconnlist st' = clientconnlist st" "pcap_dumper (sess st' i) = pcap_dumper (sess st i)"
    "stopper (sess st' i) = stopper (sess st i)"
    "state (sess st' i) = state (sess st i) \<or> state (sess st' i) \<notin> {0, 2, 3}"
  shows "conn_kept i st st'"
  using assms by (auto simp: conn_kept_def)

lemma orders_keep:
  fixes os :: os
  assumes "system_ok st" "i < 128" "state (sess st i) \<noteq> 0"
  defines "st' \<equiv> supervise_descriptor os i (supervise_abort i st)"
  shows "conn_kept i st st'"
proof -
  note o = supervise_orders [OF system_okD(1) [OF assms(1)] assms(2,3), of os, folded st'_def]
  have c: "clientconnlist st' = clientconnlist st"
    by (simp add: st'_def supervise_descriptor_def supervise_abort_def pcapsession_change_state_def ext_def
        iotests_fd_open_def sess_simps)
  show ?thesis
    by (rule kept_same_list [OF c]) (simp_all add: o(2) ordered_state_def)
qed

lemma stop_unlists:
  assumes "sessions_ok st" "i < 128" "state (sess st i) \<noteq> 0"
    "clientconnlist st ! i \<noteq> None \<longrightarrow> stopper (sess st i) = Some Clientconn"
  shows "clientconnlist (pcapsession_stop os i st) ! i = None"
proof -
  obtain k where k: "stopper (sess st i) = Some k" using sessions_okD(4) [OF assms(1-3)] by auto
  have "length (clientconnlist st) = 128" using assms(1) by (simp add: sessions_ok_def tables_ok_def)
  then show ?thesis using stop_session(4) [OF assms(1-3) k, of os] assms(2,4) k by auto
qed

lemma transition_keeps:
  assumes s: "system_ok st" "i < 128" "state (sess st i) \<noteq> 0"
  shows "conn_kept i st (pcapsession_transition_session os i st)"
proof -
  note ok = system_okD(1) [OF s(1)] s(2,3)
  have l: "clientconnlist st ! i \<noteq> None \<longrightarrow> stopper (sess st i) = Some Clientconn"
    using system_ok_listed [OF s(1,2)] by blast
  have start: "clientconnlist (snd (pcapsession_start os i st')) = clientconnlist st'" for st'
    by (simp add: pcapsession_start_def Let_def split_def ext_def sess_simps)
  have ent: "clientconnlist (enter_state i x st) = clientconnlist st" for x
    using s(2) by (simp add: enter_state_def sess_simps)
  have ch: "sess (pcapsession_change_state (int i) 1 st) i = (sess st i)\<lparr>state := 1\<rparr>"
    "clientconnlist (pcapsession_change_state (int i) 1 st) = clientconnlist st"
    "sessions_ok (pcapsession_change_state (int i) 1 st)"
    using ok only_set [OF ok, of "\<lambda>s. s\<lparr>state := 1\<rparr>"] by (simp_all add: sess_simps only_def)
  have stop: "conn_kept i st (pcapsession_stop os i (enter_state i x st))" if "x \<noteq> 0" for x
  proof -
    note e = enter_state_props [OF ok that]
    have "clientconnlist (pcapsession_stop os i (enter_state i x st)) ! i = None"
      by (rule stop_unlists) (use e ent l s that in \<open>simp_all add: only_def\<close>)
    then show ?thesis by (simp add: conn_kept_def)
  qed
  have stop1: "conn_kept i st (pcapsession_stop os i (pcapsession_change_state (int i) 1 st))"
  proof -
    have "clientconnlist (pcapsession_stop os i (pcapsession_change_state (int i) 1 st)) ! i = None"
      by (rule stop_unlists) (use ch l s in simp_all)
    then show ?thesis by (simp add: conn_kept_def)
  qed
  have inc: "conn_kept i st (set_sess i (\<lambda>s. s\<lparr>interval_counter := interval_counter s + 1\<rparr>) st)"
    using ok by (intro kept_same_list) (simp_all add: sess_simps)
  have early: "clientconnlist st ! i = None" if "state (sess st i) = 2 \<or> state (sess st i) = 3"
    using system_ok_listed(4) [OF s(1,2)] that by (cases "clientconnlist st ! i") auto
  have 2: "conn_kept i st (snd (pcapsession_start os i (enter_state i 3 st)))" if "state (sess st i) = 2"
    using early that by (simp add: conn_kept_def start ent)
  have 3: "conn_kept i st (pcapsession_change_state (int i) 5 st)" if "state (sess st i) = 3"
    using early that s(2) by (simp add: conn_kept_def sess_simps)
  have refl: "conn_kept i st st" by (simp add: conn_kept_def)
  show ?thesis
    using stop [of 7] stop [of 8] stop1 inc 2 3 refl
    by (simp add: pcapsession_transition_session_def Let_def)
qed

lemma monitor_keeps:
  assumes "system_ok st" "i < 128" "state (sess st i) \<noteq> 0"
  shows "conn_kept i st (supervise_monitor os i st)"
proof -
  have c: "clientconnlist (supervise_monitor os i st) = clientconnlist st"
    by (auto simp: supervise_monitor_def Let_def split_def ext_def sess_simps split: option.split sum.split)
  obtain m where "sess (supervise_monitor os i st) i = (sess st i)\<lparr>mon := m\<rparr>"
    using supervise_monitor_props [OF system_okD(1) [OF assms(1)] assms(2,3)] by blast
  then show ?thesis by (intro kept_same_list [OF c]) simp_all
qed

lemma supervise_session_system:
  assumes s: "system_ok st" and i: "i < 128"
  shows "system_ok (snd (supervise_session os i (c, st)))"
proof (cases "state (sess st i) = 0")
  case True
  then show ?thesis using s by (simp add: supervise_session_unused)
next
  case False
  note ok = system_okD(1) [OF s] i False
  define st1 where "st1 = supervise_descriptor os i (supervise_abort i st)"
  note o = supervise_orders [OF ok, of os, folded st1_def]
  have s1: "system_ok st1"
    by (rule system_ok_only [OF s o(1) i]) (use orders_keep [OF s i False, of os] in \<open>simp add: st1_def\<close>)
  have nz1: "state (sess st1 i) \<noteq> 0" using o(2) ordered_state_pos [OF False] by simp
  define st2 where "st2 = pcapsession_transition_session os i st1"
  have s2: "system_ok st2"
    unfolding st2_def using transition_props(1) [OF system_okD(1) [OF s1] i nz1] transition_keeps [OF s1 i nz1]
    by (intro system_ok_only [OF s1 _ i])
  have "system_ok (supervise_monitor os i st2)" if "state (sess st2 i) = 4"
    using supervise_monitor_props [OF system_okD(1) [OF s2] i] monitor_keeps [OF s2 i] that
    by (intro system_ok_only [OF s2 _ i]) simp_all
  then show ?thesis
    using False s2 by (simp add: supervise_session_def Let_def st1_def [symmetric] st2_def [symmetric])
qed

lemma supervision_pass_system:
  assumes "system_ok st"
  shows "system_ok (snd (supervision_pass os st))"
proof -
  have "system_ok (snd (fold (supervise_session os) is (c, st)))" if "set is \<subseteq> {..<128}" for "is" c
    using that assms
  proof (induction "is" arbitrary: c st)
    case (Cons i "is")
    have "system_ok (snd (supervise_session os i (c, st)))"
      using supervise_session_system [OF Cons.prems(2)] Cons.prems(1) by simp
    then show ?case using Cons.IH [of "snd (supervise_session os i (c, st))" "fst (supervise_session os i (c, st))"]
        Cons.prems(1) by simp
  qed simp
  from this [of "[0..<128]" 0] show ?thesis by (simp add: supervision_pass_def subset_eq)
qed

section \<open>Opening keeps the invariant\<close>

lemma get_new_frame [sess_simps]:
  "clientconnlist (snd (pcapsession_handling_get_new st)) = clientconnlist st"
  by (simp add: pcapsession_handling_get_new_def Let_def pcapsession_change_state_def sess_simps)

lemma change_state_frame [sess_simps]:
  "clientconnlist (pcapsession_change_state x y st) = clientconnlist st"
  "length (session_list (pcapsession_change_state x y st)) = length (session_list st)"
  "session_handling_state (pcapsession_change_state x y st) = session_handling_state st"
  by (simp_all add: pcapsession_change_state_def sess_simps)

lemma handling_add_frame [sess_simps]:
  "clientconnlist (snd (pcapsession_handling_add x st)) = clientconnlist st"
  by (simp add: pcapsession_handling_add_def Let_def sess_simps)

lemma open_conn [sess_simps]:
  "clientconnlist (snd (pcapsession_server_open os port st)) = clientconnlist st"
  "clientconnlist (snd (pcapsession_livecapture_open os name st)) = clientconnlist st"
  "clientconnlist (snd (pcapsession_filecapture_open dir n st)) = clientconnlist st"
  "clientconnlist (snd (pcapsession_merger_open fname u st)) = clientconnlist st"
  "clientconnlist (snd (pcapsession_client_open addr m st)) = clientconnlist st"
  "clientconnlist (snd (pcapsession_clientconn_open f addr st)) = clientconnlist (init_clientconnlist st)"
  using get_new_frame [of st] get_new_frame [of "init_clientconnlist st"]
  by (auto simp: pcapsession_server_open_def pcapsession_livecapture_open_def pcapsession_filecapture_open_def
      pcapsession_merger_open_def pcapsession_client_open_def pcapsession_clientconn_open_def Let_def split_def
      sess_simps ext_simps split: option.split)

lemma system_ok_open:
  assumes "system_ok st" "sessions_ok st'" "keeps_used st st'"
    "\<And>j. j < 128 \<Longrightarrow> clientconnlist st' ! j \<noteq> None \<Longrightarrow> clientconnlist st' ! j = clientconnlist st ! j"
  shows "system_ok st'"
proof (rule system_okI [OF assms(2)])
  fix j :: nat
  assume j: "j < 128" "clientconnlist st' ! j \<noteq> None"
  have c: "clientconnlist st' ! j = clientconnlist st ! j" by (rule assms(4) [OF j])
  note l = system_ok_listed [OF assms(1) j(1), OF j(2) [unfolded c]]
  have "sess st' j = sess st j" using assms(3) l(4) j by (simp add: keeps_used_def)
  then show "clientconnlist st' ! j = Some j \<and> pcap_dumper (sess st' j) \<noteq> 0 \<and>
      stopper (sess st' j) = Some Clientconn \<and> state (sess st' j) \<notin> {0, 2, 3}"
    using l c by simp
qed

lemma init_conn_nth:
  "j < 128 \<Longrightarrow> clientconnlist (init_clientconnlist st) ! j \<noteq> None \<Longrightarrow>
     clientconnlist (init_clientconnlist st) ! j = clientconnlist st ! j"
  by (simp add: init_clientconnlist_def split: if_splits)

lemma open_system:
  assumes "system_ok st"
  shows "system_ok (snd (pcapsession_server_open os port st))"
    "system_ok (snd (pcapsession_livecapture_open os name st))"
    "system_ok (snd (pcapsession_filecapture_open dir n st))"
    "system_ok (snd (pcapsession_merger_open fname u st))"
    "system_ok (snd (pcapsession_client_open addr m st))"
    "system_ok (snd (pcapsession_clientconn_open f addr st))"
proof -
  note ok = system_okD(1) [OF assms] and t = system_okD(4) [OF assms]
  show "system_ok (snd (pcapsession_server_open os port st))"
    using server_opener.opener_sessions_ok [OF ok] server_opener.opener_keeps [OF t]
    by (intro system_ok_open [OF assms]) (simp_all add: succeeds_def sess_simps)
  show "system_ok (snd (pcapsession_livecapture_open os name st))"
    using livecapture_opener.opener_sessions_ok [OF ok] livecapture_opener.opener_keeps [OF t]
    by (intro system_ok_open [OF assms]) (simp_all add: succeeds_def sess_simps)
  show "system_ok (snd (pcapsession_filecapture_open dir n st))"
    using filecapture_opener.opener_sessions_ok [OF ok] filecapture_opener.opener_keeps [OF t]
    by (intro system_ok_open [OF assms]) (simp_all add: succeeds_def sess_simps)
  show "system_ok (snd (pcapsession_merger_open fname u st))"
    using merger_opener.opener_sessions_ok [OF ok] merger_opener.opener_keeps [OF t]
    by (intro system_ok_open [OF assms]) (simp_all add: succeeds_ptr_def sess_simps)
  show "system_ok (snd (pcapsession_client_open addr m st))"
    using client_opener.opener_sessions_ok [OF ok] client_opener.opener_keeps [OF t]
    by (intro system_ok_open [OF assms]) (simp_all add: succeeds_def sess_simps)
  show "system_ok (snd (pcapsession_clientconn_open f addr st))"
    using clientconn_opener.opener_sessions_ok [OF ok] clientconn_opener.opener_keeps [OF t] init_conn_nth
    by (intro system_ok_open [OF assms]) (simp_all add: succeeds_def sess_simps)
qed

section \<open>Packets keep the invariant\<close>

lemma system_ok_same:
  assumes "system_ok st" "same_table st st'"
  shows "system_ok st'"
proof -
  have c: "conns_ok st'" by (rule same_table_conns_ok [OF system_okD(3) [OF assms(1)] assms(2)])
  have s: "state (sess st' j) = state (sess st j)" if "j < 128" for j
    using assms(2) that same_session_simps(1) by (simp add: same_table_def)
  have "state (sess st' j) \<notin> {0, 2, 3}" if "j < 128" "clientconnlist st' ! j \<noteq> None" for j
  proof -
    have "clientconnlist st ! j \<noteq> None" using assms(2) that by (auto simp: same_table_def)
    then show ?thesis using system_ok_listed(4) [OF assms(1) that(1)] s [OF that(1)] by simp
  qed
  then show ?thesis using c by (auto simp: system_ok_def conns_ok_def)
qed

lemma pcap_dump_initialized [sess_simps]:
  "clientconnlist_initialized (pcap_dump d pkt st) = clientconnlist_initialized st"
  by (simp add: pcap_dump_def fault_at_def ext_do_def)

text \<open>Whatever polling answers, and however the answer changes from one poll to the next.\<close>

lemma conn_step_same_any:
  assumes "conns_ok st" "j < 128"
  shows "same_table st (conn_step os pkt j st)" "whole pkt \<longrightarrow> faults (conn_step os pkt j st) = faults st"
proof -
  have "(same_table st (conn_step os pkt j st)) \<and> (whole pkt \<longrightarrow> faults (conn_step os pkt j st) = faults st)"
  proof (cases "listed st j")
    case True
    then have l: "clientconnlist st ! j = Some j" "state (sess st j) = 4" "sid (sess st j) = int j"
        "pcap_dumper (sess st j) \<noteq> 0" "length (session_list st) = 128" "length (clientconnlist st) = 128"
      using assms by (auto simp: conns_ok_def dump_list_ok_def listed_def sessions_ok_def session_ok_def tables_ok_def)
    then show ?thesis
      using assms(2)
      by (auto simp: conn_step_def pcapsession_clientconn_client_handle_packet_def iotests_fd_open_eq set_conn_def
          Let_def same_table_def sess_simps nth_list_update)
  next
    case False
    then have "conn_step os pkt j st = st"
      using assms by (auto simp: listed_def conn_step_def conns_ok_def dump_list_ok_def
          pcapsession_clientconn_client_handle_packet_def)
    then show ?thesis by simp
  qed
  then show "same_table st (conn_step os pkt j st)" "whole pkt \<longrightarrow> faults (conn_step os pkt j st) = faults st"
    by simp_all
qed

lemma handler_same_any:
  assumes "conns_ok st" "i < 128"
  shows "same_table st (pcapsession_clientconn_packet_handler os (Some i) pkt st) \<and>
    (whole pkt \<longrightarrow> faults (pcapsession_clientconn_packet_handler os (Some i) pkt st) = faults st)"
proof -
  have f: "same_table st (fold (conn_step os pkt) js st) \<and> (whole pkt \<longrightarrow> faults (fold (conn_step os pkt) js st) = faults st)"
    if "conns_ok st" "set js \<subseteq> {..<128}" for js st
    using that
  proof (induction js arbitrary: st)
    case (Cons j js)
    have j: "j < 128" "set js \<subseteq> {..<128}" using Cons.prems(2) by simp_all
    note e = conn_step_same_any [OF Cons.prems(1) j(1), where os = os and pkt = pkt]
    show ?case
      using Cons.IH [OF same_table_conns_ok [OF Cons.prems(1) e(1)] j(2)] same_table_trans [OF e(1)] e(2) by simp
  qed simp
  note c = handler_counted [OF assms, where pkt = pkt]
  show ?thesis
    using f [OF c(1), of "[0..<128]"] same_table_trans [OF c(2)]
    by (simp add: pcapsession_clientconn_packet_handler_def subset_eq sess_simps)
qed

lemma same_table_set:
  assumes "\<And>s. same_session s (f s)"
  shows "same_table st (set_sess i f st)"
proof -
  have "same_session (sess st j) (sess (set_sess i f st) j)" for j
    using assms by (cases "j < length (session_list st)"; cases "i = j") (simp_all add: set_sess_def list_update_beyond)
  then show ?thesis by (simp add: same_table_def sess_simps)
qed

lemma same_table_world:
  "session_list st' = session_list st \<Longrightarrow> clientconnlist st' = clientconnlist st \<Longrightarrow>
   session_handling_state st' = session_handling_state st \<Longrightarrow>
   clientconnlist_initialized st' = clientconnlist_initialized st \<Longrightarrow> same_table st st'"
  by (simp add: same_table_def)

lemma merger_handler_same: "same_table st (pcapsession_merger_packet_handler (Some i) pkt st)"
proof (cases "handler (sess st i)")
  case None
  then show ?thesis by (simp add: pcapsession_merger_packet_handler_def)
next
  case (Some m)
  have f: "same_table st (fault_at x st)" for x
    by (rule same_table_world) (simp_all add: fault_at_def)
  have "same_table st (set_sess m (\<lambda>s. s\<lparr>mon := mo\<rparr>) st)" for mo
    by (rule same_table_set) (simp add: same_session_def)
  then have u: "same_table st (snd (merger_untunnel m pkt st))"
    using f by (auto simp: merger_untunnel_def split: sum.split)
  have d: "same_table s (pcap_dump x k s)" for s x k
    by (rule same_table_world) (simp_all add: sess_simps)
  have c: "same_table s (set_sess k (count_in pkt) s)" for s k
    by (rule same_table_set) simp
  show ?thesis
    using same_table_trans [OF same_table_trans [OF same_table_trans [OF u d] c] c] Some
    by (simp add: pcapsession_merger_packet_handler_def Let_def split_def)
qed

section \<open>Threads keep the invariant\<close>

text \<open>
  A session whose thread is running and which is not on the list of client connections; every step of a
  run function keeps this.
\<close>

definition unlisted :: "nat \<Rightarrow> gstate \<Rightarrow> bool" where
  "unlisted i st \<longleftrightarrow> system_ok st \<and> i < 128 \<and> clientconnlist st ! i = None \<and> state (sess st i) \<noteq> 0"

lemma unlistedD:
  assumes "unlisted i st"
  shows "system_ok st" "sid (sess st i) = int i" "i < 128"
  using assms sessions_okD(2) [OF system_okD(1)] by (auto simp: unlisted_def)

lemma unlisted_set:
  assumes "unlisted i st" "\<And>s. sid (f s) = sid s \<and> runner (f s) = runner s \<and> stopper (f s) = stopper s"
    "state (f (sess st i)) \<noteq> 0"
  shows "unlisted i (set_sess i f st)"
proof -
  have u: "system_ok st" "i < 128" "clientconnlist st ! i = None" "state (sess st i) \<noteq> 0"
    using assms(1) by (simp_all add: unlisted_def)
  have o: "only i st (set_sess i f st)" by (rule only_set [OF system_okD(1) [OF u(1)] u(2,4) assms(2)])
  have "system_ok (set_sess i f st)"
    by (rule system_ok_only [OF u(1) o u(2)]) (simp add: conn_kept_def sess_simps u)
  then show ?thesis
    using u assms(3) system_okD(5) [OF u(1)] by (simp add: unlisted_def sess_simps)
qed

lemma unlisted_same: "unlisted i st \<Longrightarrow> same_table st st' \<Longrightarrow> unlisted i st'"
  using system_ok_same [of st st'] same_session_simps(1) [of "sess st i" "sess st' i"]
  by (auto simp: unlisted_def same_table_def)

lemma unlisted_used: "unlisted i st \<Longrightarrow> state (sess st i) \<noteq> 0"
  by (simp add: unlisted_def)

lemma unlisted_world [run_intros]:
  assumes "unlisted i st"
  shows "unlisted i (ext_do c st)" "unlisted i (fault_at f st)" "unlisted i (st\<lparr>hist := h\<rparr>)" "unlisted i (st\<lparr>clocks := k\<rparr>)"
  by (rule unlisted_same [OF assms same_table_world]; simp add: ext_do_def fault_at_def)+

text \<open>The identifier may have been read before the last call.\<close>

lemma unlisted_change [run_intros]:
  assumes "unlisted i st'" "unlisted i st" "x \<noteq> 0"
  shows "unlisted i (pcapsession_change_state (sid (sess st' i)) x st)"
  using unlisted_set [OF assms(2), of "\<lambda>s. s\<lparr>state := x\<rparr>"] unlistedD [OF assms(1)] assms(3)
  by (simp add: change_state_eq)

lemma unlisted_fields [run_intros]:
  assumes "unlisted i st"
  shows "unlisted i (set_sess i (\<lambda>s. s\<lparr>pcap_handle := h\<rparr>) st)" "unlisted i (set_sess i (\<lambda>s. s\<lparr>fd := x\<rparr>) st)"
    "unlisted i (set_sess i (\<lambda>s. s\<lparr>pcap_dumper := d\<rparr>) st)" "unlisted i (set_sess i (\<lambda>s. s\<lparr>mon := m\<rparr>) st)"
    "unlisted i (set_sess i (\<lambda>s. s\<lparr>fd := x, supervise_fd := y\<rparr>) st)"
    "unlisted i (set_sess i (\<lambda>s. s\<lparr>supervise_fd := y, fd := x\<rparr>) st)" "unlisted i (set_sess i count_iteration st)"
  using unlisted_used [OF assms] by (auto intro!: unlisted_set [OF assms] simp: count_iteration_def split: if_splits)

lemma unlisted_monitor [run_intros]: "unlisted i st \<Longrightarrow> unlisted i (open_monitor os f i st)"
  by (cases "clocks st f = 0") (simp_all add: open_monitor_def Let_def split_def ext_def run_intros)

lemma unlisted_close [run_intros]: "unlisted i st \<Longrightarrow> unlisted i (close_on h st)"
  by (simp add: close_on_def run_intros)

lemma unlisted_loop:
  assumes "unlisted i st" "\<And>pkt st. unlisted i st \<Longrightarrow> unlisted i (cb pkt st)"
  shows "unlisted i (loop_on env cb h st)"
proof -
  have "unlisted i (pcap_loop cb pkts st)" if "unlisted i st" for pkts st
    using that assms(2) by (induction pkts arbitrary: st) simp_all
  then show ?thesis using assms(1) by (simp add: loop_on_def run_intros)
qed

lemma unlisted_capture [run_intros]:
  "unlisted i st \<Longrightarrow> unlisted i (loop_on env (pcapsession_clientconn_packet_handler os (Some i)) h st)"
proof (rule unlisted_loop)
  fix pkt st
  assume u: "unlisted i st"
  show "unlisted i (pcapsession_clientconn_packet_handler os (Some i) pkt st)"
    using handler_same_any [OF system_okD(3) [OF unlistedD(1) [OF u]] unlistedD(3) [OF u]] u
    by (blast intro: unlisted_same)
qed

lemma unlisted_merge [run_intros]:
  "unlisted i st \<Longrightarrow> unlisted i (loop_on env (pcapsession_merger_packet_handler (Some i)) h st)"
  by (rule unlisted_loop) (auto intro: unlisted_same [OF _ merger_handler_same])

lemma geterr_unlisted [run_intros]: "unlisted i st \<Longrightarrow> unlisted i (geterr_closed h st)"
  by (simp add: geterr_closed_def run_intros)

lemma livecapture_run_unlisted: "unlisted i st \<Longrightarrow> unlisted i (pcapsession_livecapture_run os env (Some i) st)"
  by (simp add: pcapsession_livecapture_run_def Let_def run_intros)

lemma client_run_unlisted: "unlisted i st \<Longrightarrow> unlisted i (pcapsession_client_run os env (Some i) st)"
  by (simp add: pcapsession_client_run_def Let_def split_def ext_def run_intros)

lemma merger_run_unlisted: "unlisted i st \<Longrightarrow> unlisted i (pcapsession_merger_run os (Some i) st)"
  by (simp add: pcapsession_merger_run_def Let_def split_def ext_def run_intros)

lemma stream_entries_unlisted:
  "unlisted i st \<Longrightarrow> unlisted i (snd (snd (stream_entries os env i es c st)))"
proof (induction es arbitrary: c st)
  case (Cons n es)
  have p: "unlisted i (snd (file_path i n st))"
    using Cons.prems by (simp add: file_path_def Let_def run_intros split: sum.split)
  show ?case
    by (auto simp: Let_def split_def ext_def simp del: stream_entries.simps(1)
        intro!: Cons.IH run_intros p Cons.prems)
qed simp

lemma filecapture_loop_unlisted:
  "unlisted i st \<Longrightarrow> filecapture_loop os env fuel i st = Some st' \<Longrightarrow> unlisted i st'"
proof (induction fuel arbitrary: st)
  case (Suc fuel)
  define st1 where "st1 = ext_do (Opendir (description (sess (set_sess i count_iteration st) i))) (set_sess i count_iteration st)"
  have u1: "unlisted i st1" unfolding st1_def by (intro run_intros Suc.prems(1))
  show ?case
  proof (cases "entries env (hist (set_sess i count_iteration st)) (description (sess (set_sess i count_iteration st) i))")
    case None
    then show ?thesis using Suc.prems(2) u1
      by (auto simp: st1_def [symmetric] Let_def intro!: run_intros)
  next
    case (Some es)
    obtain failed n st2 where e: "stream_entries os env i es 0 st1 = (failed, n, st2)" by (cases "stream_entries os env i es 0 st1")
    have u2: "unlisted i st2" "unlisted i (ext_do Closedir st2)"
      using stream_entries_unlisted [OF u1, of os env es 0] e by (auto intro!: run_intros)
    show ?thesis
      using Suc.prems(2) u2 Suc.IH [OF u2(2)]
      by (auto simp: Some st1_def [symmetric] e Let_def split: if_splits intro!: run_intros)
  qed
qed simp

lemma filecapture_run_unlisted:
  "unlisted i st \<Longrightarrow> pcapsession_filecapture_run os env fuel (Some i) st = Some st' \<Longrightarrow> unlisted i st'"
  unfolding pcapsession_filecapture_run_def Let_def option.case
  by (erule filecapture_loop_unlisted [rotated]) (simp add: run_intros)

lemma clientconn_open_unlisted:
  assumes "unlisted i st"
  shows "unlisted i (snd (pcapsession_clientconn_open f addr st))"
proof -
  note u = unlistedD [OF assms] unlisted_used [OF assms]
  have "keeps_used st (snd (pcapsession_clientconn_open f addr st))"
    using clientconn_opener.opener_keeps [OF system_okD(4) [OF u(1)]] by (simp add: succeeds_def)
  then have "sess (snd (pcapsession_clientconn_open f addr st)) i = sess st i"
    using u by (simp add: keeps_used_def)
  moreover have "clientconnlist (init_clientconnlist st) ! i = None"
    using assms by (simp add: init_clientconnlist_def unlisted_def)
  ultimately show ?thesis using open_system(6) [OF u(1)] u by (simp add: unlisted_def sess_simps)
qed

lemma server_loop_unlisted: "unlisted i st \<Longrightarrow> server_loop os fuel i st = Some st' \<Longrightarrow> unlisted i st'"
proof (induction fuel arbitrary: st)
  case (Suc fuel)
  obtain r st1 where e: "poll_server_socket os (fd (sess st i)) (Some pcapsession_clientconn_open) (Some 200) st = (r, st1)"
    by fastforce
  have "unlisted i (snd (poll_server_socket os (fd (sess st i)) (Some pcapsession_clientconn_open) (Some 200) st))"
    using Suc.prems(1)
    by (simp add: poll_server_socket_def Let_def split_def ext_def clientconn_open_unlisted run_intros)
  then have u: "unlisted i st1" using e by simp
  show ?case
    using Suc.prems u e Suc.IH [OF u] Suc.IH [OF unlisted_change [OF u u, of 5]]
    by (auto simp: Let_def split: if_splits intro!: run_intros)
qed simp

text \<open>The thread of a client connection puts its session on the list once its dumper is open.\<close>

lemma set_conn_system:
  assumes u: "unlisted i st" and p: "pcap_dumper (sess st i) \<noteq> 0" "stopper (sess st i) = Some Clientconn"
    "state (sess st i) = 4"
  shows "system_ok (set_conn (int i) (Some i) st)"
proof (rule system_okI)
  note s = unlistedD(1) [OF u] and i = unlistedD(3) [OF u]
  show "sessions_ok (set_conn (int i) (Some i) st)"
    using system_okD(1) [OF s] i by (simp add: sessions_ok_def tables_ok_def set_conn_def)
  fix j :: nat
  assume "j < 128" "clientconnlist (set_conn (int i) (Some i) st) ! j \<noteq> None"
  then show "clientconnlist (set_conn (int i) (Some i) st) ! j = Some j \<and>
      pcap_dumper (sess (set_conn (int i) (Some i) st) j) \<noteq> 0 \<and>
      stopper (sess (set_conn (int i) (Some i) st) j) = Some Clientconn \<and>
      state (sess (set_conn (int i) (Some i) st) j) \<notin> {0, 2, 3}"
    using p i system_okD(6) [OF s] system_ok_listed [OF s, of j]
    by (cases "j = i") (simp_all add: sess_simps)
qed

lemma clientconn_run_system:
  assumes u: "unlisted i st" and k: "stopper (sess st i) = Some Clientconn"
  shows "system_ok (pcapsession_clientconn_run os (Some i) st)"
proof -
  note d = unlistedD [OF u]
  have l: "length (session_list st) = 128" using system_okD [OF d(1)] by simp
  define st1 where "st1 = open_monitor os F_clientconn i (pcapsession_change_state (sid (sess st i)) 4 st)"
  have u1: "unlisted i st1" unfolding st1_def by (simp add: u run_intros)
  obtain m where s1: "sess st1 i = (sess st i)\<lparr>state := 4, mon := Some m\<rparr>"
    using open_monitor_nth(1) [of i "pcapsession_change_state (sid (sess st i)) 4 st" os F_clientconn] d l
    by (auto simp: st1_def sess_simps)
  define dead where "dead = os (hist st1) Pcap_open_dead"
  define h where "h = Fdopen (fd (sess st1 i)) # Pcap_open_dead # hist st1"
  define c where "c = Pcap_dump_fopen dead (os (Pcap_open_dead # hist st1) (Fdopen (fd (sess st1 i))))"
  define st2 where "st2 = set_sess i (\<lambda>s. s\<lparr>pcap_dumper := os h c\<rparr>) (st1\<lparr>hist := c # h\<rparr>)"
  define st3 where "st3 = (if dead \<noteq> 0 then ext_do (Pcap_close dead) st2 else st2)"
  have run: "pcapsession_clientconn_run os (Some i) st =
      (if pcap_dumper (sess st3 i) = 0 then pcapsession_change_state (sid (sess st3 i)) 5 (geterr_closed dead st3)
       else set_conn (sid (sess st3 i)) (Some i) st3)"
    by (simp add: pcapsession_clientconn_run_def Let_def st1_def [symmetric] ext_def st3_def st2_def h_def c_def
        dead_def)
  have u2: "unlisted i st2" unfolding st2_def by (intro run_intros u1)
  have "sess st2 i = (sess st1 i)\<lparr>pcap_dumper := os h c\<rparr>"
    using system_okD(5) [OF unlistedD(1) [OF u1]] d(3) by (simp add: st2_def sess_simps)
  then have u3: "unlisted i st3" "sess st3 i = (sess st1 i)\<lparr>pcap_dumper := os h c\<rparr>"
    using u2 by (simp_all add: st3_def run_intros sess_simps)
  have "unlisted i (pcapsession_change_state (sid (sess st3 i)) 5 (geterr_closed dead st3))"
    using u3(1) by (simp add: run_intros)
  then show ?thesis
    using set_conn_system [OF u3(1)] u3(2) s1 k unlistedD(2) [OF u3(1)] unlistedD(1) unfolding run by auto
qed

section \<open>The system\<close>

text \<open>
  The operations as steps. The thread of a session runs when session handling has started it; packets of
  a running capture or connection may also arrive one at a time between other steps.
\<close>

inductive step :: "os \<Rightarrow> capture_env \<Rightarrow> gstate \<Rightarrow> gstate \<Rightarrow> bool" for os env where
  open_server: "step os env st (snd (pcapsession_server_open os port st))"
| open_livecapture: "step os env st (snd (pcapsession_livecapture_open os name st))"
| open_filecapture: "step os env st (snd (pcapsession_filecapture_open dir n st))"
| open_merger: "step os env st (snd (pcapsession_merger_open fname u st))"
| open_client: "step os env st (snd (pcapsession_client_open addr m st))"
| accept: "step os env st (snd (pcapsession_clientconn_open f addr st))"
| supervise: "step os env st (snd (supervision_pass os st))"
| close: "step os env st (pcapsession_handling_close st)"
| run_server: "i < 128 \<Longrightarrow> state (sess st i) = 3 \<Longrightarrow> runner (sess st i) = Some Server \<Longrightarrow>
    pcapsession_server_run os fuel (Some i) st = Some st' \<Longrightarrow> step os env st st'"
| run_clientconn: "i < 128 \<Longrightarrow> state (sess st i) = 3 \<Longrightarrow> runner (sess st i) = Some Clientconn \<Longrightarrow>
    step os env st (pcapsession_clientconn_run os (Some i) st)"
| run_livecapture: "i < 128 \<Longrightarrow> state (sess st i) = 3 \<Longrightarrow> runner (sess st i) = Some Livecapture \<Longrightarrow>
    step os env st (pcapsession_livecapture_run os env (Some i) st)"
| run_filecapture: "i < 128 \<Longrightarrow> state (sess st i) = 3 \<Longrightarrow> runner (sess st i) = Some Filecapture \<Longrightarrow>
    pcapsession_filecapture_run os env fuel (Some i) st = Some st' \<Longrightarrow> step os env st st'"
| run_merger: "i < 128 \<Longrightarrow> state (sess st i) = 3 \<Longrightarrow> runner (sess st i) = Some Merger \<Longrightarrow>
    step os env st (pcapsession_merger_run os (Some i) st)"
| run_client: "i < 128 \<Longrightarrow> state (sess st i) = 3 \<Longrightarrow> runner (sess st i) = Some Client \<Longrightarrow>
    step os env st (pcapsession_client_run os env (Some i) st)"
| packet: "i < 128 \<Longrightarrow> step os env st (pcapsession_clientconn_packet_handler os (Some i) pkt st)"
| merge: "step os env st (pcapsession_merger_packet_handler (Some i) pkt st)"

inductive reachable :: "os \<Rightarrow> capture_env \<Rightarrow> gstate \<Rightarrow> bool" for os env where
  start: "reachable os env (snd (pcapsession_handling_init os init_gstate))"
| further: "reachable os env st \<Longrightarrow> step os env st st' \<Longrightarrow> reachable os env st'"

inductive_cases stepE: "step os env st st'"

lemma starting_unlisted:
  assumes "system_ok st" "i < 128" "state (sess st i) = 3"
  shows "unlisted i st"
proof -
  have "clientconnlist st ! i = None"
    using system_ok_listed(4) [OF assms(1,2)] assms(3) by (cases "clientconnlist st ! i") simp_all
  then show ?thesis using assms by (simp add: unlisted_def)
qed

lemma server_run_system:
  assumes "unlisted i st" "pcapsession_server_run os fuel (Some i) st = Some st'"
  shows "system_ok st'"
proof -
  have "unlisted i (pcapsession_change_state (sid (sess st i)) 4 st)" using assms(1) by (simp add: run_intros)
  then show ?thesis
    using server_loop_unlisted [of i _ os fuel st'] assms(2) unlistedD(1) [of i st']
    by (simp add: pcapsession_server_run_def)
qed

lemma step_system:
  assumes "step os env st st'" "system_ok st"
  shows "system_ok st'"
  using assms
proof (induction rule: step.induct)
  case (close st)
  then show ?case
    by (simp add: system_ok_def sessions_ok_def tables_ok_def dump_list_ok_def pcapsession_handling_close_def)
next
  case (run_clientconn i st)
  note u = starting_unlisted [OF run_clientconn(4,1,2)]
  have "stopper (sess st i) = Some Clientconn"
    using sessions_okD(4) [OF system_okD(1) [OF run_clientconn(4)] run_clientconn(1)] run_clientconn(2,3) by auto
  then show ?case by (rule clientconn_run_system [OF u])
next
  case (packet i st pkt)
  then show ?case
    using handler_same_any [OF system_okD(3) [OF packet(2)] packet(1)] system_ok_same by blast
next
  case (merge st i pkt)
  then show ?case using system_ok_same merger_handler_same by blast
qed (auto intro: open_system supervision_pass_system server_run_system starting_unlisted
    unlistedD(1) [OF livecapture_run_unlisted] unlistedD(1) [OF filecapture_run_unlisted]
    unlistedD(1) [OF merger_run_unlisted] unlistedD(1) [OF client_run_unlisted])

lemma change_state_unused_same:
  assumes "i < 128" "state (sess st i) = 0"
  shows "pcapsession_change_state (int i) 0 st = st"
proof -
  have "(sess st i)\<lparr>state := 0\<rparr> = sess st i" using assms(2) by simp
  then show ?thesis using assms(1) by (simp add: change_state_eq set_sess_def)
qed

lemma fold_unused_same:
  assumes "\<forall>i \<in> set is. i < 128 \<and> state (sess st i) = 0"
  shows "fold (\<lambda>i. pcapsession_change_state (int i) 0) is st = st"
  using assms by (induction "is") (simp_all add: change_state_unused_same)

lemma handling_init_system: "system_ok (snd (pcapsession_handling_init os init_gstate))"
proof -
  define st where "st = init_gstate\<lparr>session_handling_state := 3\<rparr>"
  have z: "sess st i = zero_session" if "i < 128" for i
    using that by (simp add: st_def init_gstate_def)
  have f: "fold (\<lambda>i. pcapsession_change_state (int i) 0) [0..<128] st = st"
    by (rule fold_unused_same) (simp add: z)
  have ok: "system_ok (st\<lparr>hist := h, session_handling_state := x\<rparr>)" "system_ok (st\<lparr>hist := h\<rparr>)" for h x
    by (rule system_okI; use z in \<open>auto simp: sessions_ok_def tables_ok_def st_def init_gstate_def\<close>)+
  have e: "init_gstate\<lparr>session_handling_state := 3, session_list := replicate 128 zero_session\<rparr> = st"
    by (simp add: st_def init_gstate_def)
  show ?thesis
    using ok f by (simp add: pcapsession_handling_init_def Let_def e ext_def split_def) (simp add: init_gstate_def)
qed

lemma reachable_system: "reachable os env st \<Longrightarrow> system_ok st"
  by (induction rule: reachable.induct) (auto intro: handling_init_system step_system)

section \<open>Properties\<close>

text \<open>
  C5: the invariant of the system. In every state that the initialisation and any sequence of openings,
  accepts, supervision rounds, thread runs and packets can reach, every session in use carries its own
  index and a matching pair of run and stop functions, and every entry of the list of client connections
  is a client connection in use, under its own index, with an open dumper.
\<close>

theorem reachable_sessions_ok:
  assumes "reachable os env st"
  shows "sessions_ok st \<and> dump_list_ok st"
  using reachable_system [OF assms] by (simp add: system_ok_def)

text \<open>
  C12: distribution is safe. In every reachable state, handing a whole packet to the client connections
  runs into no undefined behaviour, whatever polling the descriptors answers.
\<close>

theorem reachable_distribution_safe:
  assumes "reachable os env st" and "i < 128" and "whole pkt"
  shows "faults (pcapsession_clientconn_packet_handler os (Some i) pkt st) = faults st"
  using handler_same_any [OF system_okD(3) [OF reachable_system [OF assms(1)]] assms(2)] assms(3) by blast

text \<open>A reachable state with one accepted connection.\<close>

lemma accepted_reachable:
  "reachable quiet_os file_env (snd (pcapsession_clientconn_open 7 zero_sockaddr
     (snd (pcapsession_handling_init quiet_os init_gstate))))"
  by (rule reachable.further [OF reachable.start step.accept])

theorem reachable_sessions_ok_witness:
  "sessions_ok (snd (pcapsession_clientconn_open 7 zero_sockaddr
     (snd (pcapsession_handling_init quiet_os init_gstate))))"
  using reachable_sessions_ok [OF accepted_reachable] by simp

theorem reachable_distribution_safe_witness:
  "faults (pcapsession_clientconn_packet_handler quiet_os (Some 0)
     (\<lparr>ts_sec = 1, ts_usec = 2, caplen = 3, pkt_len = 60\<rparr>, [1, 2, 3])
     (snd (pcapsession_clientconn_open 7 zero_sockaddr (snd (pcapsession_handling_init quiet_os init_gstate))))) =
   faults (snd (pcapsession_clientconn_open 7 zero_sockaddr (snd (pcapsession_handling_init quiet_os init_gstate))))"
  by (rule reachable_distribution_safe [OF accepted_reachable _ sample_whole]) simp

end
