(* ===== verification/Config.thy ===== *)
theory Config
  imports Monitor
begin

text \<open>
  \<open>utilities/config.c\<close> and \<open>utilities/genutils.c\<close>: the configuration file of the two programs, and the
  removal of a character from a string. The JSON library is a record of the functions that the code calls,
  over a type \<open>'j\<close> of JSON objects; buffers that a caller hands over are lists of characters, which the
  functions write with the bounds of the list.
\<close>

section \<open>genutils\<close>

text \<open>
  The loop moves the characters to keep to the front of the string while it reads it; \<open>strlen\<close> is
  evaluated again in every round.
\<close>

function strip_loop :: "char \<Rightarrow> nat \<Rightarrow> nat \<Rightarrow> string \<Rightarrow> nat \<times> string" where
  "strip_loop c i j mem =
     (if i < length (cstr mem) then
        if mem ! i \<noteq> c then strip_loop c (i + 1) (j + 1) (mem[j := mem ! i])
        else strip_loop c (i + 1) j mem
      else (j, mem))"
  by pat_completeness auto

lemma length_cstr_le: "length (cstr mem) \<le> length mem"
  by (simp add: cstr_def length_takeWhile_le)

termination strip_loop
  by (relation "measure (\<lambda>(c, i, j, mem). length mem - i)")
    (use length_cstr_le in \<open>auto intro: diff_less_mono2 dest: less_le_trans\<close>)

declare strip_loop.simps [simp del]

definition strip_char_from_string :: "string \<Rightarrow> char \<Rightarrow> string" where
  "strip_char_from_string mem c = (let (j, mem) = strip_loop c 0 0 mem in mem[j := NUL])"

section \<open>The JSON library\<close>

text \<open>
  \<open>json_object_from_file\<close> (\<open>None\<close> for an error pointer), \<open>json_object_array_length\<close>,
  \<open>json_object_array_get_idx\<close>, \<open>json_object_object_get\<close> and \<open>json_object_to_json_string\<close>; \<open>None\<close> is
  the null pointer.
\<close>

record 'j json_c =
  from_file :: "string \<Rightarrow> 'j option"
  array_length :: "'j \<Rightarrow> int"
  array_get_idx :: "'j \<Rightarrow> int \<Rightarrow> 'j option"
  object_get :: "'j option \<Rightarrow> string \<Rightarrow> 'j option"
  to_json_string :: "'j option \<Rightarrow> string"

text \<open>The file-scope variables. An error pointer in \<open>config_def\<close> is never followed and stands as null.\<close>

record 'j config_state =
  config_def :: "'j option"
  filter_config_read :: int

definition init_config :: "'j config_state" where
  "init_config = \<lparr>config_def = None, filter_config_read = 0\<rparr>"

section \<open>Operations\<close>

abbreviation (input) PCAP_SESSION_CONFIG_LOCATION :: string where
  "PCAP_SESSION_CONFIG_LOCATION \<equiv> ''/opt/ericsson/eniq-analysis/eniq-analysis/etc/filter''"

text \<open>
  \<open>exists\<close> is \<open>access (name, F_OK) != -1\<close>, \<open>env\<close> the value of the environment variable
  \<open>PCAP_SESSION_CONFIG_LOCATION\<close>. The path goes to an array of \<open>FILENAME_MAX\<close> characters.
\<close>

definition get_config_file_path :: "(string \<Rightarrow> bool) \<Rightarrow> string option \<Rightarrow> string \<Rightarrow> fault + int \<times> string" where
  "get_config_file_path exists env config_file_name =
     (let path =
        (if take 1 config_file_name = ''/'' \<or> exists config_file_name then config_file_name
         else (case env of None \<Rightarrow> PCAP_SESSION_CONFIG_LOCATION | Some d \<Rightarrow> d) @ ''/'' @ config_file_name)
      in sbind (str_into FILENAME_MAX path) (\<lambda>p. Inr (int (length p), p)))"

text \<open>The conversion of an \<open>int\<close> to the \<open>short\<close> that the functions return.\<close>

definition to_short :: "int \<Rightarrow> int" where
  "to_short i = (i + 2 ^ 15) mod 2 ^ 16 - 2 ^ 15"

definition read_filter_config :: "'j json_c \<Rightarrow> (string \<Rightarrow> bool) \<Rightarrow> string option \<Rightarrow> 'j config_state \<Rightarrow>
    int \<times> 'j config_state" where
  "read_filter_config J can_open config_filename st =
     (case config_filename of None \<Rightarrow> (-1, st)
      | Some f \<Rightarrow>
          if \<not> can_open f then (-1, st)
          else (case from_file J f of
             None \<Rightarrow> (-2, st\<lparr>config_def := None\<rparr>)
           | Some j \<Rightarrow> (to_short (array_length J j),
               st\<lparr>config_def := Some j, filter_config_read := filter_config_read st + 1\<rparr>)))"

text \<open>
  \<open>indices\<close> are the values of the loop counters. \<open>sprintf\<close> writes the text and its terminator to the buffer.
\<close>

definition indices :: "'j json_c \<Rightarrow> 'j \<Rightarrow> int list" where
  "indices J j = map int [0..<nat (array_length J j)]"

definition print_criteria :: "'j json_c \<Rightarrow> 'j \<Rightarrow> int \<Rightarrow> nat \<times> string \<Rightarrow> fault + nat \<times> string" where
  "print_criteria J j i = (\<lambda>(offset, buffer).
     let text = ''criteria:'' @ dec_int i @ ''='' @ to_json_string J (array_get_idx J j i) @ [CHR 0x0A, CHR 0x0A] in
     sbind (wr_bytes buffer offset (text @ [NUL])) (\<lambda>buffer. Inr (offset + length (cstr buffer), buffer)))"

definition print_filter_config :: "'j json_c \<Rightarrow> 'j config_state \<Rightarrow> string option \<Rightarrow> fault + int \<times> string option" where
  "print_filter_config J st buffer =
     (if filter_config_read st = 0 \<or> buffer \<noteq> None then
        (case config_def st of None \<Rightarrow> Inl Null_pointer
         | Some j \<Rightarrow>
             (case buffer of None \<Rightarrow> if indices J j = [] then Inr (0, None) else Inl Null_pointer
              | Some b \<Rightarrow> sbind (each (print_criteria J j) (indices J j) (0, b)) (\<lambda>(_, b). Inr (0, Some b))))
      else Inr (-1, buffer))"

text \<open>
  A value is copied behind its opening quote and its closing quote is overwritten: \<open>strcpy\<close> of the text
  from its second character on, then a terminator at the place of its last character.
\<close>

definition copy_unquoted :: "string \<Rightarrow> nat \<Rightarrow> string \<Rightarrow> fault + string" where
  "copy_unquoted mem offset json =
     (case json of [] \<Rightarrow> Inl Out_of_bounds
      | _ # local_value \<Rightarrow>
          sbind (wr_bytes mem offset (local_value @ [NUL])) (\<lambda>mem.
          if offset + length local_value = 0 then Inl Out_of_bounds
          else Inr (mem[offset + length local_value - 1 := NUL])))"

fun find_property :: "'j json_c \<Rightarrow> 'j \<Rightarrow> string \<Rightarrow> int list \<Rightarrow> 'j option" where
  "find_property J j name [] = None"
| "find_property J j name (i # is) =
     (case object_get J (array_get_idx J j i) name of None \<Rightarrow> find_property J j name is | Some v \<Rightarrow> Some v)"

definition get_property :: "'j json_c \<Rightarrow> 'j config_state \<Rightarrow> string option \<Rightarrow> string option \<Rightarrow> fault + int \<times> string option" where
  "get_property J st name value =
     (if filter_config_read st = 0 \<or> name = None \<or> value = None then Inr (-1, value)
      else (case config_def st of None \<Rightarrow> Inl Null_pointer
       | Some j \<Rightarrow>
           (case find_property J j (the name) (indices J j) of
              None \<Rightarrow> Inr (-1, value)
            | Some v \<Rightarrow> sbind (copy_unquoted (the value) 0 (to_json_string J (Some v))) (\<lambda>b. Inr (0, Some b)))))"

text \<open>The state of the two loops of \<open>get_properties\<close>: \<open>result\<close>, \<open>offset\<close> and the buffer.\<close>

definition inner_property :: "'j json_c \<Rightarrow> nat \<Rightarrow> string \<Rightarrow> 'j \<Rightarrow> int \<Rightarrow> int \<times> nat \<times> string \<Rightarrow> fault + int \<times> nat \<times> string" where
  "inner_property J element_size prop_name json_array i = (\<lambda>(result, offset, values).
     case object_get J (array_get_idx J json_array i) prop_name of
       None \<Rightarrow> Inr (result, offset, values)
     | Some v \<Rightarrow>
         sbind (copy_unquoted values offset (to_json_string J (Some v))) (\<lambda>values.
         Inr (if result = -1 then 1 else result + 1, offset + element_size, values)))"

definition outer_property :: "'j json_c \<Rightarrow> string \<Rightarrow> nat \<Rightarrow> string \<Rightarrow> 'j \<Rightarrow> int \<Rightarrow> int \<times> nat \<times> string \<Rightarrow> fault + int \<times> nat \<times> string" where
  "outer_property J array_name element_size prop_name j i s =
     (case object_get J (array_get_idx J j i) array_name of
        None \<Rightarrow> Inr s
      | Some json_array \<Rightarrow> each (inner_property J element_size prop_name json_array) (indices J json_array) s)"

definition get_properties :: "'j json_c \<Rightarrow> 'j config_state \<Rightarrow> string option \<Rightarrow> nat \<Rightarrow> string option \<Rightarrow> string option \<Rightarrow>
    fault + int \<times> string option" where
  "get_properties J st array_name element_size prop_name values =
     (if filter_config_read st = 0 \<or> array_name = None \<or> prop_name = None \<or> values = None then Inr (-1, values)
      else (case config_def st of None \<Rightarrow> Inl Null_pointer
       | Some j \<Rightarrow>
           sbind (each (outer_property J (the array_name) element_size (the prop_name) j) (indices J j) (-1, 0, the values))
             (\<lambda>(result, _, values). Inr (to_short result, Some values))))"

section \<open>Removal of a character\<close>

text \<open>
  Behind \<open>j\<close> characters already kept and a gap of characters already read, the loop works on the rest.
\<close>

lemma strip_loop_spec:
  assumes "mem = kept @ gap @ rest @ NUL # tail" and "NUL \<notin> set (kept @ gap @ rest)"
    and "i = length kept + length gap" and "j = length kept"
  shows "\<exists>gap'. length gap' + length (filter (\<lambda>x. x \<noteq> c) rest) = length gap + length rest \<and>
    strip_loop c i j mem = (length kept + length (filter (\<lambda>x. x \<noteq> c) rest),
      kept @ filter (\<lambda>x. x \<noteq> c) rest @ gap' @ NUL # tail)"
  using assms
proof (induction rest arbitrary: kept gap i j mem)
  case Nil
  have "cstr mem = kept @ gap"
    using Nil.prems cstr_nul [of "kept @ gap" tail] by simp
  then have "strip_loop c i j mem = (j, mem)"
    using Nil.prems(3) by (subst strip_loop.simps) simp
  then show ?case using Nil.prems by simp
next
  case (Cons r rest)
  have str: "cstr mem = kept @ gap @ r # rest"
    using Cons.prems cstr_nul [of "kept @ gap @ r # rest" tail] by simp
  have here: "mem ! i = r" "i < length (cstr mem)" using Cons.prems str by (simp_all add: nth_append)
  show ?case
  proof (cases "r = c")
    case True
    then have "strip_loop c i j mem = strip_loop c (i + 1) j mem"
      using here by (subst strip_loop.simps [of c i j mem]) simp
    then show ?thesis
      using Cons.IH [of mem kept "gap @ [r]" "i + 1" j] Cons.prems True by auto
  next
    case False
    define gap' where "gap' = tl (gap @ [r])"
    have upd: "mem[j := r] = (kept @ [r]) @ gap' @ rest @ NUL # tail"
      using Cons.prems by (cases gap) (simp_all add: gap'_def list_update_append)
    have len: "length gap' = length gap" by (cases gap) (simp_all add: gap'_def)
    have no_nul: "NUL \<notin> set ((kept @ [r]) @ gap' @ rest)"
      using Cons.prems(2) by (cases gap) (auto simp: gap'_def)
    have "strip_loop c i j mem = strip_loop c (i + 1) (j + 1) (mem[j := r])"
      using False here by (subst strip_loop.simps [of c i j mem]) simp
    then show ?thesis
      using Cons.IH [OF upd no_nul, of "i + 1" "j + 1"] Cons.prems(3,4) False len by auto
  qed
qed

lemma cstr_split:
  assumes "NUL \<in> set mem"
  obtains tail where "mem = cstr mem @ NUL # tail"
proof -
  have "dropWhile (\<lambda>c. c \<noteq> NUL) mem \<noteq> []" using assms by auto
  then obtain x xs where d: "dropWhile (\<lambda>c. c \<noteq> NUL) mem = x # xs" by (cases "dropWhile (\<lambda>c. c \<noteq> NUL) mem") auto
  then have "x = NUL" by (auto dest: dropWhile_eq_Cons_conv [THEN iffD1])
  then show thesis using that [of xs] takeWhile_dropWhile_id [of "\<lambda>c. c \<noteq> NUL" mem] d by (simp add: cstr_def)
qed

lemma strip_char_spec:
  assumes "NUL \<in> set mem"
  shows "cstr (strip_char_from_string mem c) = filter (\<lambda>x. x \<noteq> c) (cstr mem) \<and>
    length (strip_char_from_string mem c) = length mem \<and> NUL \<in> set (strip_char_from_string mem c)"
proof -
  obtain tail where m: "mem = cstr mem @ NUL # tail" using cstr_split [OF assms] .
  let ?f = "filter (\<lambda>x. x \<noteq> c) (cstr mem)"
  have n: "NUL \<notin> set (cstr mem)" by (rule cstr_no_nul)
  obtain gap where l: "length gap + length ?f = length (cstr mem)"
    and g: "strip_loop c 0 0 mem = (length ?f, ?f @ gap @ NUL # tail)"
    using strip_loop_spec [of mem "[]" "[]" "cstr mem" tail 0 0 c] m n by auto
  have s: "strip_char_from_string mem c = ?f @ (gap @ NUL # tail)[0 := NUL]"
    by (simp add: strip_char_from_string_def g list_update_append)
  then obtain r where r: "strip_char_from_string mem c = ?f @ NUL # r" by (cases gap) simp_all
  have "NUL \<notin> set ?f" using n by simp
  then have "cstr (strip_char_from_string mem c) = ?f" using cstr_nul [of ?f r] r by simp
  moreover have "length (strip_char_from_string mem c) = length mem"
    using l arg_cong [OF m, of length] by (simp add: s)
  ultimately show ?thesis using r by simp
qed

text \<open>
  Removing a character. The in-place loop of \<open>strip_char_from_string\<close> ends on every terminated string
  and leaves the string without the occurrences of the character, in the same array.
\<close>

theorem strip_char_filters:
  assumes "NUL \<in> set mem"
  shows "cstr (strip_char_from_string mem c) = filter (\<lambda>x. x \<noteq> c) (cstr mem) \<and>
    length (strip_char_from_string mem c) = length mem"
  using strip_char_spec [OF assms] by blast

theorem strip_char_filters_witness:
  "cstr (strip_char_from_string (''a'' @ [CHR 0x5C] @ ''/b'' @ [NUL, NUL]) (CHR 0x5C)) = ''a/b''"
  using strip_char_filters [of "''a'' @ [CHR 0x5C] @ ''/b'' @ [NUL, NUL]" "CHR 0x5C"] by (simp add: cstr_def)

section \<open>Properties\<close>

definition quoted :: "string \<Rightarrow> string" where
  "quoted w = CHR 0x22 # w @ [CHR 0x22]"

definition unquote :: "string \<Rightarrow> string" where
  "unquote s = butlast (tl s)"

text \<open>A value of the documented form, a string, that fits a place of \<open>n\<close> characters with its closing quote.\<close>

definition string_value :: "'j json_c \<Rightarrow> nat \<Rightarrow> 'j \<Rightarrow> bool" where
  "string_value J n v \<longleftrightarrow> (\<exists>w. to_json_string J (Some v) = quoted w \<and> NUL \<notin> set w \<and> length w + 2 \<le> n)"

lemma unquote_quoted [simp]: "unquote (quoted w) = w"
  by (simp add: unquote_def quoted_def)

lemma copy_unquoted_in:
  assumes "offset + length w + 2 \<le> length mem"
  shows "copy_unquoted mem offset (quoted w) =
    Inr (take offset mem @ w @ [NUL, NUL] @ drop (offset + length w + 2) mem)"
proof -
  have "wr_bytes mem offset ((w @ [CHR 0x22]) @ [NUL]) =
      Inr (take offset mem @ w @ [CHR 0x22, NUL] @ drop (offset + length w + 2) mem)"
    using assms by (simp add: wr_bytes_def add.assoc)
  moreover have "length (take offset mem) = offset" using assms by simp
  ultimately show ?thesis
    by (simp add: copy_unquoted_def quoted_def list_update_append nth_append)
qed

text \<open>The values that the two loops of \<open>get_properties\<close> come to, in their order.\<close>

definition elements :: "'j json_c \<Rightarrow> 'j \<Rightarrow> string \<Rightarrow> 'j list" where
  "elements J j name = concat (map (\<lambda>i.
     case object_get J (array_get_idx J j i) name of None \<Rightarrow> [] | Some v \<Rightarrow> [v]) (indices J j))"

definition found_values :: "'j json_c \<Rightarrow> 'j \<Rightarrow> string \<Rightarrow> string \<Rightarrow> 'j list" where
  "found_values J j array_name prop_name =
     concat (map (\<lambda>json_array. elements J json_array prop_name) (elements J j array_name))"

definition put_value :: "'j json_c \<Rightarrow> nat \<Rightarrow> 'j \<Rightarrow> int \<times> nat \<times> string \<Rightarrow> fault + int \<times> nat \<times> string" where
  "put_value J element_size v = (\<lambda>(result, offset, values).
     sbind (copy_unquoted values offset (to_json_string J (Some v))) (\<lambda>values.
       Inr (if result = -1 then 1 else result + 1, offset + element_size, values)))"

lemma each_concat: "each (\<lambda>x. each g (h x)) xs s = each g (concat (map h xs)) s"
proof (induction xs arbitrary: s)
  case (Cons x xs)
  then have "each (\<lambda>x. each g (h x)) xs = each g (concat (map h xs))" by (rule ext)
  then show ?case by (simp add: each_append)
qed simp

lemma inner_loop:
  "each (inner_property J n name json_array) (indices J json_array) s = each (put_value J n) (elements J json_array name) s"
proof -
  have "inner_property J n name json_array =
      (\<lambda>i. each (put_value J n) (case object_get J (array_get_idx J json_array i) name of None \<Rightarrow> [] | Some v \<Rightarrow> [v]))"
    by (intro ext) (auto simp: inner_property_def put_value_def sbind_def split: option.splits sum.splits)
  then show ?thesis by (simp add: each_concat elements_def)
qed

lemma outer_loop:
  "each (outer_property J array_name n name j) (indices J j) s = each (put_value J n) (found_values J j array_name name) s"
proof -
  have "outer_property J array_name n name j =
      (\<lambda>i. each (\<lambda>a. each (put_value J n) (elements J a name))
        (case object_get J (array_get_idx J j i) array_name of None \<Rightarrow> [] | Some v \<Rightarrow> [v]))"
    by (intro ext) (auto simp: outer_property_def inner_loop sbind_def split: option.splits sum.splits)
  then show ?thesis
    by (simp add: each_concat each_concat [of "put_value J n" "\<lambda>a. elements J a name"] elements_def [of J j]
      found_values_def)
qed

text \<open>Values of the documented form are placed one behind the other, \<open>element_size\<close> characters apart.\<close>

lemma put_value_in:
  assumes "string_value J n v" and "offset + n \<le> length values"
  shows "\<exists>values'. put_value J n v (r, offset, values) = Inr (if r = -1 then 1 else r + 1, offset + n, values') \<and>
    length values' = length values \<and> take offset values' = take offset values \<and>
    (\<forall>rest. cstr (take n (drop offset values') @ rest) = unquote (to_json_string J (Some v)))"
proof -
  obtain w where w: "to_json_string J (Some v) = quoted w" "NUL \<notin> set w" "length w + 2 \<le> n"
    using assms(1) by (auto simp: string_value_def)
  define m where "m = take offset values @ w @ [NUL, NUL] @ drop (offset + length w + 2) values"
  have off: "length (take offset values) = offset" using assms(2) by simp
  have "copy_unquoted values offset (quoted w) = Inr m"
    unfolding m_def using w(3) assms(2) by (intro copy_unquoted_in) simp
  moreover have "length m = length values" using w(3) assms(2) by (simp add: m_def)
  moreover have "take offset m = take offset values" using off by (simp add: m_def)
  moreover have "cstr (take n (drop offset m) @ rest) = w" for rest
  proof -
    have "take n (drop offset m) = w @ NUL # take (n - length w - 1) (NUL # drop (offset + length w + 2) values)"
      using w(3) off by (simp add: m_def take_Cons')
    then show ?thesis using cstr_nul [OF w(2)] by simp
  qed
  ultimately show ?thesis by (simp add: put_value_def w(1))
qed

definition place :: "nat \<Rightarrow> string \<Rightarrow> nat \<Rightarrow> string" where
  "place n values k = cstr (drop (k * n) values)"

lemma place_keeps:
  assumes "k * n + n \<le> offset" and "take offset values' = take offset values" and "offset \<le> length values"
    and "length values' = length values"
    and "\<forall>rest. cstr (take n (drop (k * n) values) @ rest) = s"
  shows "\<forall>rest. cstr (take n (drop (k * n) values') @ rest) = s"
proof -
  have "take n (drop (k * n) values') = take n (drop (k * n) (take offset values'))"
    using assms(1) by (simp add: drop_take min_def)
  also have "\<dots> = take n (drop (k * n) values)" using assms(1,2) by (simp add: drop_take min_def)
  finally show ?thesis using assms(5) by simp
qed

lemma put_values:
  assumes "\<forall>v \<in> set vs. string_value J n v" and "length vs * n \<le> length values"
  shows "\<exists>values'. each (put_value J n) vs (-1, 0, values) =
      Inr (if vs = [] then -1 else int (length vs), length vs * n, values') \<and> length values' = length values \<and>
    (\<forall>k < length vs. \<forall>rest. cstr (take n (drop (k * n) values') @ rest) = unquote (to_json_string J (Some (vs ! k))))"
  using assms
proof (induction vs rule: rev_induct)
  case (snoc v vs)
  then obtain m where m: "each (put_value J n) vs (-1, 0, values) =
        Inr (if vs = [] then -1 else int (length vs), length vs * n, m)" "length m = length values"
      "\<forall>k < length vs. \<forall>rest. cstr (take n (drop (k * n) m) @ rest) = unquote (to_json_string J (Some (vs ! k)))"
    by auto
  have fits: "length vs * n + n \<le> length m" using snoc.prems(2) m(2) by simp
  obtain m' where m': "put_value J n v (if vs = [] then -1 else int (length vs), length vs * n, m) =
        Inr (int (length (vs @ [v])), length vs * n + n, m')" "length m' = length m"
      "take (length vs * n) m' = take (length vs * n) m"
      "\<forall>rest. cstr (take n (drop (length vs * n) m') @ rest) = unquote (to_json_string J (Some v))"
    using put_value_in [of J n v "length vs * n" m "if vs = [] then -1 else int (length vs)"] snoc.prems(1) fits
    by auto
  have old: "\<forall>rest. cstr (take n (drop (k * n) m') @ rest) = unquote (to_json_string J (Some (vs ! k)))"
    if k: "k < length vs" for k
  proof (rule place_keeps [OF _ m'(3) _ m'(2)])
    have "Suc k * n \<le> length vs * n" using k by (intro mult_right_mono) simp_all
    then show "k * n + n \<le> length vs * n" by simp
    show "length vs * n \<le> length m" using fits by simp
    show "\<forall>rest. cstr (take n (drop (k * n) m) @ rest) = unquote (to_json_string J (Some (vs ! k)))"
      using m(3) k by blast
  qed
  have "each (put_value J n) (vs @ [v]) (-1, 0, values) = Inr (int (length (vs @ [v])), length vs * n + n, m')"
    unfolding each_append m(1) sbind_simps each.simps m'(1) by (rule refl)
  moreover have "\<forall>k < length (vs @ [v]). \<forall>rest. cstr (take n (drop (k * n) m') @ rest) =
      unquote (to_json_string J (Some ((vs @ [v]) ! k)))"
    using old m'(4) by (simp add: less_Suc_eq nth_append)
  ultimately show ?case using m'(2) m(2) by (intro exI [of _ m']) (simp add: add.commute)
qed simp

lemma to_short_small: "-1 \<le> i \<Longrightarrow> i < 2 ^ 15 \<Longrightarrow> to_short i = i"
  by (simp add: to_short_def)

lemma get_properties_places:
  assumes "filter_config_read st \<noteq> 0" and "config_def st = Some j" and "vs = found_values J j array_name prop_name"
    and "\<forall>v \<in> set vs. string_value J n v" and "length vs * n \<le> length values" and "length vs < 2 ^ 15"
  shows "\<exists>values'. get_properties J st (Some array_name) n (Some prop_name) (Some values) =
      Inr (if vs = [] then -1 else int (length vs), Some values') \<and> length values' = length values \<and>
    (\<forall>k < length vs. place n values' k = unquote (to_json_string J (Some (vs ! k))))"
proof -
  obtain m where m: "each (put_value J n) vs (-1, 0, values) =
        Inr (if vs = [] then -1 else int (length vs), length vs * n, m)" "length m = length values"
      "\<forall>k < length vs. \<forall>rest. cstr (take n (drop (k * n) m) @ rest) = unquote (to_json_string J (Some (vs ! k)))"
    using put_values [OF assms(4,5)] by blast
  have "get_properties J st (Some array_name) n (Some prop_name) (Some values) =
      Inr (if vs = [] then -1 else int (length vs), Some m)"
    using assms(1,2,6) by (simp add: get_properties_def outer_loop assms(3) [symmetric] m(1) to_short_small)
  moreover have "place n m k = unquote (to_json_string J (Some (vs ! k)))" if "k < length vs" for k
    using m(3) that append_take_drop_id [of n "drop (k * n) m"] by (metis place_def)
  ultimately show ?thesis using m(2) by blast
qed

text \<open>
  C23: the values of an array property. When a configuration has been read and every value of the property is a
  string that fits its place, \<open>get_properties\<close> returns their number, or -1 when there is none, and leaves them in
  the places of the caller's buffer in the order of the configuration, without their quotes.
\<close>

theorem get_properties_correct:
  assumes "filter_config_read st \<noteq> 0" and "config_def st = Some j" and "vs = found_values J j array_name prop_name"
    and "\<forall>v \<in> set vs. string_value J n v" and "length vs * n \<le> length values" and "length vs < 2 ^ 15"
  shows "\<exists>values'. get_properties J st (Some array_name) n (Some prop_name) (Some values) =
      Inr (if vs = [] then -1 else int (length vs), Some values') \<and> length values' = length values \<and>
    (\<forall>k < length vs. place n values' k = unquote (to_json_string J (Some (vs ! k))))"
  using assms by (rule get_properties_places)

text \<open>A single property is the first one of its name; a buffer without it is left as it was.\<close>

lemma find_property_first:
  "find_property J j name is = (case concat (map (\<lambda>i. case object_get J (array_get_idx J j i) name of None \<Rightarrow> [] | Some v \<Rightarrow> [v]) is) of
     [] \<Rightarrow> None | v # _ \<Rightarrow> Some v)"
  by (induction "is") (auto split: option.splits list.splits)

lemma get_property_elements:
  assumes "filter_config_read st \<noteq> 0" and "config_def st = Some j"
  shows "get_property J st (Some name) (Some value) =
    (case elements J j name of [] \<Rightarrow> Inr (-1, Some value)
     | v # _ \<Rightarrow> sbind (copy_unquoted value 0 (to_json_string J (Some v))) (\<lambda>b. Inr (0, Some b)))"
  using assms by (simp add: get_property_def find_property_first elements_def [symmetric] split: list.splits)

lemma get_property_found:
  assumes "filter_config_read st \<noteq> 0" and "config_def st = Some j" and "elements J j name = v # vs"
    and "string_value J (length value) v"
  shows "\<exists>b. get_property J st (Some name) (Some value) = Inr (0, Some b) \<and>
    cstr b = unquote (to_json_string J (Some v)) \<and> NUL \<in> set b \<and> length b = length value"
proof -
  obtain w where w: "to_json_string J (Some v) = quoted w" "NUL \<notin> set w" "length w + 2 \<le> length value"
    using assms(4) by (auto simp: string_value_def)
  have "copy_unquoted value 0 (quoted w) = Inr (w @ [NUL, NUL] @ drop (length w + 2) value)"
    using copy_unquoted_in [of 0 w "value"] w(3) by simp
  then show ?thesis
    using w cstr_nul [OF w(2), of "NUL # drop (length w + 2) value"]
    by (simp add: get_property_elements [OF assms(1,2)] assms(3))
qed

lemma get_property_missing:
  assumes "filter_config_read st \<noteq> 0" and "config_def st = Some j" and "elements J j name = []"
  shows "get_property J st (Some name) (Some value) = Inr (-1, Some value)"
  by (simp add: get_property_elements [OF assms(1,2)] assms(3))

section \<open>The printed configuration\<close>

text \<open>
  The offset is advanced by the length of the whole string in the buffer. Once it is past the terminator, nothing
  that is printed becomes part of the string any more.
\<close>

definition criteria_text :: "'j json_c \<Rightarrow> 'j \<Rightarrow> int \<Rightarrow> string" where
  "criteria_text J j i = ''criteria:'' @ dec_int i @ ''='' @ to_json_string J (array_get_idx J j i) @ [CHR 0x0A, CHR 0x0A]"

lemma cstr_take:
  assumes "NUL \<in> set b" and "length (cstr b) < n"
  shows "cstr (take n b @ r) = cstr b" and "NUL \<in> set (take n b)"
proof -
  obtain tail where b: "b = cstr b @ NUL # tail" using cstr_split [OF assms(1)] .
  have "take n b = cstr b @ NUL # take (n - length (cstr b) - 1) tail"
    using assms(2) by (subst b) (cases "n - length (cstr b)", auto)
  then show "cstr (take n b @ r) = cstr b" "NUL \<in> set (take n b)"
    using cstr_nul [OF cstr_no_nul] by simp_all
qed

lemma print_criteria_step: "print_criteria J j i (offset, b) = Inr s \<longleftrightarrow>
    (\<exists>b'. wr_bytes b offset (criteria_text J j i @ [NUL]) = Inr b' \<and> s = (offset + length (cstr b'), b'))"
  by (auto simp: print_criteria_def criteria_text_def Let_def sbind_Inr_iff)

lemma print_hidden:
  assumes "each (print_criteria J j) is (offset, b) = Inr (offset', b')"
    and "NUL \<in> set b" and "length (cstr b) < offset"
  shows "cstr b' = cstr b"
  using assms
proof (induction "is" arbitrary: offset b)
  case (Cons i "is")
  obtain b1 where w: "wr_bytes b offset (criteria_text J j i @ [NUL]) = Inr b1"
      "each (print_criteria J j) is (offset + length (cstr b1), b1) = Inr (offset', b')"
    using Cons.prems(1) by (auto simp: print_criteria_step sbind_Inr_iff)
  then have "\<exists>r. b1 = take offset b @ r" by (auto simp: wr_bytes_def split: if_splits)
  then have b1: "cstr b1 = cstr b" "NUL \<in> set b1"
    using cstr_take [OF Cons.prems(2,3)] by auto
  show ?case using Cons.IH [OF w(2) b1(2)] b1(1) Cons.prems(3) by simp
qed simp

lemma print_criteria_at:
  assumes "print_criteria J j i (length p, p @ r) = Inr (offset', b')" and "NUL \<notin> set p"
    and "NUL \<notin> set (criteria_text J j i)"
  shows "cstr b' = p @ criteria_text J j i" and "offset' = length p + length (cstr b')" and "NUL \<in> set b'"
    and "\<exists>r'. b' = p @ criteria_text J j i @ NUL # r'"
proof -
  have "wr_bytes (p @ r) (length p) (criteria_text J j i @ [NUL]) = Inr b'" and o: "offset' = length p + length (cstr b')"
    using assms(1) by (auto simp: print_criteria_step)
  then show b: "\<exists>r'. b' = p @ criteria_text J j i @ NUL # r'" by (auto simp: wr_bytes_def split: if_splits)
  have "NUL \<notin> set (p @ criteria_text J j i)" using assms(2,3) by simp
  from cstr_nul [OF this] b show "cstr b' = p @ criteria_text J j i" by auto
  show "offset' = length p + length (cstr b')" by (rule o)
  show "NUL \<in> set b'" using b by auto
qed

theorem print_only_two:
  assumes "filter_config_read st = 1" and "config_def st = Some j" and "2 \<le> array_length J j"
    and "\<forall>i. NUL \<notin> set (criteria_text J j i)"
    and "print_filter_config J st (Some b) = Inr (r, Some b')"
  shows "cstr b' = criteria_text J j 0 @ criteria_text J j 1"
proof -
  have "[0..<nat (array_length J j)] = 0 # 1 # [2..<nat (array_length J j)]"
    using assms(3) by (simp add: upt_conv_Cons numeral_2_eq_2)
  then have ix: "indices J j = 0 # 1 # map int [2..<nat (array_length J j)]" by (simp add: indices_def)
  obtain o1 b1 o2 b2 o3 where s: "print_criteria J j 0 (0, b) = Inr (o1, b1)" "print_criteria J j 1 (o1, b1) = Inr (o2, b2)"
      "each (print_criteria J j) (map int [2..<nat (array_length J j)]) (o2, b2) = Inr (o3, b')"
    using assms(1,2,5) ix by (fastforce simp: print_filter_config_def sbind_Inr_iff)
  have n: "NUL \<notin> set (criteria_text J j i)" for i using assms(4) by blast
  note p1 = print_criteria_at [of J j 0 "[]" b o1 b1, simplified, OF s(1) n]
  obtain r1 where b1: "b1 = criteria_text J j 0 @ NUL # r1" using p1(4) by blast
  have "print_criteria J j 1 (length (criteria_text J j 0), criteria_text J j 0 @ NUL # r1) = Inr (o2, b2)"
    using s(2) p1(1,2) b1 by simp
  note p2 = print_criteria_at [OF this n n]
  have "0 < length (criteria_text J j 0)" by (simp add: criteria_text_def)
  then show ?thesis using print_hidden [OF s(3) p2(3)] p2(1,2) by simp
qed

text \<open>A configuration with two servers, as a tree of objects.\<close>

datatype json = Str string | Arr "json list" | Obj "(string \<times> json) list"

fun json_text :: "json \<Rightarrow> string" where
  "json_text (Str s) = quoted s"
| "json_text (Arr js) = ''[...]''"
| "json_text (Obj fs) = ''{...}''"

definition json_tree :: "(string \<Rightarrow> json option) \<Rightarrow> json json_c" where
  "json_tree files = \<lparr>from_file = files,
     array_length = (\<lambda>j. case j of Arr js \<Rightarrow> int (length js) | _ \<Rightarrow> 0),
     array_get_idx = (\<lambda>j i. case j of Arr js \<Rightarrow> if 0 \<le> i \<and> nat i < length js then Some (js ! nat i) else None | _ \<Rightarrow> None),
     object_get = (\<lambda>j name. case j of Some (Obj fs) \<Rightarrow> map_of fs name | _ \<Rightarrow> None),
     to_json_string = (\<lambda>j. case j of None \<Rightarrow> ''null'' | Some j \<Rightarrow> json_text j)\<rparr>"

definition two_servers :: json where
  "two_servers = Arr [Obj [(''a'', Arr [Obj [(''host'', Str ''h1'')], Obj [(''host'', Str ''h22'')]])]]"

theorem get_properties_correct_witness:
  "\<exists>values'. get_properties (json_tree (\<lambda>_. None)) \<lparr>config_def = Some two_servers, filter_config_read = 1\<rparr>
      (Some ''a'') 6 (Some ''host'') (Some (replicate 12 NUL)) = Inr (2, Some values') \<and>
    place 6 values' 0 = ''h1'' \<and> place 6 values' 1 = ''h22''"
proof -
  let ?J = "json_tree (\<lambda>_. None)" and ?st = "\<lparr>config_def = Some two_servers, filter_config_read = 1\<rparr>"
  have v: "[Str ''h1'', Str ''h22''] = found_values ?J two_servers ''a'' ''host''" by code_simp
  have q: "\<forall>v \<in> set [Str ''h1'', Str ''h22'']. string_value ?J 6 v"
    by (auto simp: string_value_def json_tree_def quoted_def)
  have r: "filter_config_read ?st \<noteq> 0" "config_def ?st = Some two_servers" by simp_all
  obtain m where m: "get_properties ?J ?st (Some ''a'') 6 (Some ''host'') (Some (replicate 12 NUL)) =
      Inr (if [Str ''h1'', Str ''h22''] = [] then -1 else int (length [Str ''h1'', Str ''h22'']), Some m)"
    "\<forall>k < length [Str ''h1'', Str ''h22'']. place 6 m k = unquote (to_json_string ?J (Some ([Str ''h1'', Str ''h22''] ! k)))"
    using get_properties_correct [OF r v q, of "replicate 12 NUL"] by auto
  have "place 6 m 0 = ''h1''" "place 6 m 1 = ''h22''" using m(2) by (simp_all add: json_tree_def)
  then show ?thesis using m(1) by auto
qed

end
