(* ===== verification/Programs.thy ===== *)
theory Programs
  imports Session_System Config
begin

text \<open>
  The main functions of \<open>pcapdistributer.cpp\<close> and \<open>pcapmerger.cpp\<close>, from their arguments to the point where
  they wait for the supervision thread, and what they do when it has ended. What the two programs take from
  their surroundings is a record; the sessions are those of \<open>src/pcapsession\<close>.
\<close>

section \<open>Surroundings\<close>

text \<open>
  The JSON library, the licence test of \<open>MagicStringTester\<close> (\<open>True\<close> when it rejects its argument), the file
  system and environment as the configuration reader sees them, name resolution, the contents that the local
  arrays have before they are written, by name, and what the other threads make of the sessions while
  the main thread sleeps.
\<close>

record 'j program =
  json :: "'j json_c"
  testString :: "string \<Rightarrow> bool"
  file_exists :: "string \<Rightarrow> bool"
  config_location :: "string option"
  readable :: "string \<Rightarrow> bool"
  gethostbyname :: "string \<Rightarrow> u32 option"
  stack :: "string \<Rightarrow> string"
  other_threads :: "gstate \<Rightarrow> gstate"

text \<open>
  A result is a fault, or the exit status (\<open>None\<close> while the program waits for the supervision thread) with the
  sessions.
\<close>

type_synonym outcome = "fault + int option \<times> gstate"

section \<open>Signals and the end of the programs\<close>

definition sighandler :: "bool \<times> gstate \<Rightarrow> bool \<times> gstate" where
  "sighandler = (\<lambda>(shutdown_ordered, st).
     if shutdown_ordered then (shutdown_ordered, st) else (True, pcapsession_handling_close st))"

definition finish :: "int \<Rightarrow> bool \<times> gstate \<Rightarrow> int \<times> bool \<times> gstate" where
  "finish join s = (if join \<noteq> 0 then (1, s) else (0, sighandler s))"

section \<open>Reading the configuration\<close>

definition read_pcap_dist_cfg_file :: "'j program \<Rightarrow> string \<Rightarrow> int \<times> 'j config_state" where
  "read_pcap_dist_cfg_file P pcap_dist_cfg_file =
     read_filter_config (json P) (readable P) (Some pcap_dist_cfg_file) init_config"

definition read_pcap_merge_cfg_file :: "'j program \<Rightarrow> string \<Rightarrow> int \<times> 'j config_state" where
  "read_pcap_merge_cfg_file P pcap_merge_cfg_file =
     read_filter_config (json P) (readable P) (Some pcap_merge_cfg_file) init_config"

text \<open>
  What both programs do before they look at properties: find and read the file, and print what was read.
  \<open>None\<close> stands for \<open>exit (1)\<close>.
\<close>

definition load_config :: "('j program \<Rightarrow> string \<Rightarrow> int \<times> 'j config_state) \<Rightarrow> 'j program \<Rightarrow> string \<Rightarrow>
    fault + 'j config_state option" where
  "load_config read P name =
     sbind (get_config_file_path (file_exists P) (config_location P) name) (\<lambda>(cfg_file_length, path).
     if cfg_file_length \<le> 0 then Inr None
     else let (r, cfg) = read P path in
       if r \<le> 0 then Inr None
       else sbind (print_filter_config (json P) cfg (Some (stack P ''config_str''))) (\<lambda>_. Inr (Some cfg)))"

text \<open>A property read into the array \<open>var\<close>, and the string in an array, which has to be terminated.\<close>

definition property :: "'j program \<Rightarrow> 'j config_state \<Rightarrow> string \<Rightarrow> string \<Rightarrow> fault + string" where
  "property P cfg name var =
     sbind (get_property (json P) cfg (Some name) (Some (stack P var))) (\<lambda>(_, b). Inr (the b))"

definition c_string :: "string \<Rightarrow> fault + string" where
  "c_string mem = (if NUL \<in> set mem then Inr (cstr mem) else Inl Out_of_bounds)"

abbreviation (input) BACKSLASH :: char where "BACKSLASH \<equiv> CHR 0x5C"

definition stripped :: "string \<Rightarrow> fault + string" where
  "stripped mem = sbind (c_string mem) (\<lambda>_. c_string (strip_char_from_string mem BACKSLASH))"

section \<open>pcapdistributer\<close>

text \<open>The capture location, the mode, the port and the number of iterations.\<close>

definition distributer_options :: "'j program \<Rightarrow> 'j config_state \<Rightarrow> fault + string \<times> int \<times> int \<times> int" where
  "distributer_options P cfg =
     sbind (property P cfg ''capture_location'' ''capture_location_str'') (\<lambda>capture_location_str.
     sbind (property P cfg ''port'' ''port_str'') (\<lambda>port_str.
     sbind (property P cfg ''live'' ''live_str'') (\<lambda>live_str.
     sbind (property P cfg ''file_capture_iterations'' ''iterations_str'') (\<lambda>iterations_str.
     sbind (stripped capture_location_str) (\<lambda>capture_location.
     sbind (c_string live_str) (\<lambda>live.
     sbind (c_string port_str) (\<lambda>distribution_port.
     sbind (c_string iterations_str) (\<lambda>iters.
       Inr (capture_location, atoi live, atoi distribution_port, atoi iters)))))))))"

definition distributer_start :: "os \<Rightarrow> (gstate \<Rightarrow> gstate) \<Rightarrow> string \<Rightarrow> int \<Rightarrow> int \<Rightarrow> int \<Rightarrow> gstate \<Rightarrow> int option \<times> gstate" where
  "distributer_start os others capture_location live distribution_port iters st =
     (if distribution_port < 1 \<or> distribution_port > HIGHEST_IP_PORT then (Some 1, st)
      else let (r, st) = pcapsession_handling_init os st in
      if r = 0 then (Some 1, st)
      else let (r, st) = pcapsession_server_open os distribution_port st in
      if r = 0 then (Some 1, st)
      else let st = others st;
               (r, st) = (if live \<noteq> 0 then pcapsession_livecapture_open os capture_location st
                          else pcapsession_filecapture_open capture_location iters st) in
      if r = 0 then (Some 1, st) else (None, st))"

definition distributer_main :: "os \<Rightarrow> 'j program \<Rightarrow> string list \<Rightarrow> outcome" where
  "distributer_main os P argv =
     (if length argv < 2 \<or> testString P (argv ! 1) then Inr (Some 254, init_gstate)
      else if length argv \<noteq> 3 then Inr (Some 1, init_gstate)
      else sbind (load_config read_pcap_dist_cfg_file P (argv ! 2)) (\<lambda>c. case c of
        None \<Rightarrow> Inr (Some 1, init_gstate)
      | Some cfg \<Rightarrow>
          sbind (distributer_options P cfg) (\<lambda>(capture_location, live, distribution_port, iters).
            Inr (distributer_start os (other_threads P) capture_location live distribution_port iters init_gstate))))"

section \<open>pcapmerger\<close>

text \<open>The merged file and whether to untunnel.\<close>

definition merger_options :: "'j program \<Rightarrow> 'j config_state \<Rightarrow> fault + string \<times> int" where
  "merger_options P cfg =
     sbind (property P cfg ''untunnel_gtp'' ''untunnel_str'') (\<lambda>untunnel_str.
     sbind (property P cfg ''output_path'' ''output_path_str'') (\<lambda>output_path_str.
     sbind (c_string untunnel_str) (\<lambda>untun.
     sbind (stripped output_path_str) (\<lambda>output_path.
       Inr (output_path, atoi untun)))))"

text \<open>
  The values of a property of the distribution servers, in the rows of a two-dimensional array. A result of -1
  becomes the largest \<open>size_t\<close> when it is stored.
\<close>

definition server_values :: "'j program \<Rightarrow> 'j config_state \<Rightarrow> string \<Rightarrow> string \<Rightarrow> fault + u64 \<times> string list" where
  "server_values P cfg name var =
     sbind (get_properties (json P) cfg (Some ''distribution_server_array'') FILENAME_MAX (Some name) (Some (stack P var)))
       (\<lambda>(r, b). Inr (of_int r, map (place FILENAME_MAX (the b)) [0..<MAX_ADDRESSES]))"

text \<open>
  The server addresses: \<open>None\<close> for \<open>exit (1)\<close>. The loop that logs the servers reads a row for each of them,
  before their number is checked.
\<close>

definition server_addresses :: "'j program \<Rightarrow> 'j config_state \<Rightarrow> fault + sockaddr_in list option" where
  "server_addresses P cfg =
     sbind (server_values P cfg ''host'' ''host_values'') (\<lambda>(host_length, host_values).
     sbind (server_values P cfg ''port'' ''port_values'') (\<lambda>(port_length, port_values).
     if host_length \<noteq> port_length then Inr None
     else if unat host_length > MAX_ADDRESSES then Inl Out_of_bounds
     else let (result, servers) = address_list_from_arguments (gethostbyname P) (int (unat host_length))
                host_values port_values (replicate MAX_ADDRESSES \<lparr>tgt_address = zero_sockaddr, tgt_handle = 0\<rparr>) in
       if result \<le> 0 then Inr None else Inr (Some (map tgt_address (take (nat result) servers)))))"

text \<open>The result of \<open>pcapsession_client_open\<close> is not looked at.\<close>

definition open_clients :: "nat \<Rightarrow> sockaddr_in list \<Rightarrow> gstate \<Rightarrow> gstate" where
  "open_clients m addrs st = fold (\<lambda>a st. snd (pcapsession_client_open a (Some m) st)) addrs st"

definition merger_start :: "os \<Rightarrow> (gstate \<Rightarrow> gstate) \<Rightarrow> string \<Rightarrow> int \<Rightarrow> sockaddr_in list \<Rightarrow> gstate \<Rightarrow> int option \<times> gstate" where
  "merger_start os others output_path untun addrs st =
     (let (r, st) = pcapsession_handling_init os st in
      if r = 0 then (Some 1, st)
      else let (m, st) = pcapsession_merger_open output_path untun st in
      case m of None \<Rightarrow> (Some 1, st)
      | Some m \<Rightarrow> (None, open_clients m addrs (others st)))"

definition merger_main :: "os \<Rightarrow> 'j program \<Rightarrow> string list \<Rightarrow> outcome" where
  "merger_main os P argv =
     (if length argv < 2 \<or> testString P (argv ! 1) then Inr (Some 254, init_gstate)
      else if length argv \<noteq> 3 then Inr (Some 1, init_gstate)
      else sbind (load_config read_pcap_merge_cfg_file P (argv ! 2)) (\<lambda>c. case c of
        None \<Rightarrow> Inr (Some 1, init_gstate)
      | Some cfg \<Rightarrow>
          sbind (merger_options P cfg) (\<lambda>(output_path, untun).
          sbind (server_addresses P cfg) (\<lambda>a. case a of
            None \<Rightarrow> Inr (Some 1, init_gstate)
          | Some addrs \<Rightarrow> Inr (merger_start os (other_threads P) output_path untun addrs init_gstate)))))"

section \<open>What the programs read\<close>

text \<open>The property \<open>name\<close> has the string \<open>w\<close> as its value, and the array \<open>var\<close> can hold it.\<close>

definition configured :: "'j program \<Rightarrow> 'j \<Rightarrow> string \<Rightarrow> string \<Rightarrow> string \<Rightarrow> bool" where
  "configured P j name var w \<longleftrightarrow> (\<exists>v vs. elements (json P) j name = v # vs \<and>
     to_json_string (json P) (Some v) = quoted w \<and> NUL \<notin> set w \<and> length w + 2 \<le> length (stack P var))"

lemma load_config_cases:
  assumes "load_config read P name = Inr (Some cfg)"
    and "\<And>path r c. read P path = (r, c) \<Longrightarrow> 0 < r \<Longrightarrow> filter_config_read c \<noteq> 0 \<and> config_def c \<noteq> None"
  shows "filter_config_read cfg \<noteq> 0" and "\<exists>j. config_def cfg = Some j"
  using assms by (auto simp: load_config_def sbind_Inr_iff split: prod.splits if_splits)

lemma read_filter_config_success:
  assumes "read_filter_config J ok f init_config = (r, c)" and "0 < r"
  shows "filter_config_read c \<noteq> 0 \<and> config_def c \<noteq> None"
  using assms by (auto simp: read_filter_config_def init_config_def split: option.splits if_splits)

lemma load_dist_config:
  assumes "load_config read_pcap_dist_cfg_file P name = Inr (Some cfg)"
  shows "filter_config_read cfg \<noteq> 0" and "\<exists>j. config_def cfg = Some j"
proof -
  have r: "filter_config_read c \<noteq> 0 \<and> config_def c \<noteq> None" if "read_pcap_dist_cfg_file P path = (r, c)" "0 < r" for path r c
    using that unfolding read_pcap_dist_cfg_file_def by (rule read_filter_config_success)
  show "filter_config_read cfg \<noteq> 0" by (rule load_config_cases(1) [OF assms]) (rule r)
  show "\<exists>j. config_def cfg = Some j" by (rule load_config_cases(2) [OF assms]) (rule r)
qed

lemma read_cfg_file_same: "read_pcap_merge_cfg_file = read_pcap_dist_cfg_file"
  by (simp add: fun_eq_iff read_pcap_merge_cfg_file_def read_pcap_dist_cfg_file_def)

lemmas load_merge_config = load_dist_config [folded read_cfg_file_same]

lemma property_configured:
  assumes "filter_config_read cfg \<noteq> 0" and "config_def cfg = Some j" and "configured P j name var w"
  obtains b where "property P cfg name var = Inr b" "cstr b = w" "NUL \<in> set b"
proof -
  obtain v vs where v: "elements (json P) j name = v # vs" "to_json_string (json P) (Some v) = quoted w"
    "NUL \<notin> set w" "length w + 2 \<le> length (stack P var)" using assms(3) by (auto simp: configured_def)
  then have "string_value (json P) (length (stack P var)) v" by (auto simp: string_value_def)
  from get_property_found [OF assms(1,2) v(1) this] show thesis
    using that by (auto simp: property_def v(2))
qed

lemma stripped_eq: "NUL \<in> set b \<Longrightarrow> stripped b = Inr (filter (\<lambda>c. c \<noteq> BACKSLASH) (cstr b))"
  using strip_char_spec [of b BACKSLASH] by (simp add: stripped_def c_string_def)

lemma distributer_options_configured:
  assumes "filter_config_read cfg \<noteq> 0" and "config_def cfg = Some j"
    and "configured P j ''capture_location'' ''capture_location_str'' loc" and "configured P j ''port'' ''port_str'' port"
    and "configured P j ''live'' ''live_str'' live" and "configured P j ''file_capture_iterations'' ''iterations_str'' iters"
  shows "distributer_options P cfg = Inr (filter (\<lambda>c. c \<noteq> BACKSLASH) loc, atoi live, atoi port, atoi iters)"
proof -
  note pc = property_configured [OF assms(1,2)]
  obtain b1 where b1: "property P cfg ''capture_location'' ''capture_location_str'' = Inr b1" "cstr b1 = loc" "NUL \<in> set b1"
    using pc [OF assms(3)] .
  obtain b2 where b2: "property P cfg ''port'' ''port_str'' = Inr b2" "cstr b2 = port" "NUL \<in> set b2"
    using pc [OF assms(4)] .
  obtain b3 where b3: "property P cfg ''live'' ''live_str'' = Inr b3" "cstr b3 = live" "NUL \<in> set b3"
    using pc [OF assms(5)] .
  obtain b4 where b4: "property P cfg ''file_capture_iterations'' ''iterations_str'' = Inr b4" "cstr b4 = iters" "NUL \<in> set b4"
    using pc [OF assms(6)] .
  show ?thesis
    unfolding distributer_options_def b1(1) b2(1) b3(1) b4(1) sbind_simps stripped_eq [OF b1(3)]
    using b1(2) b2 b3 b4 by (simp add: c_string_def)
qed

lemma merger_options_configured:
  assumes "filter_config_read cfg \<noteq> 0" and "config_def cfg = Some j"
    and "configured P j ''untunnel_gtp'' ''untunnel_str'' untun" and "configured P j ''output_path'' ''output_path_str'' path"
  shows "merger_options P cfg = Inr (filter (\<lambda>c. c \<noteq> BACKSLASH) path, atoi untun)"
proof -
  note pc = property_configured [OF assms(1,2)]
  obtain b1 where b1: "property P cfg ''untunnel_gtp'' ''untunnel_str'' = Inr b1" "cstr b1 = untun" "NUL \<in> set b1"
    using pc [OF assms(3)] .
  obtain b2 where b2: "property P cfg ''output_path'' ''output_path_str'' = Inr b2" "cstr b2 = path" "NUL \<in> set b2"
    using pc [OF assms(4)] .
  show ?thesis
    unfolding merger_options_def b1(1) b2(1) sbind_simps stripped_eq [OF b2(3)]
    using b1 b2(2) by (simp add: c_string_def)
qed

section \<open>What the programs start\<close>

lemma free_slot:
  assumes "tables_ok st" and "card (used st) < 128"
  obtains i where "i < 128" "state (sess st i) = 0" "\<forall>j < i. state (sess st j) \<noteq> 0"
    "pcapsession_handling_get_new st = (Some i, set_sess i (\<lambda>_. zero_session\<lparr>sid := int i, state := 1\<rparr>) st)"
  using assms(1)
proof (cases rule: get_new_cases)
  case full
  then have "fst (pcapsession_clientconn_open f a st) = 0" for f a
    by (simp add: pcapsession_clientconn_open_def get_new_init_clientconnlist)
  then show thesis using clientconn_open_iff [OF assms(1)] assms(2) by simp
next
  case (slot i)
  then show thesis using that by blast
qed

lemma opened_here:
  assumes "opened kind k st st'" and "i < 128" and "state (sess st i) = 0" and "state (sess st' i) \<noteq> 0"
  shows "k = i"
  using assms by (auto simp: opened_def)

lemma filecapture_open_slot:
  assumes "tables_ok st" and "card (used st) < 128" and "length dir < FILENAME_MAX"
  obtains i st' where "pcapsession_filecapture_open dir n st = (1, st')" "opened Filecapture i st st'"
    "description (sess st' i) = dir" "iterations (sess st' i) = n"
proof -
  obtain i where i: "i < 128" "state (sess st i) = 0"
    "pcapsession_handling_get_new st = (Some i, set_sess i (\<lambda>_. zero_session\<lparr>sid := int i, state := 1\<rparr>) st)"
    using free_slot [OF assms(1,2)] by metis
  have l: "length (session_list st) = 128" using assms(1) by (simp add: tables_ok_def)
  define st' where "st' = snd (pcapsession_filecapture_open dir n st)"
  have r: "pcapsession_filecapture_open dir n st = (1, st')"
    using i l assms(3) by (simp add: st'_def pcapsession_filecapture_open_def Let_def split_def sess_simps
      set_description_def str_into_def)
  have f: "description (sess st' i) = dir" "iterations (sess st' i) = n" "state (sess st' i) = 2"
    using i l assms(3) by (simp_all add: st'_def pcapsession_filecapture_open_def Let_def split_def sess_simps
      set_description_def str_into_def)
  obtain k where k: "opened Filecapture k st st'"
    using filecapture_opener.opener_success [OF assms(1), of dir n] r by (auto simp: succeeds_def st'_def [symmetric])
  have "k = i" by (rule opened_here [OF k i(1,2)]) (simp add: f(3))
  then show thesis using that r k f by blast
qed


text \<open>The states of the main functions are reachable when those the other threads leave are.\<close>

lemma reachable_tables: "reachable os env st \<Longrightarrow> tables_ok st"
  using reachable_system [of os env st] by (auto simp: system_ok_def sessions_ok_def)

lemma reachable_init: "pcapsession_handling_init os init_gstate = (r, st) \<Longrightarrow> reachable os env st"
  using reachable.start [of os env] by simp

lemma reachable_server_open:
  "reachable os env st \<Longrightarrow> pcapsession_server_open os port st = (r, st') \<Longrightarrow> reachable os env st'"
  using reachable.further [OF _ step.open_server, of os env st port] by simp

lemma reachable_filecapture_open:
  "reachable os env st \<Longrightarrow> pcapsession_filecapture_open dir n st = (r, st') \<Longrightarrow> reachable os env st'"
  using reachable.further [OF _ step.open_filecapture, of os env st dir n] by simp

lemma reachable_livecapture_open:
  "reachable os env st \<Longrightarrow> pcapsession_livecapture_open os name st = (r, st') \<Longrightarrow> reachable os env st'"
  using reachable.further [OF _ step.open_livecapture, of os env st name] by simp

lemma reachable_merger_open:
  "reachable os env st \<Longrightarrow> pcapsession_merger_open path u st = (r, st') \<Longrightarrow> reachable os env st'"
  using reachable.further [OF _ step.open_merger, of os env st path u] by simp

lemma reachable_open_clients: "reachable os env st \<Longrightarrow> reachable os env (open_clients m addrs st)"
  by (induction addrs arbitrary: st) (auto simp: open_clients_def intro: reachable.further step.open_client)

text \<open>
  C22: starting the distributer. With a licence, a configuration that can be read and holds the four properties, a
  valid port and calls that start the supervision thread and the listening socket, \<open>pcapdistributer\<close> starts the
  capture that is configured and then waits: in file mode the session that captures from the
  configured directory, without its backslashes, and as often as configured, in a free slot; in live mode it waits
  if the interface can be opened and exits with status 1 otherwise. The sessions are then in a reachable state.
\<close>

theorem distributer_starts:
  assumes "\<not> testString P lic" and "load_config read_pcap_dist_cfg_file P name = Inr (Some cfg)" and "config_def cfg = Some j"
    and "configured P j ''capture_location'' ''capture_location_str'' loc" and "configured P j ''port'' ''port_str'' port"
    and "configured P j ''live'' ''live_str'' live" and "configured P j ''file_capture_iterations'' ''iterations_str'' iters"
    and "1 \<le> atoi port" and "atoi port \<le> 65535" and "length loc < FILENAME_MAX"
    and "pcapsession_handling_init os init_gstate = (1, st0)" and "pcapsession_server_open os (atoi port) st0 = (1, st1)"
    and "reachable os env (other_threads P st1)" and "card (used (other_threads P st1)) < 128"
  shows "\<exists>st. reachable os env st \<and>
    (if atoi live = 0 then
       distributer_main os P [prog, lic, name] = Inr (None, st) \<and>
       (\<exists>i. opened Filecapture i (other_threads P st1) st \<and>
         description (sess st i) = filter (\<lambda>c. c \<noteq> BACKSLASH) loc \<and> iterations (sess st i) = atoi iters)
     else (\<exists>r. pcapsession_livecapture_open os (filter (\<lambda>c. c \<noteq> BACKSLASH) loc) (other_threads P st1) = (r, st) \<and>
       distributer_main os P [prog, lic, name] = Inr (if r = 0 then Some 1 else None, st)))"
proof -
  let ?loc = "filter (\<lambda>c. c \<noteq> BACKSLASH) loc"
  have opt: "distributer_options P cfg = Inr (?loc, atoi live, atoi port, atoi iters)"
    by (rule distributer_options_configured [OF load_dist_config(1) [OF assms(2)] assms(3-7)])
  have main: "distributer_main os P [prog, lic, name] =
      Inr (distributer_start os (other_threads P) ?loc (atoi live) (atoi port) (atoi iters) init_gstate)"
    using assms(1,2) by (simp add: distributer_main_def opt)
  show ?thesis
  proof (cases "atoi live = 0")
    case True
    have l: "length ?loc < FILENAME_MAX" using assms(10) length_filter_le [of _ loc] by (rule le_less_trans [rotated])
    obtain i st where st: "pcapsession_filecapture_open ?loc (atoi iters) (other_threads P st1) = (1, st)"
      "opened Filecapture i (other_threads P st1) st" "description (sess st i) = ?loc" "iterations (sess st i) = atoi iters"
      using filecapture_open_slot [OF reachable_tables [OF assms(13)] assms(14) l] .
    have "distributer_main os P [prog, lic, name] = Inr (None, st)"
      unfolding main distributer_start_def using assms(8,9) by (simp add: assms(11,12) True st(1))
    then show ?thesis using True st reachable_filecapture_open [OF assms(13) st(1)] by auto
  next
    case False
    obtain r st where st: "pcapsession_livecapture_open os ?loc (other_threads P st1) = (r, st)" by (cases "pcapsession_livecapture_open os ?loc (other_threads P st1)")
    have "distributer_main os P [prog, lic, name] = Inr (if r = 0 then Some 1 else None, st)"
      unfolding main distributer_start_def using assms(8,9) by (simp add: assms(11,12) False st)
    then show ?thesis using False st reachable_livecapture_open [OF assms(13) st] by auto
  qed
qed

section \<open>The connections of the merger\<close>

lemma address_list_ok:
  assumes "n \<le> 64" and "length servers = 64" and "\<forall>k < n. resolvable resolve (hosts ! k) (ports ! k)"
  shows "\<exists>s'. address_list_from_arguments resolve (int n) hosts ports servers = (int n, s') \<and>
    map tgt_address (take n s') = map (\<lambda>k. addr_of resolve (hosts ! k) (ports ! k)) [0..<n]"
proof -
  let ?s = "servers[0 := (servers ! 0)\<lparr>tgt_address := zero_sockaddr\<rparr>]"
  obtain s' where s: "address_loop resolve hosts ports 0 n ?s = (None, s')"
      "\<forall>k. 0 \<le> k \<and> k < 0 + n \<longrightarrow> tgt_address (s' ! k) = addr_of resolve (hosts ! k) (ports ! k)"
      "length s' = 64"
    using address_loop_ok [of 0 n ?s resolve hosts ports] assms by auto
  then have "map tgt_address (take n s') = map (\<lambda>k. addr_of resolve (hosts ! k) (ports ! k)) [0..<n]"
    using s(2) assms(1) by (intro nth_equalityI) simp_all
  then show ?thesis using s(1) assms(1) by (simp add: address_list_from_arguments_def Let_def)
qed

text \<open>The distribution servers of a configuration: hosts and ports that fit their arrays and resolve.\<close>

definition servers_configured :: "'j program \<Rightarrow> 'j \<Rightarrow> string list \<Rightarrow> string list \<Rightarrow> bool" where
  "servers_configured P j hosts ports \<longleftrightarrow>
     (let hv = found_values (json P) j ''distribution_server_array'' ''host'';
          pv = found_values (json P) j ''distribution_server_array'' ''port'' in
      hosts = map (\<lambda>v. unquote (to_json_string (json P) (Some v))) hv \<and>
      ports = map (\<lambda>v. unquote (to_json_string (json P) (Some v))) pv \<and>
      (\<forall>v \<in> set hv \<union> set pv. string_value (json P) FILENAME_MAX v) \<and>
      length hosts * FILENAME_MAX \<le> length (stack P ''host_values'') \<and>
      length ports * FILENAME_MAX \<le> length (stack P ''port_values'') \<and>
      length ports = length hosts \<and> 1 \<le> length hosts \<and> length hosts \<le> 64 \<and>
      (\<forall>k < length hosts. resolvable (gethostbyname P) (hosts ! k) (ports ! k)))"

lemma server_values_configured:
  assumes "filter_config_read cfg \<noteq> 0" and "config_def cfg = Some j"
    and "vs = found_values (json P) j ''distribution_server_array'' name" and "\<forall>v \<in> set vs. string_value (json P) FILENAME_MAX v"
    and "length vs * FILENAME_MAX \<le> length (stack P var)" and "1 \<le> length vs" and "length vs \<le> 64"
  shows "\<exists>rows. server_values P cfg name var = Inr (of_nat (length vs), rows) \<and>
    (\<forall>k < length vs. rows ! k = unquote (to_json_string (json P) (Some (vs ! k))))"
proof -
  have "length vs < 2 ^ 15" using assms(7) by simp
  then obtain m where "get_properties (json P) cfg (Some ''distribution_server_array'') FILENAME_MAX (Some name)
        (Some (stack P var)) = Inr (if vs = [] then -1 else int (length vs), Some m)"
      "\<forall>k < length vs. place FILENAME_MAX m k = unquote (to_json_string (json P) (Some (vs ! k)))"
    using get_properties_places [OF assms(1-5)] by blast
  then show ?thesis using assms(6,7) by (auto simp: server_values_def)
qed

lemma server_addresses_configured:
  assumes "filter_config_read cfg \<noteq> 0" and "config_def cfg = Some j" and "servers_configured P j hosts ports"
  shows "server_addresses P cfg = Inr (Some (map (\<lambda>k. addr_of (gethostbyname P) (hosts ! k) (ports ! k)) [0..<length hosts]))"
proof -
  define hv where "hv = found_values (json P) j ''distribution_server_array'' ''host''"
  define pv where "pv = found_values (json P) j ''distribution_server_array'' ''port''"
  let ?n = "length hosts"
  note c = assms(3) [unfolded servers_configured_def Let_def, folded hv_def pv_def]
  have hosts: "hosts = map (\<lambda>v. unquote (to_json_string (json P) (Some v))) hv"
    and ports: "ports = map (\<lambda>v. unquote (to_json_string (json P) (Some v))) pv" using c by simp_all
  have len: "length hv = ?n" "length pv = ?n" "1 \<le> ?n" "?n \<le> 64" using c by (metis length_map)+
  have fit: "\<forall>v \<in> set hv. string_value (json P) FILENAME_MAX v" "\<forall>v \<in> set pv. string_value (json P) FILENAME_MAX v"
      "length hv * FILENAME_MAX \<le> length (stack P ''host_values'')" "length pv * FILENAME_MAX \<le> length (stack P ''port_values'')"
    using c by (simp_all add: hosts ports)
  obtain hr where h: "server_values P cfg ''host'' ''host_values'' = Inr (of_nat ?n, hr)" "\<forall>k < ?n. hr ! k = hosts ! k"
    using server_values_configured [OF assms(1,2) hv_def fit(1,3)] len(3,4) unfolding len(1) by (metis len(1) hosts nth_map)
  obtain pr where p: "server_values P cfg ''port'' ''port_values'' = Inr (of_nat ?n, pr)" "\<forall>k < ?n. pr ! k = ports ! k"
    using server_values_configured [OF assms(1,2) pv_def fit(2,4)] len(3,4) unfolding len(2) by (metis len(2) ports nth_map)
  have u: "unat (of_nat ?n :: u64) = ?n" using len(4) by (simp add: unsigned_of_nat take_bit_nat_eq_self)
  define sv where "sv = replicate MAX_ADDRESSES \<lparr>tgt_address = zero_sockaddr, tgt_handle = 0\<rparr>"
  obtain s' where s: "address_list_from_arguments (gethostbyname P) (int ?n) hr pr sv = (int ?n, s')"
      "map tgt_address (take ?n s') = map (\<lambda>k. addr_of (gethostbyname P) (hr ! k) (pr ! k)) [0..<?n]"
    using address_list_ok [of ?n sv "gethostbyname P" hr pr] c h(2) p(2) by (auto simp: sv_def)
  have "map (\<lambda>k. addr_of (gethostbyname P) (hr ! k) (pr ! k)) [0..<?n] =
      map (\<lambda>k. addr_of (gethostbyname P) (hosts ! k) (ports ! k)) [0..<?n]"
    using h(2) p(2) by simp
  then show ?thesis
    using c s unfolding server_addresses_def h(1) p(1) sbind_simps prod.case u sv_def [symmetric]
    by (auto simp: Let_def)
qed

text \<open>
  Without distribution servers both numbers are the largest \<open>size_t\<close>: they are equal, and the loop that logs
  the servers leaves its arrays.
\<close>

lemma server_values_none:
  assumes "filter_config_read cfg \<noteq> 0" and "config_def cfg = Some j"
    and "found_values (json P) j ''distribution_server_array'' name = []"
  shows "\<exists>rows. server_values P cfg name var = Inr (- 1, rows)"
proof -
  obtain m where "get_properties (json P) cfg (Some ''distribution_server_array'') FILENAME_MAX (Some name)
        (Some (stack P var)) = Inr (- 1, Some m)"
    using get_properties_places [OF assms(1,2) assms(3) [symmetric], of FILENAME_MAX "stack P var"] by auto
  then show ?thesis by (simp add: server_values_def)
qed

theorem no_servers_overread:
  assumes "filter_config_read cfg \<noteq> 0" and "config_def cfg = Some j"
    and "\<And>name. found_values (json P) j ''distribution_server_array'' name = []"
  shows "server_addresses P cfg = Inl Out_of_bounds"
  using server_values_none [where P = P, OF assms(1,2) assms(3) [of "''host''"], of "''host_values''"]
    server_values_none [where P = P, OF assms(1,2) assms(3) [of "''port''"], of "''port_values''"]
  by (auto simp: server_addresses_def unsigned_minus_1_eq_mask mask_eq_exp_minus_1)

text \<open>Opening clients takes one free slot for each address.\<close>

definition client_of :: "nat \<Rightarrow> sockaddr_in \<Rightarrow> session \<Rightarrow> bool" where
  "client_of m a s \<longleftrightarrow> state s = PCAP_SESSION_START \<and> runner s = Some Client \<and> handler s = Some m \<and> address s = a"

lemma client_open_slot:
  assumes "tables_ok st" and "card (used st) < 128"
  obtains i st' where "pcapsession_client_open a (Some m) st = (1, st')" "opened Client i st st'"
    "client_of m a (sess st' i)"
proof -
  obtain i where i: "i < 128" "state (sess st i) = 0"
    "pcapsession_handling_get_new st = (Some i, set_sess i (\<lambda>_. zero_session\<lparr>sid := int i, state := 1\<rparr>) st)"
    using free_slot [OF assms] by metis
  have l: "length (session_list st) = 128" using assms(1) by (simp add: tables_ok_def)
  define st' where "st' = snd (pcapsession_client_open a (Some m) st)"
  have r: "pcapsession_client_open a (Some m) st = (1, st')"
    using i l by (simp add: st'_def pcapsession_client_open_def Let_def split_def sess_simps)
  have f: "client_of m a (sess st' i)"
    using i l by (simp add: st'_def pcapsession_client_open_def Let_def split_def sess_simps client_of_def)
  obtain k where k: "opened Client k st st'"
    using client_opener.opener_success [OF assms(1), of a "Some m"] r by (auto simp: succeeds_def st'_def [symmetric])
  have "k = i" by (rule opened_here [OF k i(1,2)]) (use f in \<open>simp add: client_of_def\<close>)
  then show thesis using that r k f by blast
qed

lemma opened_used: "opened k i st st' \<Longrightarrow> used st' = insert i (used st)"
  by (auto simp: opened_def used_def keeps_used_def)

lemma card_insert_used: "opened k i st st' \<Longrightarrow> card (used st') = Suc (card (used st))"
  using opened_used [of k i st st'] by (simp add: opened_def used_def)

lemma open_clients_spec:
  assumes "tables_ok st" and "card (used st) + length addrs \<le> 128"
  shows "\<exists>slots. length slots = length addrs \<and> distinct slots \<and>
    (\<forall>k < length addrs. slots ! k < 128 \<and> slots ! k \<notin> used st \<and>
      client_of m (addrs ! k) (sess (open_clients m addrs st) (slots ! k))) \<and>
    (\<forall>j \<in> used st. sess (open_clients m addrs st) j = sess st j)"
  using assms
proof (induction addrs arbitrary: st)
  case Nil
  show ?case by (simp add: open_clients_def)
next
  case (Cons a addrs)
  have room: "card (used st) < 128" using Cons.prems(2) by simp
  obtain i st' where i: "pcapsession_client_open a (Some m) st = (1, st')" "opened Client i st st'"
    "client_of m a (sess st' i)"
    using client_open_slot [OF Cons.prems(1) room] .
  have st': "tables_ok st'" "card (used st') + length addrs \<le> 128" "i < 128" "i \<notin> used st"
      "\<And>j. j \<in> used st \<Longrightarrow> sess st' j = sess st j"
    using i(2) card_insert_used [OF i(2)] Cons.prems(2) by (auto simp: opened_def keeps_used_def used_def)
  note u = opened_used [OF i(2)]
  have run: "open_clients m (a # addrs) st = open_clients m addrs st'" by (simp add: open_clients_def i(1))
  obtain slots where s: "length slots = length addrs" "distinct slots"
      "\<forall>k < length addrs. slots ! k < 128 \<and> slots ! k \<notin> used st' \<and>
        client_of m (addrs ! k) (sess (open_clients m addrs st') (slots ! k))"
      "\<forall>j \<in> used st'. sess (open_clients m addrs st') j = sess st' j"
    using Cons.IH [OF st'(1,2)] by blast
  have "i \<notin> set slots" using s(1,3) u by (auto simp: in_set_conv_nth)
  moreover have "\<forall>k < Suc (length addrs). (i # slots) ! k < 128 \<and> (i # slots) ! k \<notin> used st \<and>
      client_of m ((a # addrs) ! k) (sess (open_clients m addrs st') ((i # slots) ! k))"
    using s(3,4) st'(3,4) i(3) u by (auto simp: less_Suc_eq_0_disj)
  moreover have "\<forall>j \<in> used st. sess (open_clients m addrs st') j = sess st j"
    using s(4) st'(5) u by simp
  ultimately show ?case unfolding run using s(1,2) by (intro exI [of _ "i # slots"]) simp
qed

text \<open>
  C21: starting the merger. With a licence, a configuration that can be read and names the output, whether to
  untunnel and from 1 to 64 servers whose ports are valid and whose hosts resolve, \<open>pcapmerger\<close> starts the merger and
  then, if the table has room for them, one client session for each server, each in a slot of its own, with the address of its
  server and the merger as its handler; no other session is touched, the sessions are in a reachable state, and the program waits.
\<close>

theorem merger_starts:
  assumes "\<not> testString P lic" and "load_config read_pcap_merge_cfg_file P name = Inr (Some cfg)" and "config_def cfg = Some j"
    and "configured P j ''untunnel_gtp'' ''untunnel_str'' untun" and "configured P j ''output_path'' ''output_path_str'' path"
    and "servers_configured P j hosts ports"
    and "pcapsession_handling_init os init_gstate = (1, st0)"
    and "pcapsession_merger_open (filter (\<lambda>c. c \<noteq> BACKSLASH) path) (atoi untun) st0 = (Some m, st1)"
    and "reachable os env (other_threads P st1)" and "card (used (other_threads P st1)) + length hosts \<le> 128"
  shows "\<exists>st slots. merger_main os P [prog, lic, name] = Inr (None, st) \<and> reachable os env st \<and>
    length slots = length hosts \<and> distinct slots \<and>
    (\<forall>k < length hosts. slots ! k < 128 \<and> slots ! k \<notin> used (other_threads P st1) \<and>
      client_of m (addr_of (gethostbyname P) (hosts ! k) (ports ! k)) (sess st (slots ! k))) \<and>
    (\<forall>i \<in> used (other_threads P st1). sess st i = sess (other_threads P st1) i)"
proof -
  let ?addrs = "map (\<lambda>k. addr_of (gethostbyname P) (hosts ! k) (ports ! k)) [0..<length hosts]"
  define st where "st = open_clients m ?addrs (other_threads P st1)"
  note cfg = load_merge_config(1) [OF assms(2)] assms(3)
  have "merger_main os P [prog, lic, name] = Inr (None, st)"
    using assms(1,2,7,8)
    by (simp add: merger_main_def merger_options_configured [OF cfg assms(4,5)]
      server_addresses_configured [OF cfg assms(6)] merger_start_def st_def)
  moreover have "reachable os env st" unfolding st_def by (rule reachable_open_clients [OF assms(9)])
  moreover obtain slots where "length slots = length hosts" "distinct slots"
      "\<forall>k < length hosts. slots ! k < 128 \<and> slots ! k \<notin> used (other_threads P st1) \<and>
        client_of m (?addrs ! k) (sess st (slots ! k))"
      "\<forall>i \<in> used (other_threads P st1). sess st i = sess (other_threads P st1) i"
    using open_clients_spec [OF reachable_tables [OF assms(9)], of ?addrs m] assms(10) unfolding st_def by auto
  ultimately show ?thesis by auto
qed

section \<open>Sample programs\<close>

lemma handling_init_used:
  assumes "pcapsession_handling_init os init_gstate = (r, st)"
  shows "used st = {}"
proof -
  define st0 where "st0 = init_gstate\<lparr>session_handling_state := 3, session_list := replicate 128 zero_session\<rparr>"
  have f: "fold (\<lambda>i. pcapsession_change_state (int i) 0) [0..<128] st0 = st0"
    by (rule fold_unused_same) (simp add: st0_def)
  have "session_list st = session_list st0"
    using assms f by (auto simp: pcapsession_handling_init_def Let_def ext_def split_def st0_def [symmetric]
      split: if_splits) (simp_all add: st0_def init_gstate_def)
  then show ?thesis by (simp add: used_def st0_def)
qed

definition sample_config :: json where
  "sample_config = Arr [Obj [(''capture_location'', Str ''/data''), (''port'', Str ''3000''), (''live'', Str ''0''),
     (''file_capture_iterations'', Str ''2''), (''untunnel_gtp'', Str ''1''), (''output_path'', Str ''/out''),
     (''distribution_server_array'', Arr [Obj [(''host'', Str ''a''), (''port'', Str ''3000'')]])]]"

definition sample_program :: "json program" where
  "sample_program = \<lparr>json = json_tree (\<lambda>_. Some sample_config), testString = (\<lambda>_. False), file_exists = (\<lambda>_. True),
     config_location = None, readable = (\<lambda>_. True), gethostbyname = (\<lambda>_. Some 7),
     stack = (\<lambda>var. replicate (if var = ''host_values'' \<or> var = ''port_values'' then 4096 else 100) NUL),
     other_threads = (\<lambda>st. st)\<rparr>"

definition sample_cfg :: "json config_state" where
  "sample_cfg = \<lparr>config_def = Some sample_config, filter_config_read = 1\<rparr>"

lemma sample_load: "load_config read_pcap_dist_cfg_file sample_program ''f'' = Inr (Some sample_cfg)"
  by code_simp

lemma sample_elements:
  "elements (json_tree (\<lambda>_. Some sample_config)) sample_config ''port'' = [Str ''3000'']"
  "elements (json_tree (\<lambda>_. Some sample_config)) sample_config ''live'' = [Str ''0'']"
  "elements (json_tree (\<lambda>_. Some sample_config)) sample_config ''capture_location'' = [Str ''/data'']"
  "elements (json_tree (\<lambda>_. Some sample_config)) sample_config ''file_capture_iterations'' = [Str ''2'']"
  "elements (json_tree (\<lambda>_. Some sample_config)) sample_config ''untunnel_gtp'' = [Str ''1'']"
  "elements (json_tree (\<lambda>_. Some sample_config)) sample_config ''output_path'' = [Str ''/out'']"
  by code_simp+

lemma sample_numbers: "atoi ''3000'' = 3000" "atoi ''0'' = 0" "atoi ''2'' = 2" "atoi ''1'' = 1"
  by code_simp+

lemma sample_configured:
  "configured sample_program sample_config ''port'' ''port_str'' ''3000''"
  "configured sample_program sample_config ''live'' ''live_str'' ''0''"
  "configured sample_program sample_config ''capture_location'' ''capture_location_str'' ''/data''"
  "configured sample_program sample_config ''file_capture_iterations'' ''iterations_str'' ''2''"
  "configured sample_program sample_config ''untunnel_gtp'' ''untunnel_str'' ''1''"
  "configured sample_program sample_config ''output_path'' ''output_path_str'' ''/out''"
  by (simp_all add: configured_def sample_program_def sample_elements) (simp_all add: json_tree_def)

lemma sample_init:
  obtains st0 where "pcapsession_handling_init quiet_os init_gstate = (1, st0)" "used st0 = {}"
    "reachable quiet_os file_env st0"
proof -
  obtain r st0 where i: "pcapsession_handling_init quiet_os init_gstate = (r, st0)"
    by (cases "pcapsession_handling_init quiet_os init_gstate")
  have "fst (pcapsession_handling_init quiet_os init_gstate) = 1"
    by (simp add: pcapsession_handling_init_def Let_def ext_def split_def quiet_os_def)
  then show thesis using that [of st0] i handling_init_used [OF i] reachable_init [OF i] by simp
qed

lemma sample_server_open:
  assumes "tables_ok st" and "used st = {}"
  obtains st1 where "pcapsession_server_open quiet_os 3000 st = (1, st1)" "card (used st1) = 1"
proof -
  have "card (used st) < 128" using assms(2) by simp
  then obtain i where i: "i < 128" "pcapsession_handling_get_new st = (Some i, set_sess i (\<lambda>_. zero_session\<lparr>sid := int i, state := 1\<rparr>) st)"
    using free_slot [OF assms(1)] by metis
  have l: "length (session_list st) = 128" using assms(1) by (simp add: tables_ok_def)
  have "fst (pcapsession_server_open quiet_os 3000 st) = 1"
    using i l by (simp add: pcapsession_server_open_def open_server_socket_def errbuf_ok_def ext_def quiet_os_def Let_def
      split_def sess_simps)
  moreover from this have "card (used (snd (pcapsession_server_open quiet_os 3000 st))) = 1"
    using server_opener.opener_used [OF assms(1), of quiet_os 3000] assms(2) by (simp add: succeeds_def)
  ultimately show thesis using that by (metis prod.collapse)
qed

text \<open>The sample distributer captures twice from its directory.\<close>

theorem distributer_starts_witness:
  "\<exists>st i. distributer_main quiet_os sample_program [''pcapdistributer'', ''licence'', ''f''] = Inr (None, st) \<and>
    runner (sess st i) = Some Filecapture \<and> description (sess st i) = ''/data'' \<and> iterations (sess st i) = 2"
proof -
  let ?P = sample_program
  obtain st0 where st0: "pcapsession_handling_init quiet_os init_gstate = (1, st0)" "used st0 = {}"
    "reachable quiet_os file_env st0" using sample_init .
  obtain st1 where st1: "pcapsession_server_open quiet_os 3000 st0 = (1, st1)" "card (used st1) = 1"
    using sample_server_open [OF reachable_tables [OF st0(3)] st0(2)] .
  have P: "\<not> testString ?P ''licence''" "config_def sample_cfg = Some sample_config"
    "1 \<le> atoi ''3000''" "atoi ''3000'' \<le> 65535" "length ''/data'' < FILENAME_MAX"
    by (simp_all add: sample_program_def sample_cfg_def sample_numbers)
  have server: "pcapsession_server_open quiet_os (atoi ''3000'') st0 = (1, st1)" by (simp add: sample_numbers st1(1))
  have threads: "other_threads ?P st1 = st1" by (simp add: sample_program_def)
  have r: "reachable quiet_os file_env (other_threads ?P st1)" "card (used (other_threads ?P st1)) < 128"
    unfolding threads using reachable_server_open [OF st0(3) st1(1)] st1(2) by simp_all
  show ?thesis
    using distributer_starts [OF P(1) sample_load P(2) sample_configured(3,1,2,4) P(3-5) st0(1) server r, of "''pcapdistributer''"]
    by (auto simp: sample_numbers opened_def)
qed

lemma sample_servers: "servers_configured sample_program sample_config [''a''] [''3000'']"
proof -
  have v: "found_values (json_tree (\<lambda>_. Some sample_config)) sample_config ''distribution_server_array'' ''host'' = [Str ''a'']"
    "found_values (json_tree (\<lambda>_. Some sample_config)) sample_config ''distribution_server_array'' ''port'' = [Str ''3000'']"
    by code_simp+
  have q: "string_value (json_tree f) 4096 (Str ''a'')" "string_value (json_tree f) 4096 (Str ''3000'')"
      "to_json_string (json_tree f) (Some (Str s)) = quoted s" for f s
    by (auto simp: string_value_def json_tree_def)
  show ?thesis
    by (simp add: servers_configured_def sample_program_def v q resolvable_def sample_numbers)
qed

text \<open>The sample merger connects to its one server.\<close>

theorem merger_starts_witness:
  "\<exists>st m i. merger_main quiet_os sample_program [''pcapmerger'', ''licence'', ''f''] = Inr (None, st) \<and>
    client_of m \<lparr>sin_family = 2, sin_addr = 7, sin_port = 3000\<rparr> (sess st i)"
proof -
  let ?P = sample_program and ?path = "filter (\<lambda>c. c \<noteq> BACKSLASH) ''/out''"
  obtain st0 where st0: "pcapsession_handling_init quiet_os init_gstate = (1, st0)" "used st0 = {}"
    "reachable quiet_os file_env st0" using sample_init .
  note t = reachable_tables [OF st0(3)]
  obtain m' st1 where op: "pcapsession_merger_open ?path (atoi ''1'') st0 = (m', st1)"
    by (cases "pcapsession_merger_open ?path (atoi ''1'') st0")
  obtain i where i: "i < 128" "pcapsession_handling_get_new st0 = (Some i, set_sess i (\<lambda>_. zero_session\<lparr>sid := int i, state := 1\<rparr>) st0)"
    using free_slot [OF t] st0(2) by (metis card.empty zero_less_numeral)
  have l: "length (session_list st0) = 128" using t by (simp add: tables_ok_def)
  have m: "m' = Some i"
    using op i l by (auto simp: pcapsession_merger_open_def Let_def split_def sess_simps)
  have u: "card (used st1) = 1"
    using merger_opener.opener_used [OF t, of ?path "atoi ''1''"] unfolding succeeds_ptr_def op m by (simp add: st0(2))
  have threads: "other_threads ?P st1 = st1" by (simp add: sample_program_def)
  have r: "reachable quiet_os file_env (other_threads ?P st1)" "card (used (other_threads ?P st1)) + length [''a''] \<le> 128"
    unfolding threads using reachable_merger_open [OF st0(3) op] u by simp_all
  have P: "\<not> testString ?P ''licence''" "config_def sample_cfg = Some sample_config"
    by (simp_all add: sample_program_def sample_cfg_def)
  have "addr_of (gethostbyname ?P) ''a'' ''3000'' = \<lparr>sin_family = 2, sin_addr = 7, sin_port = 3000\<rparr>"
    by (simp add: addr_of_def sample_program_def sample_numbers)
  then show ?thesis
    using merger_starts [OF P(1) sample_load [folded read_cfg_file_same] P(2) sample_configured(5,6) sample_servers st0(1)
        op [unfolded m] r, of "''pcapmerger''"] by fastforce
qed

end
