(* ===== verification/Session_Types.thy ===== *)
theory Session_Types
  imports Session_System
begin

text \<open>
  The values that the fields of a session struct can hold in a running program: the state is one of the constants
  of \<open>pcapsession.h\<close>, between two function calls one of six, the supervision flag one of its two, the interval counter stays
  within the transition intervals, the identifier is an index of the table, and the description fits its array unless
  a buffer has been overrun. What is common to such invariants is the locale \<open>session_invariant\<close>.
\<close>

named_theorems typed_intros \<open>operations keep the sessions typed\<close>

definition typed_session :: "session \<Rightarrow> bool" where
  "typed_session s \<longleftrightarrow> state s \<in> {0..8} \<and> supervise_fd s \<in> {0, 1} \<and>
     interval_counter s \<in> {0..PCAP_SESSION_SUPERVISION_TRANSITION_INTERVALS} \<and>
     sid s \<in> {0..<int PCAP_SESSION_MAX_SESSIONS}"

definition typed :: "gstate \<Rightarrow> bool" where
  "typed st \<longleftrightarrow> (\<forall>s \<in> set (session_list st). typed_session s \<and>
     (Buffer_overflow \<notin> set (faults st) \<longrightarrow> length (description s) < FILENAME_MAX))"

section \<open>Assignments and calls\<close>

lemma typed_nth:
  assumes "typed st" and "i < length (session_list st)"
  shows "typed_session (sess st i)" "Buffer_overflow \<notin> set (faults st) \<Longrightarrow> length (description (sess st i)) < FILENAME_MAX"
  using assms by (simp_all add: typed_def)

lemma typed_set:
  assumes "typed st" and "i < length (session_list st) \<Longrightarrow> typed_session (sess st i) \<Longrightarrow> typed_session (f (sess st i))"
    and "Buffer_overflow \<notin> set (faults st) \<Longrightarrow> length (description (sess st i)) < FILENAME_MAX \<Longrightarrow>
      length (description (f (sess st i))) < FILENAME_MAX"
  shows "typed (set_sess i f st)"
proof (cases "i < length (session_list st)")
  case True
  then show ?thesis
    using assms typed_nth [OF assms(1) True] set_update_subset_insert [of "session_list st" i "f (sess st i)"]
    by (auto simp: typed_def set_sess_def)
next
  case False
  then show ?thesis using assms(1) by (simp add: typed_def set_sess_def list_update_beyond)
qed

lemma typed_world [typed_intros]:
  assumes "typed st"
  shows "typed (ext_do c st)" "typed (fault_at f st)" "typed (st\<lparr>hist := h\<rparr>)" "typed (st\<lparr>clocks := k\<rparr>)"
    "typed (st\<lparr>session_handling_state := x\<rparr>)" "typed (st\<lparr>clientconnlist := l\<rparr>)" "typed (st\<lparr>clientconnlist_initialized := b\<rparr>)"
    "typed (set_conn i v st)" "typed (pcap_dump d pkt st)"
  using assms by (simp_all add: typed_def ext_do_def fault_at_def set_conn_def pcap_dump_def)

lemma typed_change [typed_intros]: "typed st \<Longrightarrow> x \<in> {0..8} \<Longrightarrow> typed (pcapsession_change_state i x st)"
  by (auto simp: pcapsession_change_state_def intro!: typed_set typed_world simp: typed_session_def)

text \<open>Assignments to the other fields.\<close>

lemma typed_keep [typed_intros]:
  assumes "typed st" and "\<And>s. state (f s) = state s \<and> supervise_fd (f s) \<in> {supervise_fd s, 0, 1} \<and>
    interval_counter (f s) \<in> {interval_counter s, 0} \<and> sid (f s) = sid s \<and> description (f s) = description s"
  shows "typed (set_sess i f st)"
proof (rule typed_set [OF assms(1)])
  assume "typed_session (sess st i)"
  then show "typed_session (f (sess st i))" using assms(2) [of "sess st i"] by (auto simp: typed_session_def)
qed (use assms(2) [of "sess st i"] in simp)

lemma typed_description [typed_intros]: "typed st \<Longrightarrow> typed (set_description i text st)"
  by (auto simp: set_description_def str_into_def fault_at_def intro!: typed_set typed_world [unfolded fault_at_def]
      simp: typed_session_def)

lemma typed_zero: "typed_session zero_session"
  by (simp add: typed_session_def zero_session_def)

lemma typed_get_new [typed_intros]: "typed st \<Longrightarrow> typed (snd (pcapsession_handling_get_new st))"
  by (auto simp: pcapsession_handling_get_new_def Let_def intro!: typed_change typed_set)
    (simp_all add: typed_session_def zero_session_def)

lemma typed_add [typed_intros]: "typed st \<Longrightarrow> typed (snd (pcapsession_handling_add x st))"
  by (auto simp: pcapsession_handling_add_def Let_def intro!: typed_set typed_change simp: typed_session_def)

section \<open>Opening\<close>

lemma typed_server_socket [typed_intros]: "typed st \<Longrightarrow> typed (snd (open_server_socket os port a e st))"
  by (auto simp: open_server_socket_def error_return_def Let_def split_def ext_def intro!: typed_intros)

lemma typed_open [typed_intros]:
  assumes "typed st"
  shows "typed (snd (pcapsession_server_open os port st))" "typed (snd (pcapsession_livecapture_open os name st))"
    "typed (snd (pcapsession_filecapture_open dir n st))" "typed (snd (pcapsession_merger_open fname u st))"
    "typed (snd (pcapsession_client_open addr m st))" "typed (snd (pcapsession_clientconn_open f addr st))"
proof -
  note n = typed_get_new [OF assms]
  have i: "typed (init_clientconnlist st)" using assms by (simp add: init_clientconnlist_def typed_def)
  show "typed (snd (pcapsession_server_open os port st))"
    using n by (auto simp: pcapsession_server_open_def Let_def split_def intro!: typed_intros split: option.split)
  show "typed (snd (pcapsession_livecapture_open os name st))"
    using n by (auto simp: pcapsession_livecapture_open_def Let_def split_def ext_def intro!: typed_intros split: option.split)
  show "typed (snd (pcapsession_filecapture_open dir n st))"
    using n by (auto simp: pcapsession_filecapture_open_def Let_def split_def intro!: typed_intros split: option.split)
  show "typed (snd (pcapsession_merger_open fname u st))"
    using n by (auto simp: pcapsession_merger_open_def Let_def split_def intro!: typed_intros split: option.split)
  show "typed (snd (pcapsession_client_open addr m st))"
    using n by (auto simp: pcapsession_client_open_def Let_def split_def intro!: typed_intros split: option.split)
  show "typed (snd (pcapsession_clientconn_open f addr st))"
    using typed_get_new [OF i]
    by (auto simp: pcapsession_clientconn_open_def Let_def split_def intro!: typed_intros split: option.split)
qed

section \<open>Stopping and supervision\<close>

lemma typed_stop_parts [typed_intros]:
  assumes "typed st"
  shows "typed (stop_dumper os i st)" "typed (stop_handle b i st)" "typed (stop_fd os i st)" "typed (stop_monitor i st)"
    "typed (stop_or_restart a i st)" "typed (snd (close_server_socket os h e st))"
  using assms
  by (auto simp: stop_dumper_def stop_handle_def stop_fd_def stop_monitor_def stop_or_restart_def close_server_socket_def
      iotests_fd_open_def ext_def Let_def split_def intro!: typed_intros)

lemma typed_call_stopper [typed_intros]: "typed st \<Longrightarrow> typed (call_stopper k os (Some i) st)"
  by (cases k) (auto simp: call_stopper_def pcapsession_server_stop_def pcapsession_clientconn_stop_def
      pcapsession_livecapture_stop_def pcapsession_filecapture_stop_def pcapsession_merger_stop_def
      pcapsession_client_stop_def Let_def split_def intro!: typed_intros)

lemma typed_stop [typed_intros]: "typed st \<Longrightarrow> typed (pcapsession_stop os i st)"
  by (auto simp: pcapsession_stop_def Let_def split: option.split intro!: typed_intros)

lemma typed_start [typed_intros]: "typed st \<Longrightarrow> typed (snd (pcapsession_start os i st))"
  by (auto simp: pcapsession_start_def ext_def Let_def intro!: typed_intros)

lemma typed_enter [typed_intros]: "typed st \<Longrightarrow> x \<in> {0..8} \<Longrightarrow> typed (enter_state i x st)"
  by (auto simp: enter_state_def intro!: typed_intros)

text \<open>The counter is incremented only while it is below its limit.\<close>

lemma typed_count_interval:
  assumes "typed st" and "\<not> timed_out (sess st i)"
  shows "typed (set_sess i (\<lambda>s. s\<lparr>interval_counter := interval_counter s + 1\<rparr>) st)"
  using assms by (auto intro!: typed_set simp: typed_session_def timed_out_def)

lemma typed_transition [typed_intros]: "typed st \<Longrightarrow> typed (pcapsession_transition_session os i st)"
  using typed_count_interval [of st i] by (simp add: pcapsession_transition_session_def Let_def typed_intros)

lemma typed_supervise [typed_intros]:
  assumes "typed st"
  shows "typed (supervise_monitor os i st)" "typed (supervise_abort i st)" "typed (supervise_descriptor os i st)"
  using assms
  by (auto simp: supervise_monitor_def supervise_abort_def supervise_descriptor_def iotests_fd_open_def ext_def Let_def
      split: option.split sum.split prod.split intro!: typed_intros)

lemma typed_supervise_session: "typed (snd x) \<Longrightarrow> typed (snd (supervise_session os i x))"
  by (cases x) (auto simp: supervise_session_def Let_def intro!: typed_intros)

lemma typed_pass [typed_intros]: "typed st \<Longrightarrow> typed (snd (supervision_pass os st))"
proof -
  have "typed (snd x) \<Longrightarrow> typed (snd (fold (supervise_session os) is x))" for "is" x
    by (induction "is" arbitrary: x) (simp_all add: typed_supervise_session)
  then show "typed st \<Longrightarrow> typed (snd (supervision_pass os st))" by (simp add: supervision_pass_def)
qed

section \<open>Invariants of the running library\<close>

text \<open>
  A property of states that the initialisation establishes, that the open functions and a supervision round keep, and
  that does not depend on the fields which the session threads write, is an invariant of all reachable states: the threads write the
  state of a session only to say that it is running or to be terminated.
\<close>

locale session_invariant =
  fixes Q :: "gstate \<Rightarrow> bool"
  assumes Q_world: "Q st \<Longrightarrow> Q (ext_do c st)" "Q st \<Longrightarrow> Q (fault_at f st)" "Q st \<Longrightarrow> Q (st\<lparr>hist := h\<rparr>)"
      "Q st \<Longrightarrow> Q (st\<lparr>clocks := k\<rparr>)" "Q st \<Longrightarrow> Q (st\<lparr>session_handling_state := x\<rparr>)" "Q st \<Longrightarrow> Q (set_conn j v st)"
    and Q_keep: "Q st \<Longrightarrow> (\<And>s. state (f' s) = state s \<and> supervise_fd (f' s) \<in> {supervise_fd s, 0, 1} \<and>
      interval_counter (f' s) \<in> {interval_counter s, 0} \<and> sid (f' s) = sid s \<and> description (f' s) = description s) \<Longrightarrow>
      Q (set_sess i f' st)"
    and Q_change: "Q st \<Longrightarrow> y \<in> {PCAP_SESSION_RUNNING, PCAP_SESSION_TERMINATE} \<Longrightarrow> Q (pcapsession_change_state z y st)"
    and Q_init: "Q (snd (pcapsession_handling_init os init_gstate))"
    and Q_open: "Q st \<Longrightarrow> Q (snd (pcapsession_server_open os port st))"
      "Q st \<Longrightarrow> Q (snd (pcapsession_livecapture_open os name st))" "Q st \<Longrightarrow> Q (snd (pcapsession_filecapture_open dir n st))"
      "Q st \<Longrightarrow> Q (snd (pcapsession_merger_open fname u st))" "Q st \<Longrightarrow> Q (snd (pcapsession_client_open addr m st))"
      "Q st \<Longrightarrow> Q (snd (pcapsession_clientconn_open fd' addr st))"
    and Q_supervise: "system_ok st \<Longrightarrow> Q st \<Longrightarrow> Q (snd (supervision_pass os st))"
begin

lemmas Q_intros = Q_world Q_keep Q_change Q_open

lemma Q_dump: "Q st \<Longrightarrow> Q (pcap_dump d pkt st)"
  by (auto simp: pcap_dump_def intro!: Q_intros)

lemma Q_count: "Q st \<Longrightarrow> Q (set_sess i (count_in pkt) st)"
  by (rule Q_keep) (simp_all add: count_in_def)

lemma Q_conn_step: "Q st \<Longrightarrow> Q (conn_step os pkt j st)"
  by (auto simp: conn_step_def pcapsession_clientconn_client_handle_packet_def iotests_fd_open_def ext_def Let_def
      split: option.split intro!: Q_intros Q_dump Q_count)

lemma Q_fold_conn: "Q st \<Longrightarrow> Q (fold (conn_step os pkt) js st)"
  by (induction js arbitrary: st) (simp_all add: Q_conn_step)

lemma Q_clientconn_handler: "Q st \<Longrightarrow> Q (pcapsession_clientconn_packet_handler os p pkt st)"
  by (cases p) (simp_all add: pcapsession_clientconn_packet_handler_def Q_fold_conn Q_count)

lemma Q_merger_handler: "Q st \<Longrightarrow> Q (pcapsession_merger_packet_handler p pkt st)"
  by (auto simp: pcapsession_merger_packet_handler_def merger_untunnel_def Let_def split_def
      split: option.split sum.split intro!: Q_intros Q_dump Q_count)

lemma Q_loop:
  assumes "\<And>pkt st. Q st \<Longrightarrow> Q (cb pkt st)" and "Q st"
  shows "Q (loop_on env cb h st)"
proof -
  have "Q st \<Longrightarrow> Q (pcap_loop cb pkts st)" for pkts st
    using assms(1) by (induction pkts arbitrary: st) simp_all
  then show ?thesis using assms(2) by (simp add: loop_on_def Q_intros)
qed

lemma Q_run_parts:
  assumes "Q st"
  shows "Q (close_on h st)" "Q (geterr_closed h st)" "Q (open_monitor os f i st)"
    "Q (snd (file_path i n st))" "Q (set_sess i count_iteration st)"
  using assms
  by (auto simp: close_on_def geterr_closed_def open_monitor_def file_path_def count_iteration_def ext_def Let_def split_def
      split: sum.split intro!: Q_intros)

lemmas Q_run_intros = Q_intros Q_loop Q_run_parts Q_clientconn_handler Q_merger_handler

lemma Q_runs:
  assumes "Q st"
  shows "Q (pcapsession_clientconn_run os p st)" "Q (pcapsession_merger_run os p st)"
    "Q (pcapsession_client_run os env p st)" "Q (pcapsession_livecapture_run os env p st)"
  using assms
  by (auto simp: pcapsession_clientconn_run_def pcapsession_merger_run_def pcapsession_client_run_def
      pcapsession_livecapture_run_def ext_def Let_def split: option.split intro!: Q_run_intros)

lemma Q_stream_entries: "Q st \<Longrightarrow> Q (snd (snd (stream_entries os env i es c st)))"
proof (induction es arbitrary: c st)
  case (Cons n es)
  show ?case
    by (auto simp: Let_def split_def ext_def simp del: stream_entries.simps(1)
        intro!: Cons.IH Q_run_intros Cons.prems)
qed simp

lemma Q_filecapture_loop: "Q st \<Longrightarrow> filecapture_loop os env fuel i st = Some st' \<Longrightarrow> Q st'"
proof (induction fuel arbitrary: st)
  case (Suc fuel)
  define st1 where "st1 = ext_do (Opendir (description (sess (set_sess i count_iteration st) i))) (set_sess i count_iteration st)"
  have t1: "Q st1" unfolding st1_def by (intro Q_world Q_run_parts Suc.prems(1))
  show ?case
  proof (cases "entries env (hist (set_sess i count_iteration st)) (description (sess (set_sess i count_iteration st) i))")
    case None
    then show ?thesis using Suc.prems(2) t1 by (auto simp: st1_def [symmetric] Let_def intro!: Q_run_intros)
  next
    case (Some es)
    obtain failed n st2 where e: "stream_entries os env i es 0 st1 = (failed, n, st2)" by (cases "stream_entries os env i es 0 st1")
    then have t2: "Q st2" "Q (ext_do Closedir st2)"
      using Q_stream_entries [OF t1, of os env i es 0] by (simp_all add: Q_world)
    show ?thesis
      using Suc.prems(2) t2 Suc.IH [OF t2(2)]
      by (auto simp: Some st1_def [symmetric] e Let_def split: if_splits intro!: Q_run_intros)
  qed
qed simp

lemma Q_server_loop: "Q st \<Longrightarrow> server_loop os fuel i st = Some st' \<Longrightarrow> Q st'"
proof (induction fuel arbitrary: st)
  case (Suc fuel)
  obtain r st1 where e: "poll_server_socket os (fd (sess st i)) (Some pcapsession_clientconn_open) (Some 200) st = (r, st1)"
    by fastforce
  have "Q (snd (poll_server_socket os (fd (sess st i)) (Some pcapsession_clientconn_open) (Some 200) st))"
    using Suc.prems(1) by (auto simp: poll_server_socket_def Let_def split_def ext_def intro!: Q_intros)
  then have t: "Q st1" "Q (pcapsession_change_state (sid (sess st1 i)) 5 st1)" by (simp_all add: e Q_change)
  show ?case
    using Suc.prems t Suc.IH [OF t(1)] Suc.IH [OF t(2)] e by (auto simp: Let_def split: if_splits)
qed simp

lemma Q_step: "step os env st st' \<Longrightarrow> system_ok st \<Longrightarrow> Q st \<Longrightarrow> Q st'"
proof (induction rule: step.induct)
  case (run_server i st fuel st')
  have "Q (pcapsession_change_state (sid (sess st i)) 4 st)" using run_server by (simp add: Q_change)
  from Q_server_loop [OF this] show ?case using run_server(4) by (simp add: pcapsession_server_run_def)
next
  case (run_filecapture i st fuel st')
  have "Q (open_monitor os F_filecapture i (pcapsession_change_state (sid (sess st i)) 4 st))"
    using run_filecapture by (simp add: Q_run_parts Q_change)
  from Q_filecapture_loop [OF this] show ?case
    using run_filecapture(4) by (simp add: pcapsession_filecapture_run_def Let_def)
qed (simp_all add: pcapsession_handling_close_def Q_world Q_open Q_supervise Q_runs Q_clientconn_handler Q_merger_handler)

lemma reachable_invariant: "reachable os env st \<Longrightarrow> Q st"
proof (induction rule: reachable.induct)
  case (further st st')
  then show ?case using Q_step reachable_system by blast
qed (rule Q_init)

end

section \<open>Types\<close>

lemma typed_init: "typed (snd (pcapsession_handling_init os init_gstate))"
proof -
  have "typed st \<Longrightarrow> typed (fold (\<lambda>i. pcapsession_change_state (int i) 0) is st)" for "is" st
    by (induction "is" arbitrary: st) (simp_all add: typed_intros)
  moreover have "typed (init_gstate\<lparr>session_handling_state := 3, session_list := replicate 128 zero_session\<rparr>)"
    using typed_zero by (simp add: typed_def zero_session_def)
  ultimately show ?thesis
    by (simp add: pcapsession_handling_init_def Let_def split_def ext_def typed_intros) (simp add: init_gstate_def)
qed

interpretation types: session_invariant typed
  by unfold_locales (auto intro: typed_init intro!: typed_intros)

section \<open>States between two calls\<close>

text \<open>
  Stopped, terminating and aborting are states that a session has only while a function is at work on it.
\<close>

definition settled :: "gstate \<Rightarrow> bool" where
  "settled st \<longleftrightarrow> tables_ok st \<and> (\<forall>i < 128. state (sess st i) \<in> {PCAP_SESSION_UNUSED, PCAP_SESSION_START, PCAP_SESSION_STARTING,
     PCAP_SESSION_RUNNING, PCAP_SESSION_TERMINATE, PCAP_SESSION_ABORT})"

lemma settled_set:
  assumes "settled st" and "\<And>s. state (f s) \<in> {state s, 4, 5}"
  shows "settled (set_sess i f st)"
proof -
  have "state (sess (set_sess i f st) j) \<in> {0, 2, 3, 4, 5, 6}" if "j < 128" for j
    using assms(1) assms(2) [of "sess st i"] that by (cases "i = j") (auto simp: settled_def tables_ok_def sess_simps)
  then show ?thesis using assms(1) by (simp add: settled_def tables_ok_def sess_simps)
qed

context session_opener
begin

lemma opener_settled:
  assumes "settled st"
  shows "settled (snd (opener st))"
proof -
  have t: "tables_ok st" using assms by (simp add: settled_def)
  have "state (sess (snd (opener st)) j) \<in> {0, 2, 3, 4, 5, 6}" if j: "j < 128" for j
  proof (cases "fst (opener st)")
    case True
    then obtain i where "opened kind i st (snd (opener st))" using opener_success [OF t] by blast
    then show ?thesis using assms j by (cases "j = i") (auto simp: opened_def settled_def)
  next
    case False
    then show ?thesis
      using opener_failure [OF t False] assms j by (auto simp: not_opened_def keeps_used_def settled_def)
  qed
  then show ?thesis using opener_keeps [OF t] by (simp add: settled_def keeps_used_def)
qed

end

lemma transition_settles: "x \<in> {0, 2, 3, 4, 5, 6} \<Longrightarrow> transition_state expired again x \<in> {0, 2, 3, 4, 5, 6}"
  by (auto simp: transition_state_def)

lemma supervise_session_settled:
  assumes "sessions_ok st" and "i < 128" and "settled st"
  shows "sessions_ok (snd (supervise_session os i (c, st)))" "settled (snd (supervise_session os i (c, st)))"
proof -
  have "sessions_ok (snd (supervise_session os i (c, st))) \<and> settled (snd (supervise_session os i (c, st)))"
  proof (cases "state (sess st i) = 0")
    case True
    then show ?thesis using supervise_session_unused assms by simp
  next
    case False
    obtain st' where s: "supervise_session os i (c, st) = (c + 1, st')" "only i st st'"
        "state (sess st' i) = transition_state (timed_out (sess st i)) (session_restarts (sess st i)) (ordered_state os st i)"
      using supervise_session_props [OF assms(1,2) False] by blast
    have "ordered_state os st i \<in> {0, 2, 3, 4, 5, 6}" using assms(2,3) by (auto simp: ordered_state_def settled_def)
    then have "state (sess st' i) \<in> {0, 2, 3, 4, 5, 6}" unfolding s(3) by (rule transition_settles)
    moreover have "sessions_ok st'" "\<forall>j < 128. j \<noteq> i \<longrightarrow> sess st' j = sess st j" using s(2) by (simp_all add: only_def)
    ultimately have "settled st'" using assms(3) unfolding settled_def sessions_ok_def by metis
    then show ?thesis using s(1) \<open>sessions_ok st'\<close> by simp
  qed
  then show "sessions_ok (snd (supervise_session os i (c, st)))" "settled (snd (supervise_session os i (c, st)))" by simp_all
qed

lemma supervision_pass_settled:
  assumes "sessions_ok st" and "settled st"
  shows "settled (snd (supervision_pass os st))"
proof -
  have "settled (snd (fold (supervise_session os) is (c, st)))" if "\<forall>i \<in> set is. i < 128" for c "is"
    using assms that
  proof (induction "is" arbitrary: c st)
    case (Cons i "is")
    obtain c' st' where s: "supervise_session os i (c, st) = (c', st')" by (cases "supervise_session os i (c, st)")
    then show ?case using supervise_session_settled [OF Cons.prems(1) _ Cons.prems(2), of i os c] Cons by simp
  qed simp
  then show ?thesis by (simp add: supervision_pass_def)
qed

lemma settled_init: "settled (snd (pcapsession_handling_init os init_gstate))"
proof -
  define st where "st = init_gstate\<lparr>session_handling_state := 3, session_list := replicate 128 zero_session\<rparr>"
  have f: "fold (\<lambda>i. pcapsession_change_state (int i) 0) [0..<128] st = st"
    by (rule fold_unused_same) (simp add: st_def)
  have "settled (st\<lparr>hist := h, session_handling_state := x\<rparr>)" "settled (st\<lparr>hist := h\<rparr>)" for h x
    by (simp_all add: settled_def tables_ok_def st_def init_gstate_def zero_session_def)
  then show ?thesis
    using f by (simp add: pcapsession_handling_init_def Let_def st_def [symmetric] ext_def split_def) (simp add: init_gstate_def)
qed

interpretation between: session_invariant settled
proof
  show "settled (set_sess i f st)" if "settled st" "\<And>s. state (f s) = state s \<and> supervise_fd (f s) \<in> {supervise_fd s, 0, 1} \<and>
      interval_counter (f s) \<in> {interval_counter s, 0} \<and> sid (f s) = sid s \<and> description (f s) = description s" for st i f
    using settled_set that by simp
  show "settled (pcapsession_change_state z y st)" if "settled st" "y \<in> {4, 5}" for st z y
    using that settled_set by (auto simp: pcapsession_change_state_def settled_def tables_ok_def fault_at_def)
  show "settled (snd (supervision_pass os st))" if "system_ok st" "settled st" for os st
    using supervision_pass_settled that system_okD(1) by blast
qed (use server_opener.opener_settled livecapture_opener.opener_settled filecapture_opener.opener_settled
    merger_opener.opener_settled client_opener.opener_settled clientconn_opener.opener_settled settled_init in
    \<open>simp_all add: settled_def tables_ok_def ext_do_def fault_at_def set_conn_def succeeds_def succeeds_ptr_def\<close>)

section \<open>Properties\<close>

text \<open>
  C7: the sessions stay well typed. In every reachable state, that is between two calls of the functions of the library, each of
  the 128 session structs holds one of the six states in which a session rests, one of the two supervision flags, an interval
  counter between 0 and 10 and an index of the table as its identifier; and its description fits its array, unless a
  string has been written over the end of a buffer. So the default branch of the transitions, for any other state, is never taken.
\<close>

theorem reachable_typed:
  assumes "reachable os env st" and "i < 128"
  shows "state (sess st i) \<in> {PCAP_SESSION_UNUSED, PCAP_SESSION_START, PCAP_SESSION_STARTING, PCAP_SESSION_RUNNING,
      PCAP_SESSION_TERMINATE, PCAP_SESSION_ABORT} \<and>
    supervise_fd (sess st i) \<in> {0, 1} \<and> interval_counter (sess st i) \<in> {0..10} \<and>
    sid (sess st i) \<in> {0..<128} \<and> (Buffer_overflow \<notin> set (faults st) \<longrightarrow> length (description (sess st i)) < 4096)"
proof -
  have "length (session_list st) = 128" using system_okD(5) [OF reachable_system [OF assms(1)]] .
  then show ?thesis
    using typed_nth [OF types.reachable_invariant [OF assms(1)], of i] between.reachable_invariant [OF assms(1)] assms(2)
    by (simp add: typed_session_def settled_def)
qed

theorem reachable_typed_witness:
  "state (sess (snd (pcapsession_clientconn_open 7 zero_sockaddr (snd (pcapsession_handling_init quiet_os init_gstate)))) 5)
     \<in> {0, 2, 3, 4, 5, 6}"
  using reachable_typed [OF accepted_reachable, of 5] by simp

end
