(* ===== verification/Program_Signals.thy ===== *)
theory Program_Signals
  imports Programs Session_Types
begin

text \<open>
  The signals of \<open>pcapdistributer\<close> and \<open>pcapmerger\<close>: which of them the programs block and which they handle, what
  the delivery of one does to the sessions, and that it ends the program, unless it comes too early.
\<close>

section \<open>Registration\<close>

text \<open>The signals that the programs name. The default action of each of them ends the process.\<close>

datatype signal = SIGALRM | SIGPIPE | SIGABRT | SIGTERM | SIGINT | SIGQUIT | SIGSEGV | SIGSTKFLT

text \<open>The signals a process has blocked, and those it has set a handler for.\<close>

record signals =
  sigmask :: "signal list"
  handlers :: "signal list"

definition no_signals :: signals where
  "no_signals = \<lparr>sigmask = [], handlers = []\<rparr>"

definition sig_block :: "signal list \<Rightarrow> signals \<Rightarrow> signals" where
  "sig_block sigs t = t\<lparr>sigmask := sigs @ sigmask t\<rparr>"

definition set_handler :: "signal \<Rightarrow> signals \<Rightarrow> signals" where
  "set_handler sig t = t\<lparr>handlers := sig # handlers t\<rparr>"

text \<open>The two programs differ in one line: in \<open>pcapmerger.cpp\<close> the handler of \<open>SIGSEGV\<close> is commented out.\<close>

definition distributer_register_signals :: "signals \<Rightarrow> signals" where
  "distributer_register_signals t =
     fold set_handler [SIGABRT, SIGTERM, SIGINT, SIGQUIT, SIGSEGV, SIGSTKFLT] (sig_block [SIGALRM, SIGPIPE] t)"

definition merger_register_signals :: "signals \<Rightarrow> signals" where
  "merger_register_signals t =
     fold set_handler [SIGABRT, SIGTERM, SIGINT, SIGQUIT, SIGSTKFLT] (sig_block [SIGALRM, SIGPIPE] t)"

section \<open>Delivery\<close>

text \<open>A blocked signal stays pending, a handled one runs \<open>sighandler\<close>; \<open>None\<close>: the default action ends the process.\<close>

definition deliver :: "signals \<Rightarrow> signal \<Rightarrow> bool \<times> gstate \<Rightarrow> (bool \<times> gstate) option" where
  "deliver t sig s =
     (if sig \<in> set (sigmask t) then Some s else if sig \<in> set (handlers t) then Some (sighandler s) else None)"

primrec deliver_all :: "signals \<Rightarrow> signal list \<Rightarrow> bool \<times> gstate \<Rightarrow> (bool \<times> gstate) option" where
  "deliver_all t [] s = Some s"
| "deliver_all t (sig # sigs) s = Option.bind (deliver t sig s) (deliver_all t sigs)"

definition survives :: "signals \<Rightarrow> signal \<Rightarrow> bool" where
  "survives t sig \<longleftrightarrow> sig \<in> set (sigmask t) \<or> sig \<in> set (handlers t)"

definition orders_shutdown :: "signals \<Rightarrow> signal \<Rightarrow> bool" where
  "orders_shutdown t sig \<longleftrightarrow> sig \<notin> set (sigmask t) \<and> sig \<in> set (handlers t)"

lemma registered:
  "survives (distributer_register_signals no_signals) sig"
  "survives (merger_register_signals no_signals) sig \<longleftrightarrow> sig \<noteq> SIGSEGV"
  "orders_shutdown (distributer_register_signals no_signals) sig \<longleftrightarrow> sig \<notin> {SIGALRM, SIGPIPE}"
  "orders_shutdown (merger_register_signals no_signals) sig \<longleftrightarrow> sig \<notin> {SIGALRM, SIGPIPE, SIGSEGV}"
  by (cases sig; simp add: survives_def orders_shutdown_def distributer_register_signals_def merger_register_signals_def
      set_handler_def sig_block_def no_signals_def)+

text \<open>However many signals arrive, the first that is handled orders the shutdown and the others change nothing.\<close>

lemma deliver_eq:
  "survives t sig \<Longrightarrow> deliver t sig s = Some (if orders_shutdown t sig then sighandler s else s)"
  by (auto simp: deliver_def survives_def orders_shutdown_def)

lemma sighandler_simps [simp]:
  "sighandler (True, st) = (True, st)" "sighandler (False, st) = (True, pcapsession_handling_close st)"
  by (simp_all add: sighandler_def)

lemma deliver_ordered: "\<forall>sig \<in> set sigs. survives t sig \<Longrightarrow> deliver_all t sigs (True, st) = Some (True, st)"
  by (induction sigs) (simp_all add: deliver_eq)

lemma deliver_first:
  assumes "\<forall>sig \<in> set sigs. survives t sig" and "\<exists>sig \<in> set sigs. orders_shutdown t sig"
  shows "deliver_all t sigs (False, st) = Some (True, pcapsession_handling_close st)"
  using assms by (induction sigs) (auto simp: deliver_eq deliver_ordered)

section \<open>A signal before there is a supervision thread\<close>

text \<open>No session has left the start state, and no thread has been created.\<close>

definition unstarted :: "gstate \<Rightarrow> bool" where
  "unstarted st \<longleftrightarrow> tables_ok st \<and> (\<forall>i < 128. state (sess st i) \<in> {PCAP_SESSION_UNUSED, PCAP_SESSION_START}) \<and>
     (\<forall>n. Pthread_create n \<notin> set (hist st))"

context session_opener
begin

lemma opener_unstarted:
  assumes "unstarted st" and "\<forall>n. Pthread_create n \<notin> set (hist (snd (opener st)))"
  shows "unstarted (snd (opener st))"
proof -
  have t: "tables_ok st" using assms(1) by (simp add: unstarted_def)
  have "state (sess (snd (opener st)) j) \<in> {0, 2}" if j: "j < 128" for j
  proof (cases "fst (opener st)")
    case True
    then obtain i where "opened kind i st (snd (opener st))" using opener_success [OF t] by blast
    then show ?thesis using assms(1) j by (cases "j = i") (auto simp: opened_def unstarted_def)
  next
    case False
    then show ?thesis
      using opener_failure [OF t False] assms(1) j by (auto simp: not_opened_def keeps_used_def unstarted_def)
  qed
  then show ?thesis using opener_keeps [OF t] assms(2) by (simp add: unstarted_def keeps_used_def)
qed

end

text \<open>What the open functions call: none of it creates a thread.\<close>

lemma table_hist [simp]:
  "hist (set_sess i f st) = hist st" "hist (pcapsession_change_state k x st) = hist st"
  "hist (set_description i d st) = hist st" "hist (snd (pcapsession_handling_add k st)) = hist st"
  "hist (snd (pcapsession_handling_get_new st)) = hist st"
  by (auto simp: set_sess_def pcapsession_change_state_def fault_at_def set_description_def pcapsession_handling_add_def
      pcapsession_handling_get_new_def Let_def split: sum.split)

lemma get_new_hist: "pcapsession_handling_get_new st = (r, st') \<Longrightarrow> hist st' = hist st"
  using table_hist(5) [of st] by simp

lemma server_socket_hist:
  "\<forall>n. Pthread_create n \<notin> set (hist w) \<Longrightarrow> Pthread_create n \<notin> set (hist (snd (open_server_socket os port a e w)))"
  by (auto simp: open_server_socket_def error_return_def ext_def ext_do_def Let_def)

lemma open_hist [simp]:
  "hist (snd (pcapsession_filecapture_open dir n st)) = hist st"
  "hist (snd (pcapsession_merger_open path u st)) = hist st"
  "hist (snd (pcapsession_client_open a m st)) = hist st"
  by (auto simp: pcapsession_filecapture_open_def pcapsession_merger_open_def pcapsession_client_open_def Let_def split_def
      get_new_hist split: prod.split option.split)

lemma open_no_thread:
  assumes "\<forall>n. Pthread_create n \<notin> set (hist st)"
  shows "Pthread_create n \<notin> set (hist (snd (pcapsession_server_open os port st)))"
    "Pthread_create n \<notin> set (hist (snd (pcapsession_livecapture_open os name st)))"
  using assms
  by (auto simp: pcapsession_server_open_def pcapsession_livecapture_open_def Let_def split_def ext_def server_socket_hist
      split: prod.split option.split dest!: get_new_hist)

lemma open_unstarted:
  assumes "unstarted st"
  shows "unstarted (snd (pcapsession_server_open os port st))" "unstarted (snd (pcapsession_livecapture_open os name st))"
    "unstarted (snd (pcapsession_filecapture_open dir n st))" "unstarted (snd (pcapsession_merger_open path u st))"
    "unstarted (snd (pcapsession_client_open a m st))"
proof -
  have h: "\<forall>n. Pthread_create n \<notin> set (hist st)" using assms by (simp add: unstarted_def)
  show "unstarted (snd (pcapsession_server_open os port st))"
    using server_opener.opener_unstarted [OF assms, of os port] open_no_thread(1) [OF h] by (simp add: succeeds_def)
  show "unstarted (snd (pcapsession_livecapture_open os name st))"
    using livecapture_opener.opener_unstarted [OF assms, of os name] open_no_thread(2) [OF h] by (simp add: succeeds_def)
  show "unstarted (snd (pcapsession_filecapture_open dir n st))"
    using filecapture_opener.opener_unstarted [OF assms, of dir n] h by (simp add: succeeds_def)
  show "unstarted (snd (pcapsession_merger_open path u st))"
    using merger_opener.opener_unstarted [OF assms, of path u] h by (simp add: succeeds_ptr_def)
  show "unstarted (snd (pcapsession_client_open a m st))"
    using client_opener.opener_unstarted [OF assms, of a m] h by (simp add: succeeds_def)
qed

lemma open_clients_unstarted: "unstarted st \<Longrightarrow> unstarted (open_clients m addrs st)"
  by (induction addrs arbitrary: st) (simp_all add: open_clients_def open_unstarted)

text \<open>The initialisation takes the ordered shutdown for a supervision thread that runs already.\<close>

lemma handling_init_closed:
  "pcapsession_handling_init os (pcapsession_handling_close st) = (1, pcapsession_handling_close st)"
  by (simp add: pcapsession_handling_init_def pcapsession_handling_close_def)

lemma closed_unstarted: "unstarted (pcapsession_handling_close init_gstate)"
  by (simp add: unstarted_def pcapsession_handling_close_def init_gstate_def tables_ok_def zero_session_def)

lemma distributer_start_closed:
  "unstarted (snd (distributer_start os (\<lambda>st. st) loc live port iters (pcapsession_handling_close init_gstate)))"
  using closed_unstarted
  by (simp add: distributer_start_def handling_init_closed Let_def split_def open_unstarted)

lemma merger_start_closed:
  "\<exists>st. merger_start os (\<lambda>st. st) path u addrs (pcapsession_handling_close init_gstate) = (None, st) \<and> unstarted st"
proof -
  let ?st0 = "pcapsession_handling_close init_gstate"
  have t: "tables_ok ?st0" "used ?st0 = {}"
    by (simp_all add: used_def pcapsession_handling_close_def init_gstate_def tables_ok_def zero_session_def)
  obtain r st where r: "pcapsession_merger_open path u ?st0 = (r, st)" by (cases "pcapsession_merger_open path u ?st0")
  obtain i where i: "i < 128" "pcapsession_handling_get_new ?st0 = (Some i, set_sess i (\<lambda>_. zero_session\<lparr>sid := int i, state := 1\<rparr>) ?st0)"
    using free_slot [OF t(1)] t(2) by (metis card.empty zero_less_numeral)
  have "length (session_list ?st0) = 128" using t(1) by (simp add: tables_ok_def)
  then have "r \<noteq> None" using r i by (auto simp: pcapsession_merger_open_def Let_def split_def sess_simps)
  then show ?thesis
    using r open_unstarted(4) [OF closed_unstarted, of path u]
    by (auto simp: merger_start_def handling_init_closed open_clients_unstarted)
qed

section \<open>Properties\<close>

text \<open>
  C4: a signal ends the programs in an orderly way. In any reachable state in which no supervised descriptor is lost, let
  signals that the sources name arrive, \<open>SIGSEGV\<close> excepted, at least one of them handled: the supervision thread
  then ends within two rounds with every session unused, and the main function, which waits for it, exits with status 0
  and orders nothing more. (After a segmentation fault the handler of the distributer returns to the instruction that failed,
  and the merger has no handler; a lost descriptor makes the shutdown hang.)
\<close>

theorem signal_shuts_down:
  assumes "reachable os env st" and "\<forall>i < 128. no_fd_lost os (sess st i)"
    and "t \<in> {distributer_register_signals no_signals, merger_register_signals no_signals}"
    and "SIGSEGV \<notin> set sigs" and "\<not> set sigs \<subseteq> {SIGALRM, SIGPIPE}"
  shows "\<exists>st1 st2. deliver_all t sigs (False, st) = Some (True, st1) \<and>
    supervision_loop os (Suc (Suc n)) st1 = Some st2 \<and> session_handling_state st2 = PCAP_SESSION_STOPPED \<and>
    (\<forall>i < 128. state (sess st2 i) = PCAP_SESSION_UNUSED) \<and> finish 0 (True, st2) = (0, True, st2)"
proof -
  have "\<forall>sig \<in> set sigs. survives t sig" "\<exists>sig \<in> set sigs. orders_shutdown t sig"
    using assms(3,4,5) by (auto simp: registered)
  then have d: "deliver_all t sigs (False, st) = Some (True, pcapsession_handling_close st)" by (rule deliver_first)
  let ?st1 = "pcapsession_handling_close st"
  have l: "session_list ?st1 = session_list st" "session_handling_state ?st1 \<noteq> 4"
    by (simp_all add: pcapsession_handling_close_def)
  have "sessions_ok ?st1"
    using reachable_system [OF assms(1)] by (simp add: system_ok_def pcapsession_handling_close_def sessions_ok_def tables_ok_def)
  moreover have "\<forall>i < 128. state (sess st i) \<noteq> 1 \<and> state (sess st i) \<noteq> 8 \<and> no_fd_lost os (sess st i)"
    using between.reachable_invariant [OF assms(1)] assms(2) by (fastforce simp: settled_def)
  ultimately obtain st2 where "supervision_loop os (Suc (Suc n)) ?st1 = Some st2"
      "session_handling_state st2 = 1" "\<forall>i < 128. state (sess st2 i) = 0"
    using shutdown_completes [of ?st1 os n] l by auto
  then show ?thesis using d by (simp add: finish_def)
qed

text \<open>
  C25: a signal that comes too early is lost. If a handled signal arrives before session handling is initialised, no
  supervision thread is ever created: the main functions go on to open their sessions, none of which leaves the start
  state, and wait for a thread that does not exist. If it arrives before the supervision thread has begun to run, that
  thread overwrites the order. In both cases no later signal that the program blocks or handles has an effect.
\<close>

theorem early_signal_lost:
  assumes "orders_shutdown t sig" and "\<forall>s \<in> set sigs. survives t s"
  shows "(\<exists>st0 st1. deliver t sig (False, init_gstate) = Some (True, st0) \<and>
      unstarted (snd (distributer_start os (\<lambda>st. st) loc live port iters st0)) \<and>
      merger_start os (\<lambda>st. st) path untun addrs st0 = (None, st1) \<and> unstarted st1) \<and>
    (\<exists>st0. deliver t sig (False, st) = Some (True, st0) \<and>
      pcapsession_supervision_run os fuel st0 = pcapsession_supervision_run os fuel st) \<and>
    deliver_all t sigs (True, st) = Some (True, st)"
proof (intro conjI)
  have d: "deliver t sig (False, st) = Some (True, pcapsession_handling_close st)" for st
    using assms(1) by (simp add: deliver_def orders_shutdown_def)
  then show "\<exists>st0 st1. deliver t sig (False, init_gstate) = Some (True, st0) \<and>
      unstarted (snd (distributer_start os (\<lambda>st. st) loc live port iters st0)) \<and>
      merger_start os (\<lambda>st. st) path untun addrs st0 = (None, st1) \<and> unstarted st1"
    using distributer_start_closed [of os loc live port iters] merger_start_closed [of os path untun addrs] by auto
  show "\<exists>st0. deliver t sig (False, st) = Some (True, st0) \<and>
      pcapsession_supervision_run os fuel st0 = pcapsession_supervision_run os fuel st"
    by (simp add: d pcapsession_supervision_run_def pcapsession_handling_close_def)
  show "deliver_all t sigs (True, st) = Some (True, st)" by (rule deliver_ordered [OF assms(2)])
qed

text \<open>A merger that is interrupted while it reads its configuration, and again later.\<close>

theorem early_signal_lost_witness:
  "\<exists>st0 st1. deliver (merger_register_signals no_signals) SIGINT (False, init_gstate) = Some (True, st0) \<and>
    merger_start quiet_os (\<lambda>st. st) ''/out'' 0 [zero_sockaddr] st0 = (None, st1) \<and> unstarted st1"
  using early_signal_lost [of "merger_register_signals no_signals" SIGINT "[SIGINT, SIGTERM]" quiet_os "[]" 0 0 0 "''/out''" 0
      "[zero_sockaddr]" init_gstate 0]
  by (auto simp: registered)

text \<open>A distributer with an open server is interrupted twice.\<close>

theorem signal_shuts_down_witness:
  "\<exists>st st1 st2. card (used st) = 1 \<and>
    deliver_all (distributer_register_signals no_signals) [SIGPIPE, SIGINT, SIGTERM] (False, st) = Some (True, st1) \<and>
    supervision_loop quiet_os 2 st1 = Some st2 \<and> (\<forall>i < 128. state (sess st2 i) = 0)"
proof -
  obtain st0 where st0: "used st0 = {}" "reachable quiet_os file_env st0" using sample_init by metis
  note t = reachable_tables [OF st0(2)]
  obtain st where st: "pcapsession_server_open quiet_os 3000 st0 = (1, st)" "card (used st) = 1"
    using sample_server_open [OF t st0(1)] .
  have i: "\<forall>i < 128. no_fd_lost quiet_os (sess st i)" by (simp add: no_fd_lost_def quiet_os_def)
  show ?thesis
    using signal_shuts_down [OF reachable_server_open [OF st0(2) st(1)] i, of "distributer_register_signals no_signals"
        "[SIGPIPE, SIGINT, SIGTERM]" 0] st(2)
    by (auto simp: numeral_2_eq_2)
qed

end
