(* ===== verification/Gtp_Tables.thy ===== *)
theory Gtp_Tables
  imports Gtp_Header
begin

text \<open>
  The two static tables of \<open>src/gtp\<close>: the GTPv1 information elements (\<open>gtpv1_information_elements.c\<close>)
  with the lengths that the decoders advance by, and the GTPv1 message types
  (\<open>gtpv1_message_types.c\<close>). Each table has 256 entries, cleared and then filled one entry at a time; an
  entry that is not filled keeps its zeroes. The numbers are the constants of
  \<open>include/gtpv1_information_elements.h\<close> and \<open>include/gtpv1_message_types.h\<close>.
\<close>

section \<open>Numbers\<close>

abbreviation (input) MAX_GTPV1_INFORMATION_ELEMENTS :: nat where "MAX_GTPV1_INFORMATION_ELEMENTS \<equiv> 256"
abbreviation (input) MAX_GTPV1_MESSAGE_TYPES :: nat where "MAX_GTPV1_MESSAGE_TYPES \<equiv> 256"
abbreviation (input) GTPV1_FIRST_TLV_IE :: nat where "GTPV1_FIRST_TLV_IE \<equiv> 128"

abbreviation (input) GTPV1_IE_CAUSE :: nat where "GTPV1_IE_CAUSE \<equiv> 1"
abbreviation (input) GTPV1_IE_IMSI :: nat where "GTPV1_IE_IMSI \<equiv> 2"
abbreviation (input) GTPV1_IE_RAI :: nat where "GTPV1_IE_RAI \<equiv> 3"
abbreviation (input) GTPV1_IE_TLLI :: nat where "GTPV1_IE_TLLI \<equiv> 4"
abbreviation (input) GTPV1_IE_P_TMSI :: nat where "GTPV1_IE_P_TMSI \<equiv> 5"
abbreviation (input) GTPV1_IE_REORDERING_REQUIRED :: nat where "GTPV1_IE_REORDERING_REQUIRED \<equiv> 8"
abbreviation (input) GTPV1_IE_AUTHENTICATION_TRIPLET :: nat where "GTPV1_IE_AUTHENTICATION_TRIPLET \<equiv> 9"
abbreviation (input) GTPV1_IE_MAP_CAUSE :: nat where "GTPV1_IE_MAP_CAUSE \<equiv> 11"
abbreviation (input) GTPV1_IE_P_TMSI_SIGNATURE :: nat where "GTPV1_IE_P_TMSI_SIGNATURE \<equiv> 12"
abbreviation (input) GTPV1_IE_MS_VALIDATED :: nat where "GTPV1_IE_MS_VALIDATED \<equiv> 13"
abbreviation (input) GTPV1_IE_RECOVERY :: nat where "GTPV1_IE_RECOVERY \<equiv> 14"
abbreviation (input) GTPV1_IE_SELECTION_MODE :: nat where "GTPV1_IE_SELECTION_MODE \<equiv> 15"
abbreviation (input) GTPV1_IE_TEI_DATA_I :: nat where "GTPV1_IE_TEI_DATA_I \<equiv> 16"
abbreviation (input) GTPV1_IE_TEI_CONTROL_PLANE :: nat where "GTPV1_IE_TEI_CONTROL_PLANE \<equiv> 17"
abbreviation (input) GTPV1_IE_TEI_DATA_II :: nat where "GTPV1_IE_TEI_DATA_II \<equiv> 18"
abbreviation (input) GTPV1_IE_TEARDOWN_IND :: nat where "GTPV1_IE_TEARDOWN_IND \<equiv> 19"
abbreviation (input) GTPV1_IE_NSAPI :: nat where "GTPV1_IE_NSAPI \<equiv> 20"
abbreviation (input) GTPV1_IE_RANAP_CAUSE :: nat where "GTPV1_IE_RANAP_CAUSE \<equiv> 21"
abbreviation (input) GTPV1_IE_RAB_CONTEXT :: nat where "GTPV1_IE_RAB_CONTEXT \<equiv> 22"
abbreviation (input) GTPV1_IE_RADIO_PRIORITY_SMS :: nat where "GTPV1_IE_RADIO_PRIORITY_SMS \<equiv> 23"
abbreviation (input) GTPV1_IE_RADIO_PRIORITY :: nat where "GTPV1_IE_RADIO_PRIORITY \<equiv> 24"
abbreviation (input) GTPV1_IE_PACKET_FLOW_ID :: nat where "GTPV1_IE_PACKET_FLOW_ID \<equiv> 25"
abbreviation (input) GTPV1_IE_CHARGING_CHARACTERISTICS :: nat where "GTPV1_IE_CHARGING_CHARACTERISTICS \<equiv> 26"
abbreviation (input) GTPV1_IE_TRACE_REFERENCE :: nat where "GTPV1_IE_TRACE_REFERENCE \<equiv> 27"
abbreviation (input) GTPV1_IE_TRACE_TYPE :: nat where "GTPV1_IE_TRACE_TYPE \<equiv> 28"
abbreviation (input) GTPV1_IE_MS_NOT_REACHABLE_REASON :: nat where "GTPV1_IE_MS_NOT_REACHABLE_REASON \<equiv> 29"
abbreviation (input) GTPV1_IE_CHARGING_ID :: nat where "GTPV1_IE_CHARGING_ID \<equiv> 127"
abbreviation (input) GTPV1_IE_END_USER_ADDRESS :: nat where "GTPV1_IE_END_USER_ADDRESS \<equiv> 128"
abbreviation (input) GTPV1_IE_MM_CONTEXT :: nat where "GTPV1_IE_MM_CONTEXT \<equiv> 129"
abbreviation (input) GTPV1_IE_PDP_CONTEXT :: nat where "GTPV1_IE_PDP_CONTEXT \<equiv> 130"
abbreviation (input) GTPV1_IE_APN :: nat where "GTPV1_IE_APN \<equiv> 131"
abbreviation (input) GTPV1_IE_PROTOCOL_CONFIGURATION_OPTIONS :: nat where "GTPV1_IE_PROTOCOL_CONFIGURATION_OPTIONS \<equiv> 132"
abbreviation (input) GTPV1_IE_GSN_ADDRESS :: nat where "GTPV1_IE_GSN_ADDRESS \<equiv> 133"
abbreviation (input) GTPV1_IE_MSISDN :: nat where "GTPV1_IE_MSISDN \<equiv> 134"
abbreviation (input) GTPV1_IE_QOS_PROFILE :: nat where "GTPV1_IE_QOS_PROFILE \<equiv> 135"
abbreviation (input) GTPV1_IE_AUTHENTICATION_QUINTUPLET :: nat where "GTPV1_IE_AUTHENTICATION_QUINTUPLET \<equiv> 136"
abbreviation (input) GTPV1_IE_TRAFFIC_FLOW_TEMPLATE :: nat where "GTPV1_IE_TRAFFIC_FLOW_TEMPLATE \<equiv> 137"
abbreviation (input) GTPV1_IE_TARGET_IDENTIFICATION :: nat where "GTPV1_IE_TARGET_IDENTIFICATION \<equiv> 138"
abbreviation (input) GTPV1_IE_UTRAN_TRANSPARENT_CONTAINER :: nat where "GTPV1_IE_UTRAN_TRANSPARENT_CONTAINER \<equiv> 139"
abbreviation (input) GTPV1_IE_RAB_SETUP_INFORMATION :: nat where "GTPV1_IE_RAB_SETUP_INFORMATION \<equiv> 140"
abbreviation (input) GTPV1_IE_EXTENSION_HEADER_TYPE_LIST :: nat where "GTPV1_IE_EXTENSION_HEADER_TYPE_LIST \<equiv> 141"
abbreviation (input) GTPV1_IE_TRIGGER_ID :: nat where "GTPV1_IE_TRIGGER_ID \<equiv> 142"
abbreviation (input) GTPV1_IE_OMC_IDENTITY :: nat where "GTPV1_IE_OMC_IDENTITY \<equiv> 143"
abbreviation (input) GTPV1_IE_RAN_TRANSPARENT_CONTAINER :: nat where "GTPV1_IE_RAN_TRANSPARENT_CONTAINER \<equiv> 144"
abbreviation (input) GTPV1_IE_PDP_CONTEXT_PRIORITIZATION :: nat where "GTPV1_IE_PDP_CONTEXT_PRIORITIZATION \<equiv> 145"
abbreviation (input) GTPV1_IE_ADDITIONAL_RAB_SETUP_INFORMATION :: nat where "GTPV1_IE_ADDITIONAL_RAB_SETUP_INFORMATION \<equiv> 146"
abbreviation (input) GTPV1_IE_SGSN_NUMBER :: nat where "GTPV1_IE_SGSN_NUMBER \<equiv> 147"
abbreviation (input) GTPV1_IE_COMMON_FLAGS :: nat where "GTPV1_IE_COMMON_FLAGS \<equiv> 148"
abbreviation (input) GTPV1_IE_APN_RESTRICTION :: nat where "GTPV1_IE_APN_RESTRICTION \<equiv> 149"
abbreviation (input) GTPV1_IE_RADIO_PRIORITY_LCS :: nat where "GTPV1_IE_RADIO_PRIORITY_LCS \<equiv> 150"
abbreviation (input) GTPV1_IE_RAT_TYPE :: nat where "GTPV1_IE_RAT_TYPE \<equiv> 151"
abbreviation (input) GTPV1_IE_USER_LOCATION_INFORMATION :: nat where "GTPV1_IE_USER_LOCATION_INFORMATION \<equiv> 152"
abbreviation (input) GTPV1_IE_MS_TIME_ZONE :: nat where "GTPV1_IE_MS_TIME_ZONE \<equiv> 153"
abbreviation (input) GTPV1_IE_IMEISV :: nat where "GTPV1_IE_IMEISV \<equiv> 154"
abbreviation (input) GTPV1_IE_CAMEL_CHARGING_INFORMATION_CONTAINER :: nat where "GTPV1_IE_CAMEL_CHARGING_INFORMATION_CONTAINER \<equiv> 155"
abbreviation (input) GTPV1_IE_MBMS_UE_CONTEXT :: nat where "GTPV1_IE_MBMS_UE_CONTEXT \<equiv> 156"
abbreviation (input) GTPV1_IE_TMGI :: nat where "GTPV1_IE_TMGI \<equiv> 157"
abbreviation (input) GTPV1_IE_RIM_ROUTING_ADDRESS :: nat where "GTPV1_IE_RIM_ROUTING_ADDRESS \<equiv> 158"
abbreviation (input) GTPV1_IE_MBMS_PROTOCOL_CONFIGURATION_OPTIONS :: nat where "GTPV1_IE_MBMS_PROTOCOL_CONFIGURATION_OPTIONS \<equiv> 159"
abbreviation (input) GTPV1_IE_MBMS_SERVICE_AREA :: nat where "GTPV1_IE_MBMS_SERVICE_AREA \<equiv> 160"
abbreviation (input) GTPV1_IE_SOURCE_RNC_PDCP_CONTEXT_INFO :: nat where "GTPV1_IE_SOURCE_RNC_PDCP_CONTEXT_INFO \<equiv> 161"
abbreviation (input) GTPV1_IE_ADDITIONAL_TRACE_INFO :: nat where "GTPV1_IE_ADDITIONAL_TRACE_INFO \<equiv> 162"
abbreviation (input) GTPV1_IE_HOP_COUNTER :: nat where "GTPV1_IE_HOP_COUNTER \<equiv> 163"
abbreviation (input) GTPV1_IE_SELECTED_PLMN_ID :: nat where "GTPV1_IE_SELECTED_PLMN_ID \<equiv> 164"
abbreviation (input) GTPV1_IE_MBMS_SESSION_IDENTIFIER :: nat where "GTPV1_IE_MBMS_SESSION_IDENTIFIER \<equiv> 165"
abbreviation (input) GTPV1_IE_MBMS_2G_3G_INDICATOR :: nat where "GTPV1_IE_MBMS_2G_3G_INDICATOR \<equiv> 166"
abbreviation (input) GTPV1_IE_ENHANCED_NSAPI :: nat where "GTPV1_IE_ENHANCED_NSAPI \<equiv> 167"
abbreviation (input) GTPV1_IE_MBMS_SESSION_DURATION :: nat where "GTPV1_IE_MBMS_SESSION_DURATION \<equiv> 168"
abbreviation (input) GTPV1_IE_ADDITIONAL_MBMS_TRACE_INFO :: nat where "GTPV1_IE_ADDITIONAL_MBMS_TRACE_INFO \<equiv> 169"
abbreviation (input) GTPV1_IE_MBMS_SESSION_REPETITION_NUMBER :: nat where "GTPV1_IE_MBMS_SESSION_REPETITION_NUMBER \<equiv> 170"
abbreviation (input) GTPV1_IE_MBMS_TIME_TO_DATA_TRANSFER :: nat where "GTPV1_IE_MBMS_TIME_TO_DATA_TRANSFER \<equiv> 171"
abbreviation (input) GTPV1_IE_BSS_CONTAINER :: nat where "GTPV1_IE_BSS_CONTAINER \<equiv> 173"
abbreviation (input) GTPV1_IE_CELL_IDENTIFICATION :: nat where "GTPV1_IE_CELL_IDENTIFICATION \<equiv> 174"
abbreviation (input) GTPV1_IE_PDU_NUMBERS :: nat where "GTPV1_IE_PDU_NUMBERS \<equiv> 175"
abbreviation (input) GTPV1_IE_BSSGP_CAUSE :: nat where "GTPV1_IE_BSSGP_CAUSE \<equiv> 176"
abbreviation (input) GTPV1_IE_REQUIRED_MBMS_BEARER_CAPABILITIES :: nat where "GTPV1_IE_REQUIRED_MBMS_BEARER_CAPABILITIES \<equiv> 177"
abbreviation (input) GTPV1_IE_RIM_ROUTING_ADDRESS_DISCRIMINATOR :: nat where "GTPV1_IE_RIM_ROUTING_ADDRESS_DISCRIMINATOR \<equiv> 178"
abbreviation (input) GTPV1_IE_LIST_OF_SET_UP_PFCS :: nat where "GTPV1_IE_LIST_OF_SET_UP_PFCS \<equiv> 179"
abbreviation (input) GTPV1_IE_PS_HANDOVER_XID_PARAMETERS :: nat where "GTPV1_IE_PS_HANDOVER_XID_PARAMETERS \<equiv> 180"
abbreviation (input) GTPV1_IE_MS_INFO_CHANGE_REPORTING_ACTION :: nat where "GTPV1_IE_MS_INFO_CHANGE_REPORTING_ACTION \<equiv> 181"
abbreviation (input) GTPV1_IE_DIRECT_TUNNEL_FLAGS :: nat where "GTPV1_IE_DIRECT_TUNNEL_FLAGS \<equiv> 182"
abbreviation (input) GTPV1_IE_CORRELATION_ID :: nat where "GTPV1_IE_CORRELATION_ID \<equiv> 183"
abbreviation (input) GTPV1_IE_BEARER_CONTROL_MODE :: nat where "GTPV1_IE_BEARER_CONTROL_MODE \<equiv> 184"
abbreviation (input) GTPV1_IE_MBMS_FLOW_IDENTIFIER :: nat where "GTPV1_IE_MBMS_FLOW_IDENTIFIER \<equiv> 185"
abbreviation (input) GTPV1_IE_MBMS_IP_MULTICAST_DISTRIBUTION :: nat where "GTPV1_IE_MBMS_IP_MULTICAST_DISTRIBUTION \<equiv> 186"
abbreviation (input) GTPV1_IE_MBMS_DISTRIBUTION_ACKNOWLEDGEMENT :: nat where "GTPV1_IE_MBMS_DISTRIBUTION_ACKNOWLEDGEMENT \<equiv> 187"
abbreviation (input) GTPV1_IE_RELIABLE_INTER_RAT_HANDOVER_INFO :: nat where "GTPV1_IE_RELIABLE_INTER_RAT_HANDOVER_INFO \<equiv> 188"
abbreviation (input) GTPV1_IE_RFSP_INDEX :: nat where "GTPV1_IE_RFSP_INDEX \<equiv> 189"
abbreviation (input) GTPV1_IE_FQDN :: nat where "GTPV1_IE_FQDN \<equiv> 190"
abbreviation (input) GTPV1_IE_EVOLVED_ALLOCATION_RETENTION_PRIORITY_I :: nat where "GTPV1_IE_EVOLVED_ALLOCATION_RETENTION_PRIORITY_I \<equiv> 191"
abbreviation (input) GTPV1_IE_EVOLVED_ALLOCATION_RETENTION_PRIORITY_II :: nat where "GTPV1_IE_EVOLVED_ALLOCATION_RETENTION_PRIORITY_II \<equiv> 192"
abbreviation (input) GTPV1_IE_EXTENDED_COMMON_FLAGS :: nat where "GTPV1_IE_EXTENDED_COMMON_FLAGS \<equiv> 193"
abbreviation (input) GTPV1_IE_UCI :: nat where "GTPV1_IE_UCI \<equiv> 194"
abbreviation (input) GTPV1_IE_CSG_INFORMATION_REPORTING_ACTION :: nat where "GTPV1_IE_CSG_INFORMATION_REPORTING_ACTION \<equiv> 195"
abbreviation (input) GTPV1_IE_CSG_ID :: nat where "GTPV1_IE_CSG_ID \<equiv> 196"
abbreviation (input) GTPV1_IE_CMI :: nat where "GTPV1_IE_CMI \<equiv> 197"
abbreviation (input) GTPV1_IE_AMBR :: nat where "GTPV1_IE_AMBR \<equiv> 198"
abbreviation (input) GTPV1_IE_UE_NETWORK_CAPABILITY :: nat where "GTPV1_IE_UE_NETWORK_CAPABILITY \<equiv> 199"
abbreviation (input) GTPV1_IE_UE_AMBR :: nat where "GTPV1_IE_UE_AMBR \<equiv> 200"
abbreviation (input) GTPV1_IE_APN_AMBR_WITH_NSAPI :: nat where "GTPV1_IE_APN_AMBR_WITH_NSAPI \<equiv> 201"
abbreviation (input) GTPV1_IE_GGSN_BACK_OFF_TIME :: nat where "GTPV1_IE_GGSN_BACK_OFF_TIME \<equiv> 202"
abbreviation (input) GTPV1_IE_SIGNALLING_PRIORITY_INDICATION :: nat where "GTPV1_IE_SIGNALLING_PRIORITY_INDICATION \<equiv> 203"
abbreviation (input) GTPV1_IE_SIGNALLING_PRIORITY_INDICATION_WITH_NSAPI :: nat where "GTPV1_IE_SIGNALLING_PRIORITY_INDICATION_WITH_NSAPI \<equiv> 204"
abbreviation (input) GTPV1_IE_HIGHER_BITRATES_THAN_16_MBPS_FLAG :: nat where "GTPV1_IE_HIGHER_BITRATES_THAN_16_MBPS_FLAG \<equiv> 205"
abbreviation (input) GTPV1_IE_MAX_MBR_APN_AMBR :: nat where "GTPV1_IE_MAX_MBR_APN_AMBR \<equiv> 206"
abbreviation (input) GTPV1_IE_ADDITIONAL_MM_CONTEXT_FOR_SRVCC :: nat where "GTPV1_IE_ADDITIONAL_MM_CONTEXT_FOR_SRVCC \<equiv> 207"
abbreviation (input) GTPV1_IE_ADDITIONAL_FLAGS_FOR_SRVCC :: nat where "GTPV1_IE_ADDITIONAL_FLAGS_FOR_SRVCC \<equiv> 208"
abbreviation (input) GTPV1_IE_STN_SR :: nat where "GTPV1_IE_STN_SR \<equiv> 209"
abbreviation (input) GTPV1_IE_C_MSISDN :: nat where "GTPV1_IE_C_MSISDN \<equiv> 210"
abbreviation (input) GTPV1_IE_EXTENDED_RANAP_CAUSE :: nat where "GTPV1_IE_EXTENDED_RANAP_CAUSE \<equiv> 211"
abbreviation (input) GTPV1_IE_CHARGING_GATEWAY_ADDRESS :: nat where "GTPV1_IE_CHARGING_GATEWAY_ADDRESS \<equiv> 251"
abbreviation (input) GTPV1_IE_PRIVATE_EXTENSION :: nat where "GTPV1_IE_PRIVATE_EXTENSION \<equiv> 255"

abbreviation (input) GTPV1_MT_ECHO_REQUEST :: nat where "GTPV1_MT_ECHO_REQUEST \<equiv> 1"
abbreviation (input) GTPV1_MT_ECHO_RESPONSE :: nat where "GTPV1_MT_ECHO_RESPONSE \<equiv> 2"
abbreviation (input) GTPV1_MT_VERSION_NOT_SUPPORTED :: nat where "GTPV1_MT_VERSION_NOT_SUPPORTED \<equiv> 3"
abbreviation (input) GTPV1_MT_NODE_ALIVE_REQUEST :: nat where "GTPV1_MT_NODE_ALIVE_REQUEST \<equiv> 4"
abbreviation (input) GTPV1_MT_NODE_ALIVE_RESPONSE :: nat where "GTPV1_MT_NODE_ALIVE_RESPONSE \<equiv> 5"
abbreviation (input) GTPV1_MT_REDIRECTION_REQUEST :: nat where "GTPV1_MT_REDIRECTION_REQUEST \<equiv> 6"
abbreviation (input) GTPV1_MT_REDIRECTION_RESPONSE :: nat where "GTPV1_MT_REDIRECTION_RESPONSE \<equiv> 7"
abbreviation (input) GTPV1_MT_CREATE_PDP_CONTEXT_REQUEST :: nat where "GTPV1_MT_CREATE_PDP_CONTEXT_REQUEST \<equiv> 16"
abbreviation (input) GTPV1_MT_CREATE_PDP_CONTEXT_RESPONSE :: nat where "GTPV1_MT_CREATE_PDP_CONTEXT_RESPONSE \<equiv> 17"
abbreviation (input) GTPV1_MT_UPDATE_PDP_CONTEXT_REQUEST :: nat where "GTPV1_MT_UPDATE_PDP_CONTEXT_REQUEST \<equiv> 18"
abbreviation (input) GTPV1_MT_UPDATE_PDP_CONTEXT_RESPONSE :: nat where "GTPV1_MT_UPDATE_PDP_CONTEXT_RESPONSE \<equiv> 19"
abbreviation (input) GTPV1_MT_DELETE_PDP_CONTEXT_REQUEST :: nat where "GTPV1_MT_DELETE_PDP_CONTEXT_REQUEST \<equiv> 20"
abbreviation (input) GTPV1_MT_DELETE_PDP_CONTEXT_RESPONSE :: nat where "GTPV1_MT_DELETE_PDP_CONTEXT_RESPONSE \<equiv> 21"
abbreviation (input) GTPV1_MT_INITIATE_PDP_CONTEXT_ACTIVATION_REQUEST :: nat where "GTPV1_MT_INITIATE_PDP_CONTEXT_ACTIVATION_REQUEST \<equiv> 22"
abbreviation (input) GTPV1_MT_INITIATE_PDP_CONTEXT_ACTIVATION_RESPONSE :: nat where "GTPV1_MT_INITIATE_PDP_CONTEXT_ACTIVATION_RESPONSE \<equiv> 23"
abbreviation (input) GTPV1_MT_ERROR_INDICATION :: nat where "GTPV1_MT_ERROR_INDICATION \<equiv> 26"
abbreviation (input) GTPV1_MT_PDU_NOTIFICATION_REQUEST :: nat where "GTPV1_MT_PDU_NOTIFICATION_REQUEST \<equiv> 27"
abbreviation (input) GTPV1_MT_PDU_NOTIFICATION_RESPONSE :: nat where "GTPV1_MT_PDU_NOTIFICATION_RESPONSE \<equiv> 28"
abbreviation (input) GTPV1_MT_PDU_NOTIFICATION_REJECT_REQUEST :: nat where "GTPV1_MT_PDU_NOTIFICATION_REJECT_REQUEST \<equiv> 29"
abbreviation (input) GTPV1_MT_PDU_NOTIFICATION_REJECT_RESPONSE :: nat where "GTPV1_MT_PDU_NOTIFICATION_REJECT_RESPONSE \<equiv> 30"
abbreviation (input) GTPV1_MT_SUPPORTED_EXTENSION_HEADERS_NOTIFICATION :: nat where "GTPV1_MT_SUPPORTED_EXTENSION_HEADERS_NOTIFICATION \<equiv> 31"
abbreviation (input) GTPV1_MT_SEND_ROUTEING_INFORMATION_FOR_GPRS_REQUEST :: nat where "GTPV1_MT_SEND_ROUTEING_INFORMATION_FOR_GPRS_REQUEST \<equiv> 32"
abbreviation (input) GTPV1_MT_SEND_ROUTEING_INFORMATION_FOR_GPRS_RESPONSE :: nat where "GTPV1_MT_SEND_ROUTEING_INFORMATION_FOR_GPRS_RESPONSE \<equiv> 33"
abbreviation (input) GTPV1_MT_FAILURE_REPORT_REQUEST :: nat where "GTPV1_MT_FAILURE_REPORT_REQUEST \<equiv> 34"
abbreviation (input) GTPV1_MT_FAILURE_REPORT_RESPONSE :: nat where "GTPV1_MT_FAILURE_REPORT_RESPONSE \<equiv> 35"
abbreviation (input) GTPV1_MT_NOTE_MS_GPRS_PRESENT_REQUEST :: nat where "GTPV1_MT_NOTE_MS_GPRS_PRESENT_REQUEST \<equiv> 36"
abbreviation (input) GTPV1_MT_NOTE_MS_GPRS_PRESENT_RESPONSE :: nat where "GTPV1_MT_NOTE_MS_GPRS_PRESENT_RESPONSE \<equiv> 37"
abbreviation (input) GTPV1_MT_IDENTIFICATION_REQUEST :: nat where "GTPV1_MT_IDENTIFICATION_REQUEST \<equiv> 48"
abbreviation (input) GTPV1_MT_IDENTIFICATION_RESPONSE :: nat where "GTPV1_MT_IDENTIFICATION_RESPONSE \<equiv> 49"
abbreviation (input) GTPV1_MT_SGSN_CONTEXT_REQUEST :: nat where "GTPV1_MT_SGSN_CONTEXT_REQUEST \<equiv> 50"
abbreviation (input) GTPV1_MT_SGSN_CONTEXT_RESPONSE :: nat where "GTPV1_MT_SGSN_CONTEXT_RESPONSE \<equiv> 51"
abbreviation (input) GTPV1_MT_SGSN_CONTEXT_ACKNOWLEDGE :: nat where "GTPV1_MT_SGSN_CONTEXT_ACKNOWLEDGE \<equiv> 52"
abbreviation (input) GTPV1_MT_FORWARD_RELOCATION_REQUEST :: nat where "GTPV1_MT_FORWARD_RELOCATION_REQUEST \<equiv> 53"
abbreviation (input) GTPV1_MT_FORWARD_RELOCATION_RESPONSE :: nat where "GTPV1_MT_FORWARD_RELOCATION_RESPONSE \<equiv> 54"
abbreviation (input) GTPV1_MT_FORWARD_RELOCATION_COMPLETE :: nat where "GTPV1_MT_FORWARD_RELOCATION_COMPLETE \<equiv> 55"
abbreviation (input) GTPV1_MT_RELOCATION_CANCEL_REQUEST :: nat where "GTPV1_MT_RELOCATION_CANCEL_REQUEST \<equiv> 56"
abbreviation (input) GTPV1_MT_RELOCATION_CANCEL_RESPONSE :: nat where "GTPV1_MT_RELOCATION_CANCEL_RESPONSE \<equiv> 57"
abbreviation (input) GTPV1_MT_FORWARD_SRNS_CONTEXT :: nat where "GTPV1_MT_FORWARD_SRNS_CONTEXT \<equiv> 58"
abbreviation (input) GTPV1_MT_FORWARD_RELOCATION_COMPLETE_ACKNOWLEDGE :: nat where "GTPV1_MT_FORWARD_RELOCATION_COMPLETE_ACKNOWLEDGE \<equiv> 59"
abbreviation (input) GTPV1_MT_FORWARD_SRNS_CONTEXT_ACKNOWLEDGE :: nat where "GTPV1_MT_FORWARD_SRNS_CONTEXT_ACKNOWLEDGE \<equiv> 60"
abbreviation (input) GTPV1_MT_RAN_INFORMATION_RELAY :: nat where "GTPV1_MT_RAN_INFORMATION_RELAY \<equiv> 70"
abbreviation (input) GTPV1_MT_MBMS_NOTIFICATION_REQUEST :: nat where "GTPV1_MT_MBMS_NOTIFICATION_REQUEST \<equiv> 96"
abbreviation (input) GTPV1_MT_MBMS_NOTIFICATION_RESPONSE :: nat where "GTPV1_MT_MBMS_NOTIFICATION_RESPONSE \<equiv> 97"
abbreviation (input) GTPV1_MT_MBMS_NOTIFICATION_REJECT_REQUEST :: nat where "GTPV1_MT_MBMS_NOTIFICATION_REJECT_REQUEST \<equiv> 98"
abbreviation (input) GTPV1_MT_MBMS_NOTIFICATION_REJECT_RESPONSE :: nat where "GTPV1_MT_MBMS_NOTIFICATION_REJECT_RESPONSE \<equiv> 99"
abbreviation (input) GTPV1_MT_CREATE_MBMS_CONTEXT_REQUEST :: nat where "GTPV1_MT_CREATE_MBMS_CONTEXT_REQUEST \<equiv> 100"
abbreviation (input) GTPV1_MT_CREATE_MBMS_CONTEXT_RESPONSE :: nat where "GTPV1_MT_CREATE_MBMS_CONTEXT_RESPONSE \<equiv> 101"
abbreviation (input) GTPV1_MT_UPDATE_MBMS_CONTEXT_REQUEST :: nat where "GTPV1_MT_UPDATE_MBMS_CONTEXT_REQUEST \<equiv> 102"
abbreviation (input) GTPV1_MT_UPDATE_MBMS_CONTEXT_RESPONSE :: nat where "GTPV1_MT_UPDATE_MBMS_CONTEXT_RESPONSE \<equiv> 103"
abbreviation (input) GTPV1_MT_DELETE_MBMS_CONTEXT_REQUEST :: nat where "GTPV1_MT_DELETE_MBMS_CONTEXT_REQUEST \<equiv> 104"
abbreviation (input) GTPV1_MT_DELETE_MBMS_CONTEXT_RESPONSE :: nat where "GTPV1_MT_DELETE_MBMS_CONTEXT_RESPONSE \<equiv> 105"
abbreviation (input) GTPV1_MT_MBMS_REGISTRATION_REQUEST :: nat where "GTPV1_MT_MBMS_REGISTRATION_REQUEST \<equiv> 112"
abbreviation (input) GTPV1_MT_MBMS_REGISTRATION_RESPONSE :: nat where "GTPV1_MT_MBMS_REGISTRATION_RESPONSE \<equiv> 113"
abbreviation (input) GTPV1_MT_MBMS_DE_REGISTRATION_REQUEST :: nat where "GTPV1_MT_MBMS_DE_REGISTRATION_REQUEST \<equiv> 114"
abbreviation (input) GTPV1_MT_MBMS_DE_REGISTRATION_RESPONSE :: nat where "GTPV1_MT_MBMS_DE_REGISTRATION_RESPONSE \<equiv> 115"
abbreviation (input) GTPV1_MT_MBMS_SESSION_START_REQUEST :: nat where "GTPV1_MT_MBMS_SESSION_START_REQUEST \<equiv> 116"
abbreviation (input) GTPV1_MT_MBMS_SESSION_START_RESPONSE :: nat where "GTPV1_MT_MBMS_SESSION_START_RESPONSE \<equiv> 117"
abbreviation (input) GTPV1_MT_MBMS_SESSION_STOP_REQUEST :: nat where "GTPV1_MT_MBMS_SESSION_STOP_REQUEST \<equiv> 118"
abbreviation (input) GTPV1_MT_MBMS_SESSION_STOP_RESPONSE :: nat where "GTPV1_MT_MBMS_SESSION_STOP_RESPONSE \<equiv> 119"
abbreviation (input) GTPV1_MT_MBMS_SESSION_UPDATE_REQUEST :: nat where "GTPV1_MT_MBMS_SESSION_UPDATE_REQUEST \<equiv> 120"
abbreviation (input) GTPV1_MT_MBMS_SESSION_UPDATE_RESPONSE :: nat where "GTPV1_MT_MBMS_SESSION_UPDATE_RESPONSE \<equiv> 121"
abbreviation (input) GTPV1_MT_MS_INFO_CHANGE_NOTIFICATION_REQUEST :: nat where "GTPV1_MT_MS_INFO_CHANGE_NOTIFICATION_REQUEST \<equiv> 128"
abbreviation (input) GTPV1_MT_MS_INFO_CHANGE_NOTIFICATION_RESPONSE :: nat where "GTPV1_MT_MS_INFO_CHANGE_NOTIFICATION_RESPONSE \<equiv> 129"
abbreviation (input) GTPV1_MT_DATA_RECORD_TRANSFER_REQUEST :: nat where "GTPV1_MT_DATA_RECORD_TRANSFER_REQUEST \<equiv> 240"
abbreviation (input) GTPV1_MT_DATA_RECORD_TRANSFER_RESPONSE :: nat where "GTPV1_MT_DATA_RECORD_TRANSFER_RESPONSE \<equiv> 241"
abbreviation (input) GTPV1_MT_END_MARKER :: nat where "GTPV1_MT_END_MARKER \<equiv> 254"
abbreviation (input) GTPV1_MT_G_PDU :: nat where "GTPV1_MT_G_PDU \<equiv> 255"

section \<open>Information elements\<close>

record gtpv1_information_element =
  ie_id :: nat
  grouped :: nat
  header_length :: nat
  body_length :: nat
  ie_name :: string

definition zero_ie :: gtpv1_information_element where
  "zero_ie = \<lparr>ie_id = 0, grouped = 0, header_length = 0, body_length = 0, ie_name = []\<rparr>"

text \<open>The assignments to one entry: its index, and what is stored in it as number, header length, body length and name.\<close>

type_synonym ie_row = "nat \<times> nat \<times> nat \<times> nat \<times> string"

definition set_ie :: "ie_row \<Rightarrow> gtpv1_information_element list \<Rightarrow> gtpv1_information_element list" where
  "set_ie r t = (case r of (i, k, h, b, n) \<Rightarrow>
     t[i := \<lparr>ie_id = k, grouped = 0, header_length = h, body_length = b, ie_name = n\<rparr>])"

definition ie_rows_1 :: "ie_row list" where
  "ie_rows_1 = [
     (GTPV1_IE_CAUSE, GTPV1_IE_CAUSE, 1, 1, ''Cause''),
     (GTPV1_IE_IMSI, GTPV1_IE_IMSI, 1, 8, ''International Mobile Subscriber Identity (IMSI)''),
     (GTPV1_IE_RAI, GTPV1_IE_RAI, 1, 6, ''Routeing Area Identity (RAI)''),
     (GTPV1_IE_TLLI, GTPV1_IE_TLLI, 1, 4, ''Temporary Logical Link Identity (TLLI)''),
     (GTPV1_IE_P_TMSI, GTPV1_IE_P_TMSI, 1, 4, ''Packet TMSI (P-TMSI)''),
     (GTPV1_IE_REORDERING_REQUIRED, GTPV1_IE_REORDERING_REQUIRED, 1, 1, ''Reordering Required''),
     (GTPV1_IE_AUTHENTICATION_TRIPLET, GTPV1_IE_AUTHENTICATION_TRIPLET, 1, 28, ''Authentication Triplet''),
     (GTPV1_IE_MAP_CAUSE, GTPV1_IE_MAP_CAUSE, 1, 1, ''MAP Cause''),
     (GTPV1_IE_P_TMSI_SIGNATURE, GTPV1_IE_P_TMSI_SIGNATURE, 1, 3, ''P-TMSI Signature''),
     (GTPV1_IE_MS_VALIDATED, GTPV1_IE_MS_VALIDATED, 1, 1, ''MS Validated''),
     (GTPV1_IE_RECOVERY, GTPV1_IE_RECOVERY, 1, 1, ''Recovery''),
     (GTPV1_IE_SELECTION_MODE, GTPV1_IE_SELECTION_MODE, 1, 1, ''Selection Mode''),
     (GTPV1_IE_TEI_DATA_I, GTPV1_IE_TEI_DATA_I, 1, 4, ''Tunnel Endpoint Identifier Data I''),
     (GTPV1_IE_TEI_CONTROL_PLANE, GTPV1_IE_TEI_CONTROL_PLANE, 1, 4, ''Tunnel Endpoint Identifier Control Plane''),
     (GTPV1_IE_TEI_DATA_II, GTPV1_IE_TEI_DATA_II, 1, 5, ''Tunnel Endpoint Identifier Data II''),
     (GTPV1_IE_TEARDOWN_IND, GTPV1_IE_TEARDOWN_IND, 1, 1, ''Teardown Ind''),
     (GTPV1_IE_NSAPI, GTPV1_IE_NSAPI, 1, 1, ''NSAPI''),
     (GTPV1_IE_RANAP_CAUSE, GTPV1_IE_RANAP_CAUSE, 1, 1, ''RANAP Cause''),
     (GTPV1_IE_RAB_CONTEXT, GTPV1_IE_RAB_CONTEXT, 1, 9, ''RAB Context''),
     (GTPV1_IE_RADIO_PRIORITY_SMS, GTPV1_IE_RADIO_PRIORITY_SMS, 1, 1, ''Radio Priority SMS''),
     (GTPV1_IE_RADIO_PRIORITY, GTPV1_IE_RADIO_PRIORITY, 1, 1, ''Radio Priority''),
     (GTPV1_IE_PACKET_FLOW_ID, GTPV1_IE_PACKET_FLOW_ID, 1, 2, ''Packet Flow Id''),
     (GTPV1_IE_CHARGING_CHARACTERISTICS, GTPV1_IE_CHARGING_CHARACTERISTICS, 1, 2, ''Charging Characteristics''),
     (GTPV1_IE_TRACE_REFERENCE, GTPV1_IE_TRACE_REFERENCE, 1, 2, ''Trace Reference''),
     (GTPV1_IE_TRACE_TYPE, GTPV1_IE_TRACE_TYPE, 1, 2, ''Trace Type'')]"

definition ie_rows_2 :: "ie_row list" where
  "ie_rows_2 = [
     (GTPV1_IE_MS_NOT_REACHABLE_REASON, GTPV1_IE_MS_NOT_REACHABLE_REASON, 1, 1, ''MS Not Reachable Reason''),
     (GTPV1_IE_CHARGING_ID, GTPV1_IE_CHARGING_ID, 1, 4, ''Charging ID''),
     (GTPV1_IE_END_USER_ADDRESS, GTPV1_IE_END_USER_ADDRESS, 3, 0, ''End User Address''),
     (GTPV1_IE_MM_CONTEXT, GTPV1_IE_MM_CONTEXT, 3, 0, ''MM Context''),
     (GTPV1_IE_PDP_CONTEXT, GTPV1_IE_PDP_CONTEXT, 3, 0, ''PDP Context''),
     (GTPV1_IE_APN, GTPV1_IE_APN, 3, 0, ''Access Point Name''),
     (GTPV1_IE_PROTOCOL_CONFIGURATION_OPTIONS, GTPV1_IE_PROTOCOL_CONFIGURATION_OPTIONS, 3, 0, ''Protocol Configuration Options''),
     (GTPV1_IE_GSN_ADDRESS, GTPV1_IE_GSN_ADDRESS, 3, 0, ''GSN Address''),
     (GTPV1_IE_MSISDN, GTPV1_IE_MSISDN, 3, 0, ''MS International PSTN/ISDN Number (MSISDN)''),
     (GTPV1_IE_QOS_PROFILE, GTPV1_IE_QOS_PROFILE, 3, 0, ''Quality of Service Profile''),
     (GTPV1_IE_AUTHENTICATION_QUINTUPLET, GTPV1_IE_AUTHENTICATION_QUINTUPLET, 3, 0, ''Authentication Quintuplet''),
     (GTPV1_IE_TRAFFIC_FLOW_TEMPLATE, GTPV1_IE_TRAFFIC_FLOW_TEMPLATE, 3, 0, ''Traffic Flow Template''),
     (GTPV1_IE_TARGET_IDENTIFICATION, GTPV1_IE_TARGET_IDENTIFICATION, 3, 0, ''Target Identification''),
     (GTPV1_IE_UTRAN_TRANSPARENT_CONTAINER, GTPV1_IE_UTRAN_TRANSPARENT_CONTAINER, 3, 0, ''UTRAN Transparent Container''),
     (GTPV1_IE_RAB_SETUP_INFORMATION, GTPV1_IE_RAB_SETUP_INFORMATION, 3, 0, ''RAB Setup Information''),
     (GTPV1_IE_EXTENSION_HEADER_TYPE_LIST, GTPV1_IE_EXTENSION_HEADER_TYPE_LIST, 3, 0, ''Extension Header Type List''),
     (GTPV1_IE_TRIGGER_ID, GTPV1_IE_TRIGGER_ID, 3, 0, ''Trigger Id''),
     (GTPV1_IE_OMC_IDENTITY, GTPV1_IE_OMC_IDENTITY, 3, 0, ''OMC Identity''),
     (GTPV1_IE_RAN_TRANSPARENT_CONTAINER, GTPV1_IE_RAN_TRANSPARENT_CONTAINER, 3, 0, ''RAN Transparent Container''),
     (GTPV1_IE_PDP_CONTEXT_PRIORITIZATION, GTPV1_IE_PDP_CONTEXT_PRIORITIZATION, 3, 0, ''PDP Context Prioritization''),
     (GTPV1_IE_ADDITIONAL_RAB_SETUP_INFORMATION, GTPV1_IE_ADDITIONAL_RAB_SETUP_INFORMATION, 3, 0, ''Additional RAB Setup Information''),
     (GTPV1_IE_SGSN_NUMBER, GTPV1_IE_SGSN_NUMBER, 3, 0, ''SGSN Number''),
     (GTPV1_IE_COMMON_FLAGS, GTPV1_IE_COMMON_FLAGS, 3, 0, ''Common Flags''),
     (GTPV1_IE_APN_RESTRICTION, GTPV1_IE_APN_RESTRICTION, 3, 0, ''APN Restriction''),
     (GTPV1_IE_RADIO_PRIORITY_LCS, GTPV1_IE_RADIO_PRIORITY_LCS, 3, 0, ''Radio Priority LCS'')]"

definition ie_rows_3 :: "ie_row list" where
  "ie_rows_3 = [
     (GTPV1_IE_RAT_TYPE, GTPV1_IE_RAT_TYPE, 3, 0, ''RAT Type''),
     (GTPV1_IE_USER_LOCATION_INFORMATION, GTPV1_IE_USER_LOCATION_INFORMATION, 3, 0, ''User Location Information''),
     (GTPV1_IE_MS_TIME_ZONE, GTPV1_IE_MS_TIME_ZONE, 3, 0, ''MS Time Zone''),
     (GTPV1_IE_IMEISV, GTPV1_IE_IMEISV, 3, 0, ''IMEI(SV)''),
     (GTPV1_IE_CAMEL_CHARGING_INFORMATION_CONTAINER, GTPV1_IE_CAMEL_CHARGING_INFORMATION_CONTAINER, 3, 0, ''CAMEL Charging Information Container''),
     (GTPV1_IE_MBMS_UE_CONTEXT, GTPV1_IE_MBMS_UE_CONTEXT, 3, 0, ''MBMS UE Context''),
     (GTPV1_IE_TMGI, GTPV1_IE_TMGI, 3, 0, ''Temporary Mobile Group Identity (TMGI)''),
     (GTPV1_IE_RIM_ROUTING_ADDRESS, GTPV1_IE_RIM_ROUTING_ADDRESS, 3, 0, ''RIM Routing Address''),
     (GTPV1_IE_MBMS_PROTOCOL_CONFIGURATION_OPTIONS, GTPV1_IE_MBMS_PROTOCOL_CONFIGURATION_OPTIONS, 3, 0, ''MBMS Protocol Configuration Options''),
     (GTPV1_IE_MBMS_SERVICE_AREA, GTPV1_IE_MBMS_SERVICE_AREA, 3, 0, ''MBMS Service Area''),
     (GTPV1_IE_SOURCE_RNC_PDCP_CONTEXT_INFO, GTPV1_IE_SOURCE_RNC_PDCP_CONTEXT_INFO, 3, 0, ''Source RNC PDCP context info''),
     (GTPV1_IE_ADDITIONAL_TRACE_INFO, GTPV1_IE_ADDITIONAL_TRACE_INFO, 3, 0, ''Additional Trace Info''),
     (GTPV1_IE_HOP_COUNTER, GTPV1_IE_HOP_COUNTER, 3, 0, ''Hop Counter''),
     (GTPV1_IE_SELECTED_PLMN_ID, GTPV1_IE_SELECTED_PLMN_ID, 3, 0, ''Selected PLMN ID''),
     (GTPV1_IE_MBMS_SESSION_IDENTIFIER, GTPV1_IE_MBMS_SESSION_IDENTIFIER, 3, 0, ''MBMS Session Identifier''),
     (GTPV1_IE_MBMS_2G_3G_INDICATOR, GTPV1_IE_MBMS_2G_3G_INDICATOR, 3, 0, ''MBMS 2G/3G Indicator''),
     (GTPV1_IE_ENHANCED_NSAPI, GTPV1_IE_ENHANCED_NSAPI, 3, 0, ''Enhanced NSAPI''),
     (GTPV1_IE_MBMS_SESSION_DURATION, GTPV1_IE_MBMS_SESSION_DURATION, 3, 0, ''MBMS Session Duration''),
     (GTPV1_IE_ADDITIONAL_MBMS_TRACE_INFO, GTPV1_IE_ADDITIONAL_MBMS_TRACE_INFO, 3, 0, ''Additional MBMS Trace Info''),
     (GTPV1_IE_MBMS_SESSION_REPETITION_NUMBER, GTPV1_IE_MBMS_SESSION_REPETITION_NUMBER, 3, 0, ''MBMS Session Repetition Number''),
     (GTPV1_IE_MBMS_TIME_TO_DATA_TRANSFER, GTPV1_IE_MBMS_TIME_TO_DATA_TRANSFER, 3, 0, ''MBMS Time To Data Transfer''),
     (GTPV1_IE_BSS_CONTAINER, GTPV1_IE_BSS_CONTAINER, 3, 0, ''BSS Container''),
     (GTPV1_IE_CELL_IDENTIFICATION, GTPV1_IE_CELL_IDENTIFICATION, 3, 0, ''Cell Identification''),
     (GTPV1_IE_PDU_NUMBERS, GTPV1_IE_PDU_NUMBERS, 3, 0, ''PDU Numbers''),
     (GTPV1_IE_BSSGP_CAUSE, GTPV1_IE_BSSGP_CAUSE, 3, 0, ''BSSGP Cause'')]"

definition ie_rows_4 :: "ie_row list" where
  "ie_rows_4 = [
     (GTPV1_IE_REQUIRED_MBMS_BEARER_CAPABILITIES, GTPV1_IE_REQUIRED_MBMS_BEARER_CAPABILITIES, 3, 0, ''Required MBMS bearer capabilities''),
     (GTPV1_IE_RIM_ROUTING_ADDRESS_DISCRIMINATOR, GTPV1_IE_RIM_ROUTING_ADDRESS_DISCRIMINATOR, 3, 0, ''RIM Routing Address Discriminator''),
     (GTPV1_IE_LIST_OF_SET_UP_PFCS, GTPV1_IE_LIST_OF_SET_UP_PFCS, 3, 0, ''List of set-up PFCs''),
     (GTPV1_IE_PS_HANDOVER_XID_PARAMETERS, GTPV1_IE_PS_HANDOVER_XID_PARAMETERS, 3, 0, ''PS Handover XID Parameters''),
     (GTPV1_IE_MS_INFO_CHANGE_REPORTING_ACTION, GTPV1_IE_MS_INFO_CHANGE_REPORTING_ACTION, 3, 0, ''MS Info Change Reporting Action''),
     (GTPV1_IE_DIRECT_TUNNEL_FLAGS, GTPV1_IE_DIRECT_TUNNEL_FLAGS, 3, 0, ''Direct Tunnel Flags''),
     (GTPV1_IE_CORRELATION_ID, GTPV1_IE_CORRELATION_ID, 3, 0, ''Correlation-ID''),
     (GTPV1_IE_BEARER_CONTROL_MODE, GTPV1_IE_BEARER_CONTROL_MODE, 3, 0, ''Bearer Control Mode''),
     (GTPV1_IE_MBMS_FLOW_IDENTIFIER, GTPV1_IE_MBMS_FLOW_IDENTIFIER, 3, 0, ''MBMS Flow Identifier''),
     (GTPV1_IE_MBMS_IP_MULTICAST_DISTRIBUTION, GTPV1_IE_MBMS_IP_MULTICAST_DISTRIBUTION, 3, 0, ''MBMS IP Multicast Distribution''),
     (GTPV1_IE_MBMS_DISTRIBUTION_ACKNOWLEDGEMENT, GTPV1_IE_MBMS_DISTRIBUTION_ACKNOWLEDGEMENT, 3, 0, ''MBMS Distribution Acknowledgement''),
     (GTPV1_IE_RELIABLE_INTER_RAT_HANDOVER_INFO, GTPV1_IE_RELIABLE_INTER_RAT_HANDOVER_INFO, 3, 0, ''Reliable INTER RAT HANDOVER INFO ''),
     (GTPV1_IE_RFSP_INDEX, GTPV1_IE_RFSP_INDEX, 3, 0, ''RFSP Index''),
     (GTPV1_IE_FQDN, GTPV1_IE_FQDN, 3, 0, ''Fully Qualified Domain Name (FQDN)''),
     (GTPV1_IE_EVOLVED_ALLOCATION_RETENTION_PRIORITY_I, GTPV1_IE_EVOLVED_ALLOCATION_RETENTION_PRIORITY_I, 3, 0, ''Evolved Allocation/Retention Priority I''),
     (GTPV1_IE_EVOLVED_ALLOCATION_RETENTION_PRIORITY_II, GTPV1_IE_EVOLVED_ALLOCATION_RETENTION_PRIORITY_II, 3, 0, ''Evolved Allocation/Retention Priority II''),
     (GTPV1_IE_EXTENDED_COMMON_FLAGS, GTPV1_IE_EXTENDED_COMMON_FLAGS, 3, 0, ''Extended Common Flags''),
     (GTPV1_IE_UCI, GTPV1_IE_UCI, 3, 0, ''User CSG Information (UCI)''),
     (GTPV1_IE_CSG_INFORMATION_REPORTING_ACTION, GTPV1_IE_CSG_INFORMATION_REPORTING_ACTION, 3, 0, ''CSG Information Reporting Action''),
     (GTPV1_IE_CSG_ID, GTPV1_IE_CSG_ID, 3, 0, ''CSG ID''),
     (GTPV1_IE_CMI, GTPV1_IE_CMI, 3, 0, ''CSG Membership Indication (CMI)''),
     (GTPV1_IE_AMBR, GTPV1_IE_AMBR, 3, 0, ''Aggregate Maximum Bit Rate (AMBR)''),
     (GTPV1_IE_UE_NETWORK_CAPABILITY, GTPV1_IE_UE_NETWORK_CAPABILITY, 3, 0, ''UE Network Capability''),
     (GTPV1_IE_UE_AMBR, GTPV1_IE_UE_AMBR, 3, 0, ''UE-AMBR''),
     (GTPV1_IE_APN_AMBR_WITH_NSAPI, GTPV1_IE_APN_AMBR_WITH_NSAPI, 3, 0, ''APN-AMBR with NSAPI'')]"

definition ie_rows_5 :: "ie_row list" where
  "ie_rows_5 = [
     (GTPV1_IE_GGSN_BACK_OFF_TIME, GTPV1_IE_GGSN_BACK_OFF_TIME, 3, 0, ''GGSN Back-Off Time''),
     (GTPV1_IE_SIGNALLING_PRIORITY_INDICATION, GTPV1_IE_SIGNALLING_PRIORITY_INDICATION, 3, 0, ''Signalling Priority Indication''),
     (GTPV1_IE_SIGNALLING_PRIORITY_INDICATION_WITH_NSAPI, GTPV1_IE_SIGNALLING_PRIORITY_INDICATION_WITH_NSAPI, 3, 0, ''Signalling Priority Indication with NSAPI''),
     (GTPV1_IE_HIGHER_BITRATES_THAN_16_MBPS_FLAG, GTPV1_IE_HIGHER_BITRATES_THAN_16_MBPS_FLAG, 3, 0, ''Higher bitrates than 16 Mbps flag''),
     (GTPV1_IE_MAX_MBR_APN_AMBR, GTPV1_IE_MAX_MBR_APN_AMBR, 3, 0, ''Max MBR/APN-AMBR''),
     (GTPV1_IE_ADDITIONAL_MM_CONTEXT_FOR_SRVCC, GTPV1_IE_ADDITIONAL_MM_CONTEXT_FOR_SRVCC, 3, 0, ''Additional MM context for SRVCC''),
     (GTPV1_IE_ADDITIONAL_FLAGS_FOR_SRVCC, GTPV1_IE_ADDITIONAL_FLAGS_FOR_SRVCC, 3, 0, ''Additional flags for SRVCC''),
     (GTPV1_IE_STN_SR, GTPV1_IE_STN_SR, 3, 0, ''STN-SR''),
     (GTPV1_IE_C_MSISDN, GTPV1_IE_C_MSISDN, 3, 0, ''C-MSISDN''),
     (GTPV1_IE_EXTENDED_RANAP_CAUSE, GTPV1_IE_EXTENDED_RANAP_CAUSE, 3, 0, ''Extended RANAP Cause''),
     (GTPV1_IE_CHARGING_GATEWAY_ADDRESS, GTPV1_IE_CHARGING_GATEWAY_ADDRESS, 3, 0, ''Charging Gateway Address''),
     (GTPV1_IE_PRIVATE_EXTENSION, GTPV1_IE_PRIVATE_EXTENSION, 3, 0, ''Private Extension'')]"

definition ie_rows :: "ie_row list" where
  "ie_rows = ie_rows_1 @ ie_rows_2 @ ie_rows_3 @ ie_rows_4 @ ie_rows_5"

definition init_gtpv1_information_elements :: "gtpv1_information_element list" where
  "init_gtpv1_information_elements = fold set_ie ie_rows (replicate MAX_GTPV1_INFORMATION_ELEMENTS zero_ie)"

section \<open>Message types\<close>

record gtpv1_message_type =
  mt_id :: nat
  mt_name :: string

definition zero_mt :: gtpv1_message_type where
  "zero_mt = \<lparr>mt_id = 0, mt_name = []\<rparr>"

type_synonym mt_row = "nat \<times> nat \<times> string"

definition set_mt :: "mt_row \<Rightarrow> gtpv1_message_type list \<Rightarrow> gtpv1_message_type list" where
  "set_mt r t = (case r of (i, k, n) \<Rightarrow> t[i := \<lparr>mt_id = k, mt_name = n\<rparr>])"

definition mt_rows_1 :: "mt_row list" where
  "mt_rows_1 = [
     (GTPV1_MT_ECHO_REQUEST, GTPV1_MT_ECHO_REQUEST, ''ECHO_REQUEST''),
     (GTPV1_MT_ECHO_RESPONSE, GTPV1_MT_ECHO_RESPONSE, ''ECHO_RESPONSE''),
     (GTPV1_MT_VERSION_NOT_SUPPORTED, GTPV1_MT_VERSION_NOT_SUPPORTED, ''VERSION_NOT_SUPPORTED''),
     (GTPV1_MT_NODE_ALIVE_REQUEST, GTPV1_MT_NODE_ALIVE_REQUEST, ''NODE_ALIVE_REQUEST''),
     (GTPV1_MT_NODE_ALIVE_RESPONSE, GTPV1_MT_NODE_ALIVE_RESPONSE, ''NODE_ALIVE_RESPONSE''),
     (GTPV1_MT_REDIRECTION_REQUEST, GTPV1_MT_REDIRECTION_REQUEST, ''REDIRECTION_REQUEST''),
     (GTPV1_MT_REDIRECTION_RESPONSE, GTPV1_MT_REDIRECTION_RESPONSE, ''REDIRECTION_RESPONSE''),
     (GTPV1_MT_CREATE_PDP_CONTEXT_REQUEST, GTPV1_MT_CREATE_PDP_CONTEXT_REQUEST, ''CREATE_PDP_CONTEXT_REQUEST''),
     (GTPV1_MT_CREATE_PDP_CONTEXT_RESPONSE, GTPV1_MT_CREATE_PDP_CONTEXT_RESPONSE, ''CREATE_PDP_CONTEXT_RESPONSE''),
     (GTPV1_MT_UPDATE_PDP_CONTEXT_REQUEST, GTPV1_MT_UPDATE_PDP_CONTEXT_REQUEST, ''UPDATE_PDP_CONTEXT_REQUEST''),
     (GTPV1_MT_UPDATE_PDP_CONTEXT_RESPONSE, GTPV1_MT_UPDATE_PDP_CONTEXT_RESPONSE, ''UPDATE_PDP_CONTEXT_RESPONSE''),
     (GTPV1_MT_DELETE_PDP_CONTEXT_REQUEST, GTPV1_MT_DELETE_PDP_CONTEXT_REQUEST, ''DELETE_PDP_CONTEXT_REQUEST''),
     (GTPV1_MT_DELETE_PDP_CONTEXT_RESPONSE, GTPV1_MT_DELETE_PDP_CONTEXT_RESPONSE, ''DELETE_PDP_CONTEXT_RESPONSE''),
     (GTPV1_MT_INITIATE_PDP_CONTEXT_ACTIVATION_REQUEST, GTPV1_MT_INITIATE_PDP_CONTEXT_ACTIVATION_REQUEST, ''INITIATE_PDP_CONTEXT_ACTIVATION_REQUEST''),
     (GTPV1_MT_INITIATE_PDP_CONTEXT_ACTIVATION_RESPONSE, GTPV1_MT_INITIATE_PDP_CONTEXT_ACTIVATION_RESPONSE, ''INITIATE_PDP_CONTEXT_ACTIVATION_RESPONSE''),
     (GTPV1_MT_ERROR_INDICATION, GTPV1_MT_ERROR_INDICATION, ''ERROR_INDICATION''),
     (GTPV1_MT_PDU_NOTIFICATION_REQUEST, GTPV1_MT_PDU_NOTIFICATION_REQUEST, ''PDU_NOTIFICATION_REQUEST''),
     (GTPV1_MT_PDU_NOTIFICATION_RESPONSE, GTPV1_MT_PDU_NOTIFICATION_RESPONSE, ''PDU_NOTIFICATION_RESPONSE''),
     (GTPV1_MT_PDU_NOTIFICATION_REJECT_REQUEST, GTPV1_MT_PDU_NOTIFICATION_REJECT_REQUEST, ''PDU_NOTIFICATION_REJECT_REQUEST''),
     (GTPV1_MT_PDU_NOTIFICATION_REJECT_RESPONSE, GTPV1_MT_PDU_NOTIFICATION_REJECT_RESPONSE, ''PDU_NOTIFICATION_REJECT_RESPONSE''),
     (GTPV1_MT_SUPPORTED_EXTENSION_HEADERS_NOTIFICATION, GTPV1_MT_SUPPORTED_EXTENSION_HEADERS_NOTIFICATION, ''SUPPORTED_EXTENSION_HEADERS_NOTIFICATION''),
     (GTPV1_MT_SEND_ROUTEING_INFORMATION_FOR_GPRS_REQUEST, GTPV1_MT_SEND_ROUTEING_INFORMATION_FOR_GPRS_REQUEST, ''SEND_ROUTEING_INFORMATION_FOR_GPRS_REQUEST''),
     (GTPV1_MT_SEND_ROUTEING_INFORMATION_FOR_GPRS_RESPONSE, GTPV1_MT_SEND_ROUTEING_INFORMATION_FOR_GPRS_RESPONSE, ''SEND_ROUTEING_INFORMATION_FOR_GPRS_RESPONSE''),
     (GTPV1_MT_FAILURE_REPORT_REQUEST, GTPV1_MT_FAILURE_REPORT_REQUEST, ''FAILURE_REPORT_REQUEST''),
     (GTPV1_MT_FAILURE_REPORT_RESPONSE, GTPV1_MT_FAILURE_REPORT_RESPONSE, ''FAILURE_REPORT_RESPONSE''),
     (GTPV1_MT_NOTE_MS_GPRS_PRESENT_REQUEST, GTPV1_MT_NOTE_MS_GPRS_PRESENT_REQUEST, ''NOTE_MS_GPRS_PRESENT_REQUEST''),
     (GTPV1_MT_NOTE_MS_GPRS_PRESENT_RESPONSE, GTPV1_MT_NOTE_MS_GPRS_PRESENT_RESPONSE, ''NOTE_MS_GPRS_PRESENT_RESPONSE''),
     (GTPV1_MT_IDENTIFICATION_REQUEST, GTPV1_MT_IDENTIFICATION_REQUEST, ''IDENTIFICATION_REQUEST''),
     (GTPV1_MT_IDENTIFICATION_RESPONSE, GTPV1_MT_IDENTIFICATION_RESPONSE, ''IDENTIFICATION_RESPONSE''),
     (GTPV1_MT_SGSN_CONTEXT_REQUEST, GTPV1_MT_SGSN_CONTEXT_REQUEST, ''SGSN_CONTEXT_REQUEST''),
     (GTPV1_MT_SGSN_CONTEXT_RESPONSE, GTPV1_MT_SGSN_CONTEXT_RESPONSE, ''SGSN_CONTEXT_RESPONSE''),
     (GTPV1_MT_SGSN_CONTEXT_ACKNOWLEDGE, GTPV1_MT_SGSN_CONTEXT_ACKNOWLEDGE, ''SGSN_CONTEXT_ACKNOWLEDGE''),
     (GTPV1_MT_FORWARD_RELOCATION_REQUEST, GTPV1_MT_FORWARD_RELOCATION_REQUEST, ''FORWARD_RELOCATION_REQUEST''),
     (GTPV1_MT_FORWARD_RELOCATION_RESPONSE, GTPV1_MT_FORWARD_RELOCATION_RESPONSE, ''FORWARD_RELOCATION_RESPONSE''),
     (GTPV1_MT_FORWARD_RELOCATION_COMPLETE, GTPV1_MT_FORWARD_RELOCATION_COMPLETE, ''FORWARD_RELOCATION_COMPLETE''),
     (GTPV1_MT_RELOCATION_CANCEL_REQUEST, GTPV1_MT_RELOCATION_CANCEL_REQUEST, ''RELOCATION_CANCEL_REQUEST''),
     (GTPV1_MT_RELOCATION_CANCEL_RESPONSE, GTPV1_MT_RELOCATION_CANCEL_RESPONSE, ''RELOCATION_CANCEL_RESPONSE''),
     (GTPV1_MT_FORWARD_SRNS_CONTEXT, GTPV1_MT_FORWARD_SRNS_CONTEXT, ''FORWARD_SRNS_CONTEXT''),
     (GTPV1_MT_FORWARD_RELOCATION_COMPLETE_ACKNOWLEDGE, GTPV1_MT_FORWARD_RELOCATION_COMPLETE_ACKNOWLEDGE, ''FORWARD_RELOCATION_COMPLETE_ACKNOWLEDGE''),
     (GTPV1_MT_FORWARD_SRNS_CONTEXT_ACKNOWLEDGE, GTPV1_MT_FORWARD_SRNS_CONTEXT_ACKNOWLEDGE, ''FORWARD_SRNS_CONTEXT_ACKNOWLEDGE''),
     (GTPV1_MT_RAN_INFORMATION_RELAY, GTPV1_MT_RAN_INFORMATION_RELAY, ''RAN_INFORMATION_RELAY''),
     (GTPV1_MT_MBMS_NOTIFICATION_REQUEST, GTPV1_MT_MBMS_NOTIFICATION_REQUEST, ''MBMS_NOTIFICATION_REQUEST''),
     (GTPV1_MT_MBMS_NOTIFICATION_RESPONSE, GTPV1_MT_MBMS_NOTIFICATION_RESPONSE, ''MBMS_NOTIFICATION_RESPONSE''),
     (GTPV1_MT_MBMS_NOTIFICATION_REJECT_REQUEST, GTPV1_MT_MBMS_NOTIFICATION_REJECT_REQUEST, ''MBMS_NOTIFICATION_REJECT_REQUEST''),
     (GTPV1_MT_MBMS_NOTIFICATION_REJECT_RESPONSE, GTPV1_MT_MBMS_NOTIFICATION_REJECT_RESPONSE, ''MBMS_NOTIFICATION_REJECT_RESPONSE''),
     (GTPV1_MT_CREATE_MBMS_CONTEXT_REQUEST, GTPV1_MT_CREATE_MBMS_CONTEXT_REQUEST, ''CREATE_MBMS_CONTEXT_REQUEST''),
     (GTPV1_MT_CREATE_MBMS_CONTEXT_RESPONSE, GTPV1_MT_CREATE_MBMS_CONTEXT_RESPONSE, ''CREATE_MBMS_CONTEXT_RESPONSE''),
     (GTPV1_MT_UPDATE_MBMS_CONTEXT_REQUEST, GTPV1_MT_UPDATE_MBMS_CONTEXT_REQUEST, ''UPDATE_MBMS_CONTEXT_REQUEST''),
     (GTPV1_MT_UPDATE_MBMS_CONTEXT_RESPONSE, GTPV1_MT_UPDATE_MBMS_CONTEXT_RESPONSE, ''UPDATE_MBMS_CONTEXT_RESPONSE''),
     (GTPV1_MT_DELETE_MBMS_CONTEXT_REQUEST, GTPV1_MT_DELETE_MBMS_CONTEXT_REQUEST, ''DELETE_MBMS_CONTEXT_REQUEST'')]"

definition mt_rows_2 :: "mt_row list" where
  "mt_rows_2 = [
     (GTPV1_MT_DELETE_MBMS_CONTEXT_RESPONSE, GTPV1_MT_DELETE_MBMS_CONTEXT_RESPONSE, ''DELETE_MBMS_CONTEXT_RESPONSE''),
     (GTPV1_MT_MBMS_REGISTRATION_REQUEST, GTPV1_MT_MBMS_REGISTRATION_REQUEST, ''MBMS_REGISTRATION_REQUEST''),
     (GTPV1_MT_MBMS_REGISTRATION_RESPONSE, GTPV1_MT_MBMS_REGISTRATION_RESPONSE, ''MBMS_REGISTRATION_RESPONSE''),
     (GTPV1_MT_MBMS_DE_REGISTRATION_REQUEST, GTPV1_MT_MBMS_DE_REGISTRATION_REQUEST, ''MBMS_DE-REGISTRATION_REQUEST''),
     (GTPV1_MT_MBMS_DE_REGISTRATION_RESPONSE, GTPV1_MT_MBMS_DE_REGISTRATION_RESPONSE, ''MBMS_DE-REGISTRATION_RESPONSE''),
     (GTPV1_MT_MBMS_SESSION_START_REQUEST, GTPV1_MT_MBMS_SESSION_START_REQUEST, ''MBMS_SESSION_START_REQUEST''),
     (GTPV1_MT_MBMS_SESSION_START_RESPONSE, GTPV1_MT_MBMS_SESSION_START_RESPONSE, ''MBMS_SESSION_START_RESPONSE''),
     (GTPV1_MT_MBMS_SESSION_STOP_REQUEST, GTPV1_MT_MBMS_SESSION_STOP_REQUEST, ''MBMS_SESSION_STOP_REQUEST''),
     (GTPV1_MT_MBMS_SESSION_STOP_RESPONSE, GTPV1_MT_MBMS_SESSION_STOP_RESPONSE, ''MBMS_SESSION_STOP_RESPONSE''),
     (GTPV1_MT_MBMS_SESSION_UPDATE_REQUEST, GTPV1_MT_MBMS_SESSION_UPDATE_REQUEST, ''MBMS_SESSION_UPDATE_REQUEST''),
     (GTPV1_MT_MBMS_SESSION_UPDATE_RESPONSE, GTPV1_MT_MBMS_SESSION_UPDATE_RESPONSE, ''MBMS_SESSION_UPDATE_RESPONSE''),
     (GTPV1_MT_MS_INFO_CHANGE_NOTIFICATION_REQUEST, GTPV1_MT_MS_INFO_CHANGE_NOTIFICATION_REQUEST, ''MS_INFO_CHANGE_NOTIFICATION_REQUEST''),
     (GTPV1_MT_MS_INFO_CHANGE_NOTIFICATION_RESPONSE, GTPV1_MT_MS_INFO_CHANGE_NOTIFICATION_RESPONSE, ''MS_INFO_CHANGE_NOTIFICATION_RESPONSE''),
     (GTPV1_MT_DATA_RECORD_TRANSFER_REQUEST, GTPV1_MT_DATA_RECORD_TRANSFER_REQUEST, ''DATA_RECORD_TRANSFER_REQUEST''),
     (GTPV1_MT_DATA_RECORD_TRANSFER_RESPONSE, GTPV1_MT_DATA_RECORD_TRANSFER_RESPONSE, ''DATA_RECORD_TRANSFER_RESPONSE''),
     (GTPV1_MT_END_MARKER, GTPV1_MT_END_MARKER, ''END_MARKER''),
     (GTPV1_MT_G_PDU, GTPV1_MT_G_PDU, ''G-PDU'')]"

definition mt_rows :: "mt_row list" where
  "mt_rows = mt_rows_1 @ mt_rows_2"

definition init_gtpv1_message_types :: "gtpv1_message_type list" where
  "init_gtpv1_message_types = fold set_mt mt_rows (replicate MAX_GTPV1_MESSAGE_TYPES zero_mt)"

text \<open>\<open>init_gtpv1\<close> fills both tables.\<close>

definition init_gtpv1 :: "gtpv1_message_type list \<times> gtpv1_information_element list" where
  "init_gtpv1 = (init_gtpv1_message_types, init_gtpv1_information_elements)"

section \<open>The coding of the elements\<close>

text \<open>
  Which elements TS 29.060 defines, up to the release the header file follows: those below 128 have a body of a fixed
  length (0 for a number that is not in use), those from 128 on carry their length in two octets.
\<close>

definition tv_length :: "nat \<Rightarrow> nat" where
  "tv_length i =
     (if i \<in> {1, 8, 11, 13, 14, 15, 19, 20, 21, 23, 24, 29} then 1
      else if i \<in> {25, 26, 27, 28} then 2
      else if i = 12 then 3
      else if i \<in> {4, 5, 16, 17, 127} then 4
      else if i = 18 then 5
      else if i = 3 then 6
      else if i = 2 then 8
      else if i = 22 then 9
      else if i = 9 then 28
      else 0)"

definition tlv_number :: "nat \<Rightarrow> bool" where
  "tlv_number i \<longleftrightarrow> 128 \<le> i \<and> i \<le> 211 \<and> i \<noteq> 172 \<or> i = 251 \<or> i = 255"

section \<open>Lemmas\<close>

lemma set_ie_row:
  "set_ie (i, k, h, b, n) t = t[i := \<lparr>ie_id = k, grouped = 0, header_length = h, body_length = b, ie_name = n\<rparr>]"
  by (simp add: set_ie_def)

text \<open>The entry that filling the table leaves at a number: the last row for it, else a cleared entry.\<close>

lemma fold_set_ie_other:
  "i \<notin> fst ` set rows \<Longrightarrow> fold set_ie rows t ! i = t ! i" "length (fold set_ie rows t) = length t"
  by (induction rows arbitrary: t) (auto simp: set_ie_row)

lemma fold_set_ie_row:
  assumes "distinct (map fst rows)" "(i, k, h, b, n) \<in> set rows" "i < length t"
  shows "fold set_ie rows t ! i = \<lparr>ie_id = k, grouped = 0, header_length = h, body_length = b, ie_name = n\<rparr>"
  using assms
proof (induction rows arbitrary: t)
  case (Cons r rows)
  show ?case
  proof (cases "r = (i, k, h, b, n)")
    case True
    then have "i \<notin> fst ` set rows" using Cons.prems(1) by auto
    then show ?thesis using fold_set_ie_other(1) [of i rows "set_ie r t"] True Cons.prems(3)
      by (simp add: set_ie_row)
  next
    case False
    then show ?thesis using Cons.IH [of "set_ie r t"] Cons.prems by (cases r) (auto simp: set_ie_row)
  qed
qed simp

text \<open>The numbers of the rows, in order, and what is common to all rows.\<close>

lemma ie_numbers: "map fst ie_rows = [1, 2, 3, 4, 5, 8, 9, 11, 12, 13, 14, 15, 16, 17, 18, 19, 20, 21, 22, 23, 24, 25, 26, 27, 28,
    29, 127, 128, 129, 130, 131, 132, 133, 134, 135, 136, 137, 138, 139, 140, 141, 142, 143, 144,
    145, 146, 147, 148, 149, 150, 151, 152, 153, 154, 155, 156, 157, 158, 159, 160, 161, 162, 163,
    164, 165, 166, 167, 168, 169, 170, 171, 173, 174, 175, 176, 177, 178, 179, 180, 181, 182, 183,
    184, 185, 186, 187, 188, 189, 190, 191, 192, 193, 194, 195, 196, 197, 198, 199, 200, 201, 202,
    203, 204, 205, 206, 207, 208, 209, 210, 211, 251, 255]"
  by (simp add: ie_rows_def ie_rows_1_def ie_rows_2_def ie_rows_3_def ie_rows_4_def ie_rows_5_def)

lemma ie_rows_shape:
  "list_all (\<lambda>(i, k, h, b, n). k = i \<and> h = (if i < 128 then 1 else 3) \<and> b = tv_length i \<and> (i < 128 \<longrightarrow> 0 < b)) ie_rows"
  by (simp add: ie_rows_def ie_rows_1_def ie_rows_2_def ie_rows_3_def ie_rows_4_def ie_rows_5_def tv_length_def)

lemma ie_rows_distinct: "distinct (map fst ie_rows)" "\<forall>i \<in> set (map fst ie_rows). 0 < i \<and> i < 256"
  unfolding ie_numbers by simp_all

text \<open>The numbers an information element is defined for.\<close>

definition known_ie :: "nat \<Rightarrow> bool" where
  "known_ie i \<longleftrightarrow> i \<in> set (map fst ie_rows)"

lemma table_ie_length [simp]: "length init_gtpv1_information_elements = 256"
  by (simp add: init_gtpv1_information_elements_def fold_set_ie_other)

lemma table_ie_unknown: "\<not> known_ie i \<Longrightarrow> i < 256 \<Longrightarrow> init_gtpv1_information_elements ! i = zero_ie"
  by (simp add: init_gtpv1_information_elements_def known_ie_def fold_set_ie_other)

lemma table_ie_row:
  assumes "(i, k, h, b, n) \<in> set ie_rows"
  shows "init_gtpv1_information_elements ! i =
    \<lparr>ie_id = k, grouped = 0, header_length = h, body_length = b, ie_name = n\<rparr>"
proof -
  have "i \<in> set (map fst ie_rows)" using assms by force
  then have "i < 256" using ie_rows_distinct(2) by blast
  then show ?thesis
    unfolding init_gtpv1_information_elements_def by (intro fold_set_ie_row ie_rows_distinct(1) assms) simp
qed

lemma table_ie_known:
  assumes "known_ie i"
  shows "ie_id (init_gtpv1_information_elements ! i) = i"
    "header_length (init_gtpv1_information_elements ! i) = (if i < 128 then 1 else 3)"
    "body_length (init_gtpv1_information_elements ! i) = tv_length i"
proof -
  obtain k h b n where r: "(i, k, h, b, n) \<in> set ie_rows" using assms by (auto simp: known_ie_def)
  then have "k = i \<and> h = (if i < 128 then 1 else 3) \<and> b = tv_length i" using ie_rows_shape by (auto simp: list_all_iff)
  then show "ie_id (init_gtpv1_information_elements ! i) = i"
    "header_length (init_gtpv1_information_elements ! i) = (if i < 128 then 1 else 3)"
    "body_length (init_gtpv1_information_elements ! i) = tv_length i"
    using table_ie_row [OF r] by simp_all
qed

text \<open>The table knows every element that the standard defines.\<close>

lemma ie_number_ranges:
  "map fst ie_rows = [1, 2, 3, 4, 5, 8, 9] @ [11..<30] @ [127..<172] @ [173..<212] @ [251, 255]"
  unfolding ie_numbers by simp

lemma standard_known: "0 < tv_length i \<or> tlv_number i \<Longrightarrow> known_ie i"
  unfolding known_ie_def ie_number_ranges by (auto simp: tv_length_def tlv_number_def split: if_splits simp del: upt_rec_numeral)

end
