(* ===== verification/Gtp_Fields.thy ===== *)
theory Gtp_Fields
  imports Gtp_Tables
begin

text \<open>
  The information elements that the decoders look into: the subscriber identity
  (\<open>include/gtpv1_imsi.h\<close>), the tunnel endpoint identifier (\<open>include/gtpv1_teid.h\<close>) and the end user
  address (\<open>include/gtpv1_eua.h\<close>). The functions are given the octets of the element's value.
\<close>

section \<open>Operations\<close>

abbreviation (input) GTPV1_IMSI_LENGTH :: nat where "GTPV1_IMSI_LENGTH \<equiv> 8"
abbreviation (input) GTPV1_TEID_LENGTH :: nat where "GTPV1_TEID_LENGTH \<equiv> 4"
abbreviation (input) GTPV1_EUA_NO_ADDRESS_LENGTH :: nat where "GTPV1_EUA_NO_ADDRESS_LENGTH \<equiv> 2"
abbreviation (input) GTPV1_EUA_IPV4_LENGTH :: nat where "GTPV1_EUA_IPV4_LENGTH \<equiv> 4"

text \<open>
  The body of the loop of \<open>imsi2str\<close>: the low half of an octet, and the high half unless it is a filler,
  are appended to a string in an array of \<open>cap\<close> characters.
\<close>

definition imsi_append :: "nat \<Rightarrow> byte \<Rightarrow> string \<Rightarrow> fault + string" where
  "imsi_append cap b s =
     sbind (str_into cap (s @ dec (unat (b AND 15)))) (\<lambda>s.
       if unat (drop_bit 4 b) < 10 then str_into cap (s @ dec (unat (drop_bit 4 b))) else Inr s)"

text \<open>Both functions go over the 8 octets of the field, however many digits it holds.\<close>

definition imsi2str :: "nat \<Rightarrow> byte list \<Rightarrow> fault + string" where
  "imsi2str cap imsi =
     fold (\<lambda>i r. sbind r (\<lambda>s. sbind (rd8 imsi i) (\<lambda>b. imsi_append cap b s))) [0..<GTPV1_IMSI_LENGTH] (str_into cap [])"

definition imsi_shift :: "byte \<Rightarrow> u64 \<Rightarrow> u64" where
  "imsi_shift b imsilong =
     (let imsilong = imsilong * 10 + ucast (b AND 15)
      in if unat (drop_bit 4 b) < 10 then imsilong * 10 + ucast (drop_bit 4 b) else imsilong)"

definition imsi2longlong :: "byte list \<Rightarrow> fault + u64" where
  "imsi2longlong imsi =
     fold (\<lambda>i r. sbind r (\<lambda>n. sbind (rd8 imsi i) (\<lambda>b. Inr (imsi_shift b n)))) [0..<GTPV1_IMSI_LENGTH] (Inr 0)"

definition teid2uint :: "byte list \<Rightarrow> u32" where
  "teid2uint t = push_bit 24 (ucast (t ! 0)) + push_bit 16 (ucast (t ! 1)) +
     push_bit 8 (ucast (t ! 2)) + ucast (t ! 3)"

definition GTPV1_EUA_LENGTH :: "byte \<Rightarrow> byte \<Rightarrow> nat" where
  "GTPV1_EUA_LENGTH hi lo = unat hi * 256 + unat lo"

section \<open>Encoders\<close>

text \<open>
  How TS 29.060 codes a subscriber identity: two digits per octet, the first in the low half, and a filler
  of ones in the high half of the last octet when the number of digits is odd. Octets that are left over in the field of 8
  octets hold fillers only.
\<close>

definition octet :: "nat \<Rightarrow> nat \<Rightarrow> byte" where
  "octet d e = of_nat (d + 16 * e)"

fun tbcd :: "nat list \<Rightarrow> byte list" where
  "tbcd [] = []"
| "tbcd [d] = [octet d 15]"
| "tbcd (d # e # ds) = octet d e # tbcd ds"

definition imsi_field :: "nat list \<Rightarrow> byte list" where
  "imsi_field ds = tbcd ds @ replicate (GTPV1_IMSI_LENGTH - length (tbcd ds)) 255"

definition teid_octets :: "u32 \<Rightarrow> byte list" where
  "teid_octets t = [ucast (drop_bit 24 t), ucast (drop_bit 16 t), ucast (drop_bit 8 t), ucast t]"

text \<open>The number that a list of decimal digits stands for.\<close>

definition number_of :: "nat list \<Rightarrow> nat" where
  "number_of ds = foldl (\<lambda>n d. 10 * n + d) 0 ds"

section \<open>Lemmas\<close>

lemma tbcd_octet:
  assumes "d < 10" "e < 16"
  shows "unat (octet d e AND 15) = d" "unat (drop_bit 4 (octet d e)) = e"
proof -
  have u: "unat (octet d e) = d + 16 * e" using assms by (simp add: octet_def unat_of_nat del: of_nat_add)
  show "unat (octet d e AND 15) = d" unfolding byte_lo_nibble u using assms by simp
  show "unat (drop_bit 4 (octet d e)) = e" unfolding byte_hi_nibble u using assms by simp
qed

lemma imsi_append_tbcd:
  assumes "d < 10" "length s + 1 < cap"
  shows "e < 10 \<Longrightarrow> imsi_append cap (octet d e) s = str_into cap (s @ [digit_char d, digit_char e])"
    "imsi_append cap (octet d 15) s = Inr (s @ [digit_char d])"
  using assms tbcd_octet [of d e] tbcd_octet [of d 15]
  by (simp_all add: imsi_append_def dec_digit str_into_def)

lemma imsi2str_fold:
  assumes "\<forall>d \<in> set ds. d < 10" "length s + length ds < cap"
  shows "fold (\<lambda>b r. sbind r (imsi_append cap b)) (tbcd ds) (Inr s) = Inr (s @ map digit_char ds)"
  using assms
proof (induction ds arbitrary: s rule: tbcd.induct)
  case (3 d e ds)
  then show ?case by (simp add: imsi_append_tbcd str_into_def)
qed (simp_all add: imsi_append_tbcd)

lemma fold_stuck: "fold (\<lambda>b r. sbind r (imsi_append cap b)) bs (Inl f) = Inl f"
  by (induction bs) simp_all

text \<open>The low half of a filler octet is appended as the number 15.\<close>

lemma imsi_append_filler: "length s < cap \<Longrightarrow> imsi_append cap 255 s = str_into cap (s @ ''15'')"
proof -
  have "dec 15 = ''15''" by (simp add: dec.simps [of 15] dec.simps [of 1] digit_char_def) code_simp
  moreover have "unat ((255 :: byte) AND 15) = 15" "unat (drop_bit 4 (255 :: byte)) = 15" by code_simp+
  ultimately show ?thesis by (simp add: imsi_append_def str_into_def)
qed

lemma imsi2str_fillers:
  "length s < cap \<Longrightarrow> fold (\<lambda>b r. sbind r (imsi_append cap b)) (replicate k 255) (Inr s) =
    str_into cap (s @ concat (replicate k ''15''))"
proof (induction k arbitrary: s)
  case (Suc k)
  show ?case
  proof (cases "length s + 2 < cap")
    case True
    then show ?thesis using Suc by (simp add: imsi_append_filler str_into_def del: fold_replicate)
  next
    case False
    then show ?thesis using Suc.prems by (simp add: imsi_append_filler str_into_def fold_stuck del: fold_replicate)
  qed
qed (simp add: str_into_def del: fold_replicate)

lemma imsi2str_overflow:
  assumes "\<forall>d \<in> set ds. d < 10" "length s + length ds \<ge> cap" "length s < cap"
  shows "fold (\<lambda>b r. sbind r (imsi_append cap b)) (tbcd ds) (Inr s) = Inl Buffer_overflow"
  using assms
proof (induction ds arbitrary: s rule: tbcd.induct)
  case (2 d)
  then have "\<not> length s + 1 < cap" by simp
  then show ?case using 2 tbcd_octet(1) [of d 15] by (simp add: imsi_append_def str_into_def dec_digit)
next
  case (3 d e ds)
  have de: "d < 10" "e < 10" using 3(2) by simp_all
  show ?case
  proof (cases "length s + 2 < cap")
    case True
    then show ?thesis using 3 de by (simp add: imsi_append_tbcd str_into_def)
  next
    case False
    have "imsi_append cap (octet d e) s = Inl Buffer_overflow"
      using tbcd_octet [of d e] de False by (simp add: imsi_append_def str_into_def dec_digit)
    then show ?thesis by (simp add: fold_stuck)
  qed
qed simp

lemma length_fillers: "length (concat (replicate k ''15'')) = 2 * k"
  by (induction k) simp_all

lemma filler_octets:
  assumes "n < (16 :: nat)"
  shows "n + 2 * (8 - (n + 1) div 2) < 16 \<longleftrightarrow> odd n" "odd n \<Longrightarrow> 8 - (n + 1) div 2 = 7 - n div 2"
proof -
  show "n + 2 * (8 - (n + 1) div 2) < 16 \<longleftrightarrow> odd n" using assms by presburger
  show "odd n \<Longrightarrow> 8 - (n + 1) div 2 = 7 - n div 2" by (elim oddE) simp
qed

lemma length_tbcd: "length (tbcd ds) = (length ds + 1) div 2"
  by (induction ds rule: tbcd.induct) simp_all

lemma length_imsi_field: "length ds \<le> 16 \<Longrightarrow> length (imsi_field ds) = 8"
  by (simp add: imsi_field_def length_tbcd)

text \<open>On a field of 8 octets the loops over the indices are folds over the octets.\<close>

lemma fold_rd8:
  assumes "length bs = n"
  shows "fold (\<lambda>i r. sbind r (\<lambda>s. sbind (rd8 bs i) (\<lambda>b. f b s))) [0..<n] r = fold (\<lambda>b r. sbind r (f b)) bs r"
proof -
  have "fold (\<lambda>i r. sbind r (\<lambda>s. sbind (rd8 bs i) (\<lambda>b. f b s))) [0..<n] r =
      fold (\<lambda>i r. sbind r (f (bs ! i))) [0..<n] r"
    using assms by (intro fold_cong) (auto simp: rd8_def)
  also have "\<dots> = fold (\<lambda>b r. sbind r (f b)) (map ((!) bs) [0..<n]) r" by (simp add: fold_map o_def)
  finally show ?thesis using assms map_nth [of bs] by simp
qed

lemma imsi2str_field:
  "length bs = 8 \<Longrightarrow> imsi2str cap bs = fold (\<lambda>b r. sbind r (imsi_append cap b)) bs (str_into cap [])"
  unfolding imsi2str_def by (rule fold_rd8)

lemma imsi2longlong_field:
  assumes "length bs = 8"
  shows "imsi2longlong bs = Inr (fold imsi_shift bs 0)"
proof -
  have "fold (\<lambda>b r. sbind r (\<lambda>n. Inr (imsi_shift b n))) bs (Inr n) = Inr (fold imsi_shift bs n)" for n :: u64
    by (induction bs arbitrary: n) simp_all
  then show ?thesis unfolding imsi2longlong_def using fold_rd8 [OF assms, of "\<lambda>b n. Inr (imsi_shift b n)"] by simp
qed

lemma ucast_nibble: "(ucast (b :: byte) :: u64) = of_nat (unat b)"
  by simp

lemma imsi_shift_tbcd:
  assumes "d < 10"
  shows "e < 10 \<Longrightarrow> imsi_shift (octet d e) (of_nat n) = of_nat (10 * (10 * n + d) + e)"
    "imsi_shift (octet d 15) (of_nat n) = of_nat (10 * n + d)"
  using assms tbcd_octet [of d e] tbcd_octet [of d 15]
  by (simp_all add: imsi_shift_def ucast_nibble Let_def algebra_simps del: of_nat_unat)

lemma imsi2longlong_fold:
  assumes "\<forall>d \<in> set ds. d < 10"
  shows "fold imsi_shift (tbcd ds) (of_nat n) = of_nat (foldl (\<lambda>n d. 10 * n + d) n ds)"
  using assms
proof (induction ds arbitrary: n rule: tbcd.induct)
  case (3 d e ds)
  then show ?case by (simp add: imsi_shift_tbcd del: of_nat_add of_nat_mult)
next
  case (2 d)
  then show ?case by (simp add: imsi_shift_tbcd del: of_nat_add of_nat_mult)
qed simp

lemma number_of_bound:
  assumes "\<forall>d \<in> set ds. d < 10"
  shows "number_of ds < 10 ^ length ds"
proof -
  have "foldl (\<lambda>n d. 10 * n + d) m ds < (m + 1) * 10 ^ length ds" for m
    using assms
  proof (induction ds arbitrary: m)
    case (Cons d ds)
    have "(10 * m + d + 1) * 10 ^ length ds \<le> (10 * m + 10) * 10 ^ length ds"
      using Cons.prems by (intro mult_right_mono) simp_all
    also have "\<dots> = (m + 1) * 10 ^ length (d # ds)" by (simp add: algebra_simps)
    finally show ?case using Cons.IH [of "10 * m + d"] Cons.prems by simp
  qed simp
  from this [of 0] show ?thesis by (simp add: number_of_def)
qed

lemma octets_sum:
  assumes "n < 2 ^ 32"
  shows "2 ^ 24 * (n div 2 ^ 24 mod 256) + 2 ^ 16 * (n div 2 ^ 16 mod 256) + 2 ^ 8 * (n div 2 ^ 8 mod 256) +
    n mod 256 = (n :: nat)"
proof -
  define a where "a = n div 256"
  define b where "b = a div 256"
  define c where "c = b div 256"
  have d: "n div 2 ^ 8 = a" "n div 2 ^ 16 = b" "n div 2 ^ 24 = c"
    by (simp_all add: a_def b_def c_def div_mult2_eq [symmetric])
  have c256: "c mod 256 = c" using assms by (simp add: c_def b_def a_def div_mult2_eq [symmetric])
  have "n = 256 * a + n mod 256" "a = 256 * b + a mod 256" "b = 256 * c + b mod 256"
    by (simp_all add: a_def b_def c_def)
  then show ?thesis unfolding d c256 by simp
qed

section \<open>Properties\<close>

text \<open>
  C20: subscriber identities. An identity of 15 digits, coded as the standard says, is decoded exactly: \<open>imsi2str\<close> writes
  its digits into the 16 characters of its callers and \<open>imsi2longlong\<close> returns the number they stand for. An identity with
  fewer digits is not: for every octet that holds fillers only the text 15 is appended, which gives wrong digits
  when the number of digits is odd and overruns the array when it is even, as do 16 digits.
\<close>

theorem imsi_roundtrip:
  assumes "\<forall>d \<in> set ds. d < 10" and "length ds \<le> 16"
  shows "(length ds = 15 \<longrightarrow> imsi2str 16 (imsi_field ds) = Inr (map digit_char ds) \<and>
      (\<exists>n. imsi2longlong (imsi_field ds) = Inr n \<and> unat n = number_of ds)) \<and>
    imsi2str 16 (imsi_field ds) =
      (if odd (length ds) then Inr (map digit_char ds @ concat (replicate (7 - length ds div 2) ''15'')) else Inl Buffer_overflow)"
proof -
  let ?f = "fold (\<lambda>b r. sbind r (imsi_append 16 b))"
  have e: "imsi2str 16 (imsi_field ds) = ?f (replicate (8 - length (tbcd ds)) 255) (?f (tbcd ds) (Inr []))"
    unfolding imsi2str_field [OF length_imsi_field [OF assms(2)]] by (simp add: imsi_field_def str_into_def del: fold_replicate)
  have str: "imsi2str 16 (imsi_field ds) =
      (if odd (length ds) then Inr (map digit_char ds @ concat (replicate (7 - length ds div 2) ''15'')) else Inl Buffer_overflow)"
  proof (cases "length ds = 16")
    case True
    then show ?thesis unfolding e using imsi2str_overflow [OF assms(1), of 16 "[]"] by (simp add: fold_stuck del: fold_replicate)
  next
    case False
    then have d: "?f (tbcd ds) (Inr []) = Inr (map digit_char ds)" using imsi2str_fold [OF assms(1), of "[]" 16] assms(2) by simp
    define k where "k = 8 - (length ds + 1) div 2"
    have "imsi2str 16 (imsi_field ds) = str_into 16 (map digit_char ds @ concat (replicate k ''15''))"
      unfolding e d length_tbcd k_def [symmetric] by (rule imsi2str_fillers) (use assms(2) False in simp)
    moreover have "length ds + 2 * k < 16 \<longleftrightarrow> odd (length ds)" "odd (length ds) \<Longrightarrow> k = 7 - length ds div 2"
      unfolding k_def using filler_octets [of "length ds"] assms(2) False by simp_all
    ultimately show ?thesis by (auto simp: str_into_def length_fillers)
  qed
  have num: "\<exists>n. imsi2longlong (imsi_field ds) = Inr n \<and> unat n = number_of ds" if l: "length ds = 15"
  proof -
    have "imsi_field ds = tbcd ds" using l by (simp add: imsi_field_def length_tbcd)
    then have "imsi2longlong (imsi_field ds) = Inr (of_nat (number_of ds))"
      using imsi2longlong_field [OF length_imsi_field [OF assms(2)]] imsi2longlong_fold [OF assms(1), of 0]
      by (simp add: number_of_def)
    moreover have "number_of ds < 2 ^ 64" using number_of_bound [OF assms(1)] l by simp
    ultimately show ?thesis by (simp add: unat_of_nat)
  qed
  show ?thesis using str num by simp
qed

theorem imsi_roundtrip_witness:
  "imsi2str 16 (imsi_field [2, 7, 2, 0, 1, 1, 2, 3, 4, 5, 6, 7, 8, 9, 0]) = Inr ''272011234567890'' \<and>
   imsi2str 16 (imsi_field [2, 7, 2, 0, 1, 1, 2, 3, 4, 5, 6, 7, 8]) = Inr ''272011234567815''"
proof -
  have "map digit_char [2, 7, 2, 0, 1, 1, 2, 3, 4, 5, 6, 7, 8, 9, 0] = ''272011234567890''"
    "map digit_char [2, 7, 2, 0, 1, 1, 2, 3, 4, 5, 6, 7, 8] = ''2720112345678''" by code_simp+
  then show ?thesis
    using imsi_roundtrip [of "[2, 7, 2, 0, 1, 1, 2, 3, 4, 5, 6, 7, 8, 9, 0]"] imsi_roundtrip [of "[2, 7, 2, 0, 1, 1, 2, 3, 4, 5, 6, 7, 8]"]
    by simp
qed

text \<open>
  Tunnel endpoint identifiers: \<open>teid2uint\<close> reads back every 32-bit identifier from its four octets in
  network order.
\<close>

theorem teid_roundtrip: "teid2uint (teid_octets t) = t"
proof -
  have "unat (teid2uint (teid_octets t)) = unat (be32 (ucast (drop_bit 24 t)) (ucast (drop_bit 16 t)) (ucast (drop_bit 8 t)) (ucast t))"
    by (simp add: teid2uint_def teid_octets_def be32_def)
  also have "\<dots> = 2 ^ 24 * (unat t div 2 ^ 24 mod 256) + 2 ^ 16 * (unat t div 2 ^ 16 mod 256) +
      2 ^ 8 * (unat t div 2 ^ 8 mod 256) + unat t mod 256"
    unfolding unat_be32 by (simp add: unsigned_ucast_eq drop_bit_eq_div unat_div take_bit_eq_mod)
  also have "\<dots> = unat t"
  proof -
    have "unat t < 2 ^ 32" using unsigned_less [where ?'a = nat and w = t] by simp
    then show ?thesis by (rule octets_sum)
  qed
  finally show ?thesis by (simp add: word_unat_eq_iff)
qed

end
