(* ===== verification/Gtp_Decode.thy ===== *)
theory Gtp_Decode
  imports Gtp_Fields Untunnel
begin

text \<open>
  The two programs that decode GTP packets of a capture: \<open>decodegtp.c\<close> prints one line per packet and
  \<open>gtpimsieua.c\<close> prints the address given to a subscriber, found by the tunnel identifier that request and
  response of a context creation share. Both walk over the information elements of a GTP-C message with
  the same loop, here \<open>ie_loop\<close>, which is given what the program does with an element. Offsets are relative
  to the GTP header, which is at \<open>gtp\<close> in the packet; every access is checked against the octets that were
  captured. The loop takes fuel and is \<open>None\<close> when it is used up.
\<close>

section \<open>Conversions of printf\<close>

definition hex_char :: "nat \<Rightarrow> char" where
  "hex_char d = char_of (if d < 10 then 48 + d else 87 + d)"

fun hex :: "nat \<Rightarrow> string" where
  "hex n = (if n < 16 then [hex_char n] else hex (n div 16) @ [hex_char (n mod 16)])"

declare hex.simps [simp del]

definition dec9 :: "nat \<Rightarrow> string" where
  "dec9 n = replicate (9 - length (dec n)) (CHR ''0'') @ dec n"

section \<open>The walk over the information elements\<close>

datatype 'a loop_step = Break 'a | Continue nat 'a

definition ie_step :: "buffer \<Rightarrow> nat \<Rightarrow> nat \<Rightarrow> nat \<Rightarrow> (nat \<Rightarrow> nat \<Rightarrow> 'a \<Rightarrow> fault + 'a) \<Rightarrow> nat \<Rightarrow> 'a \<Rightarrow>
    fault + 'a loop_step" where
  "ie_step data gtp cap len visit offset acc =
     sbind (rd8 data (gtp + offset)) (\<lambda>ie.
     let e = init_gtpv1_information_elements ! unat ie in
     if offset + header_length e \<ge> cap then Inr (Break acc)
     else sbind (if unat ie \<ge> GTPV1_FIRST_TLV_IE
                 then sbind (rd16 data (gtp + offset + 1)) (\<lambda>l. Inr (unat l)) else Inr (body_length e)) (\<lambda>body.
     if offset + header_length e + body \<ge> cap then Inr (Break acc)
     else sbind (visit (unat ie) offset acc) (\<lambda>acc.
     let offset = offset + header_length e + body in
     if offset \<ge> GTPV1HDR_LEN + len then Inr (Break acc) else Inr (Continue offset acc))))"

fun ie_loop :: "nat \<Rightarrow> buffer \<Rightarrow> nat \<Rightarrow> nat \<Rightarrow> nat \<Rightarrow> (nat \<Rightarrow> nat \<Rightarrow> 'a \<Rightarrow> fault + 'a) \<Rightarrow> nat \<Rightarrow> 'a \<Rightarrow>
    (fault + 'a) option" where
  "ie_loop 0 data gtp cap len visit offset acc = None"
| "ie_loop (Suc fuel) data gtp cap len visit offset acc =
     (if \<not> offset < cap then Some (Inr acc)
      else case ie_step data gtp cap len visit offset acc of
        Inl f \<Rightarrow> Some (Inl f)
      | Inr (Break acc) \<Rightarrow> Some (Inr acc)
      | Inr (Continue offset acc) \<Rightarrow> ie_loop fuel data gtp cap len visit offset acc)"

text \<open>The offset of the first element: behind the mandatory header and its options, if there are any.\<close>

definition first_offset :: "gtpv1hdr \<Rightarrow> nat" where
  "first_offset h = GTPV1HDR_LEN + (if flag_options h \<noteq> 0 then GTPV1HDROPT_LEN else 0)"

text \<open>The four octets of an IPv4 end user address at \<open>pos\<close>, dotted; empty when there is no address.\<close>

definition rd_eua :: "buffer \<Rightarrow> nat \<Rightarrow> fault + string option" where
  "rd_eua data pos =
     sbind (rd8 data (pos + 1)) (\<lambda>hi. sbind (rd8 data (pos + 2)) (\<lambda>lo.
       if GTPV1_EUA_LENGTH hi lo > GTPV1_EUA_NO_ADDRESS_LENGTH
       then sbind (rd32 data (pos + 5)) (\<lambda>a. Inr (Some (inet_ntoa a))) else Inr None))"

section \<open>decodegtp\<close>

record decode_state =
  out :: string
  imsi_found :: bool
  teidd1_found :: bool
  teidcp_found :: bool

definition emit :: "string \<Rightarrow> decode_state \<Rightarrow> decode_state" where
  "emit s d = d\<lparr>out := out d @ s\<rparr>"

text \<open>The columns that are left empty when their element has been passed by.\<close>

definition decode_skips :: "nat \<Rightarrow> decode_state \<Rightarrow> decode_state" where
  "decode_skips ie d =
     (let d = (if ie > GTPV1_IE_IMSI \<and> \<not> imsi_found d then emit '','' d\<lparr>imsi_found := True\<rparr> else d);
          d = (if ie > GTPV1_IE_TEI_DATA_I \<and> \<not> teidd1_found d then emit '','' d\<lparr>teidd1_found := True\<rparr> else d)
      in if ie > GTPV1_IE_TEI_CONTROL_PLANE \<and> \<not> teidcp_found d then emit '','' d\<lparr>teidcp_found := True\<rparr> else d)"

definition decode_visit :: "buffer \<Rightarrow> nat \<Rightarrow> nat \<Rightarrow> nat \<Rightarrow> decode_state \<Rightarrow> fault + decode_state" where
  "decode_visit data gtp ie offset d =
     (let pos = gtp + offset in
      sbind (if ie = GTPV1_IE_IMSI then
               sbind (rd_bytes data (pos + 1) GTPV1_IMSI_LENGTH) (\<lambda>b. sbind (imsi2str 16 b) (\<lambda>s.
                 Inr (emit (s @ '','') d\<lparr>imsi_found := True\<rparr>)))
             else Inr d) (\<lambda>d.
      sbind (if ie = GTPV1_IE_TEI_DATA_I then
               sbind (rd_bytes data (pos + 1) GTPV1_TEID_LENGTH) (\<lambda>b.
                 Inr (emit (hex (unat (teid2uint b)) @ '','') d\<lparr>teidd1_found := True\<rparr>))
             else Inr d) (\<lambda>d.
      sbind (if ie = GTPV1_IE_TEI_CONTROL_PLANE then
               sbind (rd_bytes data (pos + 1) GTPV1_TEID_LENGTH) (\<lambda>b.
                 Inr (emit (hex (unat (teid2uint b)) @ '','') d\<lparr>teidcp_found := True\<rparr>))
             else Inr d) (\<lambda>d.
      sbind (if ie = GTPV1_IE_END_USER_ADDRESS then
               sbind (rd_eua data pos) (\<lambda>a. Inr (case a of None \<Rightarrow> d | Some s \<Rightarrow> emit s d))
             else Inr d) (\<lambda>d.
      Inr (decode_skips ie d))))))"

text \<open>The columns of the GTP header, and of the tunnelled packet when the message is user data.\<close>

definition decode_header :: "buffer \<Rightarrow> nat \<Rightarrow> gtpv1hdr \<Rightarrow> fault + string" where
  "decode_header data gtp h =
     (let mt = unat (message_type h);
          s = (if mt = GTPV1_MT_G_PDU then ''gtp-u,'' else ''gtp-c,'') @
            dec (unat (GTP_VER (flag_typever h))) @ '','' @ dec (unat (GTP_TYPE (flag_typever h))) @ '','' @
            dec (unat (GTP_EXT_FLAG (flag_options h))) @ '','' @ dec (unat (GTP_SEQ_FLAG (flag_options h))) @ '','' @
            dec (unat (GTP_NPDU_FLAG (flag_options h))) @ '','' @
            dec mt @ ''['' @ mt_name (init_gtpv1_message_types ! mt) @ ''],'' @
            dec (unat (gtp_length h)) @ '','' @ hex (unat (teid h)) @ '',''
      in if flag_options h \<noteq> 0 then
           sbind (rd_gtpv1hdropt data (gtp + GTPV1HDR_LEN)) (\<lambda>opt.
             Inr (s @ hex (unat (sequence_no opt)) @ '','' @ hex (unat (npdu_no opt)) @ '','' @
               hex (unat (next_exthdrtype opt))))
         else Inr (s @ '',,''))"

definition decode_gtp_packet :: "(int \<Rightarrow> string) \<Rightarrow> nat \<Rightarrow> packet \<Rightarrow> (fault + string) option" where
  "decode_gtp_packet ctime fuel pkt =
     (let (header, data) = pkt;
          stamp = butlast (ctime (ts_sec header)) @ '' '' @ dec9 (nat (ts_sec header mod 2 ^ 32)) @ '' usec:'' in
      case gtpv1_get_header (caplen header) data of
        Inl f \<Rightarrow> Some (Inl f)
      | Inr None \<Rightarrow> Some (Inr (stamp @ ''not-gtp'' @ [CHR 0x0A]))
      | Inr (Some off) \<Rightarrow>
          let gtp = unat off in
          (case sbind (rd_gtpv1hdr data gtp) (\<lambda>h. sbind (decode_header data gtp h) (\<lambda>s. Inr (h, s))) of
             Inl f \<Rightarrow> Some (Inl f)
           | Inr (h, s) \<Rightarrow>
               if unat (message_type h) = GTPV1_MT_G_PDU then
                 Some (sbind (rd32 data (gtp + first_offset h + 12)) (\<lambda>src.
                   sbind (rd32 data (gtp + first_offset h + 16)) (\<lambda>dst.
                     Inr (stamp @ s @ '','' @ inet_ntoa src @ '','' @ inet_ntoa dst @ [CHR 0x0A]))))
               else map_option (\<lambda>r. sbind r (\<lambda>d. Inr (out d @ [CHR 0x0A])))
                 (ie_loop fuel data gtp (unat (caplen header)) (unat (gtp_length h)) (decode_visit data gtp)
                   (first_offset h)
                   \<lparr>out = stamp @ s @ '',,'', imsi_found = False, teidd1_found = False, teidcp_found = False\<rparr>)))"

section \<open>gtpimsieua\<close>

text \<open>
  The three parallel arrays as a list of entries. A tunnel identifier of zero marks an entry that is free;
  an entry whose time is more than \<open>IMSI_TIMEOUT\<close> seconds old is reused.
\<close>

abbreviation (input) IMSI_MAP_SIZE :: nat where "IMSI_MAP_SIZE \<equiv> 10000000"
abbreviation (input) IMSI_TIMEOUT :: int where "IMSI_TIMEOUT \<equiv> 300"

record imsi_entry =
  imsi_map :: u32
  imsi_time :: int
  imsi_array :: string

definition zero_imsi_entry :: imsi_entry where
  "zero_imsi_entry = \<lparr>imsi_map = 0, imsi_time = 0, imsi_array = []\<rparr>"

definition init_imsi_map :: "imsi_entry list" where
  "init_imsi_map = replicate IMSI_MAP_SIZE zero_imsi_entry"

fun imsi_store :: "u32 \<Rightarrow> int \<Rightarrow> string \<Rightarrow> imsi_entry list \<Rightarrow> imsi_entry list" where
  "imsi_store t now imsi [] = []"
| "imsi_store t now imsi (e # es) =
     (if imsi_map e = 0 \<or> imsi_time e + IMSI_TIMEOUT < now
      then \<lparr>imsi_map = t, imsi_time = now, imsi_array = imsi\<rparr> # es else e # imsi_store t now imsi es)"

fun imsi_take :: "u32 \<Rightarrow> imsi_entry list \<Rightarrow> string option \<times> imsi_entry list" where
  "imsi_take t [] = (None, [])"
| "imsi_take t (e # es) =
     (if imsi_map e = t then (Some (imsi_array e), e\<lparr>imsi_map := 0\<rparr> # es)
      else let (r, es) = imsi_take t es in (r, e # es))"

record imsi_state =
  table :: "imsi_entry list"
  printed :: string
  imsistr :: string

definition imsieua_visit :: "int \<Rightarrow> pcap_pkthdr \<Rightarrow> gtpv1hdr \<Rightarrow> buffer \<Rightarrow> nat \<Rightarrow> nat \<Rightarrow> nat \<Rightarrow> imsi_state \<Rightarrow>
    fault + imsi_state" where
  "imsieua_visit now header h data gtp ie offset s =
     (let pos = gtp + offset; mt = unat (message_type h) in
      sbind (if ie = GTPV1_IE_IMSI then
               sbind (rd_bytes data (pos + 1) GTPV1_IMSI_LENGTH) (\<lambda>b. sbind (imsi2str 16 b) (\<lambda>i.
                 Inr (s\<lparr>imsistr := i\<rparr>)))
             else Inr s) (\<lambda>s.
      sbind (if ie = GTPV1_IE_TEI_CONTROL_PLANE \<and> mt = GTPV1_MT_CREATE_PDP_CONTEXT_REQUEST then
               sbind (rd_bytes data (pos + 1) GTPV1_TEID_LENGTH) (\<lambda>b.
                 Inr (s\<lparr>table := imsi_store (teid2uint b) now (imsistr s) (table s)\<rparr>))
             else Inr s) (\<lambda>s.
      if ie = GTPV1_IE_END_USER_ADDRESS then
        sbind (rd_eua data pos) (\<lambda>a. Inr (case a of None \<Rightarrow> s
          | Some addr \<Rightarrow>
              let (found, table') = (if mt = GTPV1_MT_CREATE_PDP_CONTEXT_RESPONSE
                    then imsi_take (teid h) (table s) else (None, table s))
              in s\<lparr>table := table', printed := printed s @ dec (nat (ts_sec header mod 2 ^ 64)) @ '','' @
                   dec (nat (ts_usec header mod 2 ^ 32)) @ '','' @ addr @
                   (case found of None \<Rightarrow> [] | Some i \<Rightarrow> '','' @ i) @ [CHR 0x0A]\<rparr>))
      else Inr s)))"

definition imsieua_decode_gtp_packet ::
    "int \<Rightarrow> nat \<Rightarrow> packet \<Rightarrow> imsi_entry list \<times> string \<Rightarrow> (fault + imsi_entry list \<times> string) option" where
  "imsieua_decode_gtp_packet now fuel pkt s =
     (let (header, data) = pkt in
      case sbind (gtpv1_get_header (caplen header) data) (\<lambda>p. case p of None \<Rightarrow> Inr None
          | Some off \<Rightarrow> sbind (rd_gtpv1hdr data (unat off)) (\<lambda>h. Inr (Some (unat off, h)))) of
        Inl f \<Rightarrow> Some (Inl f)
      | Inr None \<Rightarrow> Some (Inr s)
      | Inr (Some (gtp, h)) \<Rightarrow>
          if unat (message_type h) \<noteq> GTPV1_MT_CREATE_PDP_CONTEXT_REQUEST \<and>
             unat (message_type h) \<noteq> GTPV1_MT_CREATE_PDP_CONTEXT_RESPONSE then Some (Inr s)
          else map_option (\<lambda>r. sbind r (\<lambda>s. Inr (table s, printed s)))
            (ie_loop fuel data gtp (unat (caplen header)) (unat (gtp_length h))
              (imsieua_visit now header h data gtp) (first_offset h)
              \<lparr>table = fst s, printed = snd s, imsistr = []\<rparr>))"

section \<open>The main functions\<close>

text \<open>
  \<open>decodegtp\<close> prints a line of headings and then what it decodes, packet by packet; a fault or a packet that is never
  decoded ends it. The packets of the file, or \<open>None\<close> when it cannot be opened, are a parameter.
\<close>

fun decode_packets :: "(int \<Rightarrow> string) \<Rightarrow> nat \<Rightarrow> packet list \<Rightarrow> string \<Rightarrow> (fault + string) option" where
  "decode_packets ctime fuel [] s = Some (Inr s)"
| "decode_packets ctime fuel (p # ps) s =
     (case decode_gtp_packet ctime fuel p of
        None \<Rightarrow> None
      | Some (Inl f) \<Rightarrow> Some (Inl f)
      | Some (Inr line) \<Rightarrow> decode_packets ctime fuel ps (s @ line))"

definition decode_main :: "(int \<Rightarrow> string) \<Rightarrow> nat \<Rightarrow> (string \<Rightarrow> packet list option) \<Rightarrow> string list \<Rightarrow>
    (fault + int \<times> string) option" where
  "decode_main ctime fuel input argv =
     (case argv of
        [_, pcap_file_name] \<Rightarrow>
          let headings = ''gtp,version,type,f_exthdr,f_seqno,f_npdu,msgtype,length,teid,seqno,npdu,nexttype,src,dest'' @ [CHR 0x0A] in
          (case input pcap_file_name of
             None \<Rightarrow> Some (Inr (2, headings))
           | Some pkts \<Rightarrow> map_option (\<lambda>r. sbind r (\<lambda>s. Inr (0, s))) (decode_packets ctime fuel pkts headings))
      | _ \<Rightarrow> Some (Inr (1, [])))"

text \<open>
  \<open>gtpimsieua\<close> reads an interface or a file; each packet comes with the time at which it is decoded. The table is
  initialised before the arguments are looked at.
\<close>

fun imsieua_packets :: "nat \<Rightarrow> (int \<times> packet) list \<Rightarrow> imsi_entry list \<times> string \<Rightarrow>
    (fault + imsi_entry list \<times> string) option" where
  "imsieua_packets fuel [] s = Some (Inr s)"
| "imsieua_packets fuel ((now, p) # ps) s =
     (case imsieua_decode_gtp_packet now fuel p s of
        None \<Rightarrow> None
      | Some (Inl f) \<Rightarrow> Some (Inl f)
      | Some (Inr s) \<Rightarrow> imsieua_packets fuel ps s)"

definition imsieua_main :: "nat \<Rightarrow> (string \<Rightarrow> (int \<times> packet) list option) \<Rightarrow> (string \<Rightarrow> (int \<times> packet) list option) \<Rightarrow>
    string list \<Rightarrow> (fault + int \<times> string) option" where
  "imsieua_main fuel live offline argv =
     (case argv of
        [_, mode, name] \<Rightarrow>
          if mode = ''-i'' \<or> mode = ''-f'' then
            (case (if mode = ''-i'' then live else offline) name of
               None \<Rightarrow> Some (Inr (2, []))
             | Some pkts \<Rightarrow> map_option (\<lambda>r. sbind r (\<lambda>(_, s). Inr (0, s))) (imsieua_packets fuel pkts (init_imsi_map, [])))
          else Some (Inr (1, []))
      | _ \<Rightarrow> Some (Inr (1, [])))"

section \<open>Lemmas on the walk\<close>

text \<open>
  An element over which the walk does not advance: its entry in the table has no header, and its length is
  zero. A known element is none.
\<close>

definition stuck_ie :: "buffer \<Rightarrow> nat \<Rightarrow> bool" where
  "stuck_ie data pos \<longleftrightarrow> pos < length data \<and>
     header_length (init_gtpv1_information_elements ! unat (data ! pos)) = 0 \<and>
     (128 \<le> unat (data ! pos) \<longrightarrow> pos + 2 < length data \<and> be16 (data ! (pos + 1)) (data ! (pos + 2)) = 0)"

lemma unat_byte_256: "unat (b :: byte) < 256"
  using unsigned_less [where ?'a = nat and w = b] by simp

lemma header_length_0: "i < 256 \<Longrightarrow> header_length (init_gtpv1_information_elements ! i) = 0 \<longleftrightarrow> \<not> known_ie i"
  using table_ie_known(2) [of i] table_ie_unknown [of i] by (cases "known_ie i") (simp_all add: zero_ie_def)

lemma ie_step_continue:
  assumes "ie_step data gtp cap len visit offset acc = Inr (Continue o' acc')"
  shows "o' < cap" "offset \<le> o'" "\<not> stuck_ie data (gtp + offset) \<Longrightarrow> offset < o'"
proof -
  obtain ie where ie: "rd8 data (gtp + offset) = Inr ie"
    using assms by (cases "rd8 data (gtp + offset)") (simp_all add: ie_step_def)
  then have pos: "gtp + offset < length data" "ie = data ! (gtp + offset)"
    by (simp_all add: rd8_def split: if_splits)
  define e where "e = init_gtpv1_information_elements ! unat ie"
  obtain body where b: "(if unat ie \<ge> 128 then sbind (rd16 data (gtp + offset + 1)) (\<lambda>l. Inr (unat l))
      else Inr (body_length e)) = Inr body" and o': "o' = offset + header_length e + body" "o' < cap"
    using assms unfolding ie_step_def ie sbind_simps Let_def e_def [symmetric]
    by (auto simp: sbind_Inr_iff split: if_splits)
  show "o' < cap" "offset \<le> o'" using o' by simp_all
  assume n: "\<not> stuck_ie data (gtp + offset)"
  show "offset < o'"
  proof (rule ccontr)
    assume "\<not> offset < o'"
    then have z: "header_length e = 0" "body = 0" using o' by simp_all
    have "128 \<le> unat ie \<longrightarrow> gtp + offset + 2 < length data \<and>
        be16 (data ! (gtp + offset + 1)) (data ! (gtp + offset + 2)) = 0"
      using b z(2) by (auto simp: rd16_def rd8_def sbind_Inr_iff unat_eq_0 split: if_splits)
    then show False using n z(1) pos by (simp add: stuck_ie_def e_def)
  qed
qed

text \<open>The offsets that the walk comes to, whatever is done with the elements.\<close>

definition ie_next :: "buffer \<Rightarrow> nat \<Rightarrow> nat \<Rightarrow> nat \<Rightarrow> nat \<Rightarrow> nat option" where
  "ie_next data gtp cap len offset =
     (case ie_step data gtp cap len (\<lambda>_ _ a. Inr a) offset () of Inr (Continue k _) \<Rightarrow> Some k | _ \<Rightarrow> None)"

inductive reaches :: "buffer \<Rightarrow> nat \<Rightarrow> nat \<Rightarrow> nat \<Rightarrow> nat \<Rightarrow> nat \<Rightarrow> bool" for data gtp cap len where
  here: "reaches data gtp cap len k k"
| further: "ie_next data gtp cap len k = Some m \<Longrightarrow> reaches data gtp cap len m n \<Longrightarrow> reaches data gtp cap len k n"

lemma ie_step_next:
  assumes "ie_step data gtp cap len visit offset acc = Inr (Continue k acc')"
  shows "ie_next data gtp cap len offset = Some k"
proof -
  obtain ie where ie: "rd8 data (gtp + offset) = Inr ie"
    using assms by (cases "rd8 data (gtp + offset)") (simp_all add: ie_step_def)
  define e where "e = init_gtpv1_information_elements ! unat ie"
  obtain body where b: "(if unat ie \<ge> 128 then sbind (rd16 data (gtp + offset + 1)) (\<lambda>l. Inr (unat l))
      else Inr (body_length e)) = Inr body" and h: "\<not> offset + header_length e \<ge> cap"
    using assms unfolding ie_step_def ie sbind_simps Let_def e_def [symmetric]
    by (auto simp: sbind_Inr_iff split: if_splits)
  show ?thesis
    using assms h unfolding ie_next_def ie_step_def ie sbind_simps Let_def e_def [symmetric] b
    by (auto simp: sbind_Inr_iff split: if_splits)
qed

lemma ie_loop_returns:
  assumes "\<And>k. reaches data gtp cap len offset k \<Longrightarrow> \<not> stuck_ie data (gtp + k)" "cap - offset < fuel"
  shows "\<exists>r. ie_loop fuel data gtp cap len visit offset acc = Some r"
  using assms
proof (induction fuel arbitrary: offset acc)
  case (Suc fuel)
  show ?case
  proof (cases "offset < cap")
    case True
    show ?thesis
    proof (cases "ie_step data gtp cap len visit offset acc")
      case (Inr x)
      show ?thesis
      proof (cases x)
        case (Continue k acc')
        note c = ie_step_continue [OF Inr [unfolded Continue]]
        note n = ie_step_next [OF Inr [unfolded Continue]]
        have lt: "offset < k" using c(3) Suc.prems(1) reaches.here by blast
        have "\<exists>r. ie_loop fuel data gtp cap len visit k acc' = Some r"
        proof (rule Suc.IH)
          show "\<not> stuck_ie data (gtp + m)" if "reaches data gtp cap len k m" for m
            using Suc.prems(1) reaches.further [OF n that] by blast
          show "cap - k < fuel" using Suc.prems(2) lt True by simp
        qed
        then show ?thesis using True Inr Continue by simp
      qed (use True Inr in simp)
    qed (use True in simp)
  qed simp
qed simp

lemma ie_step_stuck:
  assumes "stuck_ie data (gtp + offset)" "offset < cap" "offset < 8 + len"
    "visit (unat (data ! (gtp + offset))) offset acc = Inr acc'"
  shows "ie_step data gtp cap len visit offset acc = Inr (Continue offset acc')"
proof -
  define ie where "ie = data ! (gtp + offset)"
  have s: "gtp + offset < length data" "header_length (init_gtpv1_information_elements ! unat ie) = 0"
    "128 \<le> unat ie \<Longrightarrow> rd16 data (gtp + offset + 1) = Inr 0"
    using assms(1) by (auto simp: stuck_ie_def ie_def rd16_def rd8_def)
  have b: "body_length (init_gtpv1_information_elements ! unat ie) = 0"
    using s(2) header_length_0 [of "unat ie"] table_ie_unknown [of "unat ie"] unat_byte_256 [of ie]
    by (simp add: zero_ie_def)
  have r: "rd8 data (gtp + offset) = Inr ie" using s(1) by (simp add: rd8_def ie_def)
  show ?thesis
    unfolding ie_step_def r sbind_simps Let_def s(2)
    using s(3) b assms(2-4) by (simp add: ie_def [symmetric])
qed

lemma ie_loop_stuck:
  assumes "stuck_ie data (gtp + offset)" "offset < cap" "offset < 8 + len"
    "\<And>acc. \<exists>acc'. visit (unat (data ! (gtp + offset))) offset acc = Inr acc'"
  shows "ie_loop fuel data gtp cap len visit offset acc = None"
proof (induction fuel arbitrary: acc)
  case (Suc fuel)
  obtain acc' where "visit (unat (data ! (gtp + offset))) offset acc = Inr acc'" using assms(4) by blast
  then have "ie_step data gtp cap len visit offset acc = Inr (Continue offset acc')"
    by (rule ie_step_stuck [OF assms(1-3)])
  then show ?case using Suc.IH assms(2) by simp
qed simp

text \<open>
  An element as TS 29.060 codes it: its number, then for the numbers from 128 on the length of its body in two
  octets, then the body.
\<close>

definition coded :: "nat \<times> buffer \<Rightarrow> bool" where
  "coded e \<longleftrightarrow> (if fst e < 128 then 0 < tv_length (fst e) \<and> length (snd e) = tv_length (fst e)
     else tlv_number (fst e) \<and> length (snd e) < 65536)"

definition ie_octets :: "nat \<times> buffer \<Rightarrow> buffer" where
  "ie_octets e = of_nat (fst e) #
     (if fst e < 128 then [] else [of_nat (length (snd e) div 256), of_nat (length (snd e) mod 256)]) @ snd e"

text \<open>What is done with a list of elements that stand one after the other.\<close>

fun visit_all :: "(nat \<Rightarrow> nat \<Rightarrow> 'a \<Rightarrow> fault + 'a) \<Rightarrow> nat \<Rightarrow> (nat \<times> buffer) list \<Rightarrow> 'a \<Rightarrow> fault + 'a" where
  "visit_all visit offset [] acc = Inr acc"
| "visit_all visit offset (e # es) acc =
     sbind (visit (fst e) offset acc) (visit_all visit (offset + length (ie_octets e)) es)"

lemma coded_known:
  assumes "coded e"
  shows "known_ie (fst e)" "fst e < 256"
proof -
  show k: "known_ie (fst e)" using assms standard_known [of "fst e"] by (auto simp: coded_def split: if_splits)
  then show "fst e < 256" using ie_rows_distinct(2) unfolding known_ie_def by blast
qed

lemma be16_length: "n < 65536 \<Longrightarrow> unat (be16 (of_nat (n div 256)) (of_nat (n mod 256))) = n"
  by (simp add: unat_be16 unat_of_nat)

lemma octets_at_append:
  assumes "take (length (xs @ ys)) zs = xs @ ys"
  shows "take (length xs) zs = xs" "take (length ys) (drop (length xs) zs) = ys"
  using arg_cong [OF assms, of "take (length xs)"] arg_cong [OF assms, of "drop (length xs)"]
  by (simp_all add: min_def drop_take)

lemma octets_at_nth:
  assumes "take (length xs) (drop p data) = xs" and "i < length xs"
  shows "p + i < length data" "data ! (p + i) = xs ! i"
proof -
  have "length xs \<le> length data - p" using arg_cong [OF assms(1), of length] by simp
  then show "p + i < length data" using assms(2) by simp
  show "data ! (p + i) = xs ! i"
    using arg_cong [OF assms(1), of "\<lambda>ys. ys ! i"] assms(2) \<open>p + i < length data\<close> by simp
qed

text \<open>One step of the walk, on an element of the standard.\<close>

lemma ie_step_coded:
  assumes c: "coded e" and d: "take (length (ie_octets e)) (drop (gtp + offset) data) = ie_octets e"
    and cap: "offset + length (ie_octets e) < cap"
  shows "ie_step data gtp cap len visit offset acc = sbind (visit (fst e) offset acc) (\<lambda>acc.
    if offset + length (ie_octets e) \<ge> 8 + len then Inr (Break acc)
    else Inr (Continue (offset + length (ie_octets e)) acc))"
proof -
  note o = octets_at_nth [OF d]
  have ie: "rd8 data (gtp + offset) = Inr (of_nat (fst e))" using o [of 0] by (simp add: rd8_def ie_octets_def)
  have u: "unat (of_nat (fst e) :: byte) = fst e" using coded_known(2) [OF c] by (simp add: unat_of_nat)
  note tab = table_ie_known(2,3) [OF coded_known(1) [OF c]]
  have b: "(if fst e \<ge> 128 then sbind (rd16 data (gtp + offset + 1)) (\<lambda>l. Inr (unat l)) else Inr (tv_length (fst e))) =
      (Inr (length (snd e)) :: fault + nat)"
  proof (cases "fst e < 128")
    case False
    then have "rd8 data (gtp + offset + 1) = Inr (of_nat (length (snd e) div 256))"
      "rd8 data (gtp + offset + 1 + 1) = Inr (of_nat (length (snd e) mod 256))"
      using o [of 1] o [of 2] by (simp_all add: rd8_def ie_octets_def numeral_2_eq_2)
    then show ?thesis using False c by (simp add: rd16_def coded_def be16_length)
  qed (use c in \<open>simp add: coded_def\<close>)
  have n: "offset + (if fst e < 128 then 1 else 3) + length (snd e) = offset + length (ie_octets e)"
    by (simp add: ie_octets_def)
  then have "\<not> offset + (if fst e < 128 then 1 else 3) \<ge> cap" using cap by linarith
  then show ?thesis unfolding ie_step_def ie sbind_simps Let_def u tab b n using cap by simp
qed

lemma stuck_not_known: "stuck_ie data pos \<Longrightarrow> \<not> known_ie (unat (data ! pos))"
  using header_length_0 [OF unat_byte_256] by (simp add: stuck_ie_def)

lemma known_visited: "known_ie 2" "known_ie 16" "known_ie 17" "known_ie 128"
  unfolding known_ie_def ie_numbers by simp_all

lemma decode_visit_unknown: "\<not> known_ie ie \<Longrightarrow> decode_visit data gtp ie offset d = Inr (decode_skips ie d)"
  using known_visited by (auto simp: decode_visit_def Let_def)

lemma imsieua_visit_unknown: "\<not> known_ie ie \<Longrightarrow> imsieua_visit now header h data gtp ie offset s = Inr s"
  using known_visited by (auto simp: imsieua_visit_def Let_def)

section \<open>Properties\<close>

text \<open>The position of the first information element and the lengths that bound the walk.\<close>

definition first_ie :: "packet \<Rightarrow> nat \<Rightarrow> gtpv1hdr \<Rightarrow> bool" where
  "first_ie pkt gtp h \<longleftrightarrow> (\<exists>off. gtpv1_get_header (caplen (fst pkt)) (snd pkt) = Inr (Some off) \<and> gtp = unat off \<and>
     rd_gtpv1hdr (snd pkt) gtp = Inr h)"

text \<open>A packet on whose walk there is no element over which it does not advance.\<close>

definition decodable :: "packet \<Rightarrow> bool" where
  "decodable pkt \<longleftrightarrow> (\<forall>gtp h k. first_ie pkt gtp h \<longrightarrow>
     reaches (snd pkt) gtp (unat (caplen (fst pkt))) (unat (gtp_length h)) (first_offset h) k \<longrightarrow>
     \<not> stuck_ie (snd pkt) (gtp + k))"

lemma decodable_loop:
  assumes "decodable (header, data)" and "first_ie (header, data) gtp h" and "unat (caplen header) < fuel"
  shows "\<exists>r. ie_loop fuel data gtp (unat (caplen header)) (unat (gtp_length h)) visit (first_offset h) acc = Some r"
proof (rule ie_loop_returns)
  show "\<not> stuck_ie data (gtp + k)"
    if "reaches data gtp (unat (caplen header)) (unat (gtp_length h)) (first_offset h) k" for k
    using assms(1,2) that by (simp add: decodable_def)
  show "unat (caplen header) - first_offset h < fuel" using assms(3) by simp
qed

lemma decode_packet_returns:
  assumes "decodable (header, data)" and "unat (caplen header) < fuel"
  shows "\<exists>r. decode_gtp_packet ctime fuel (header, data) = Some r"
proof (cases "gtpv1_get_header (caplen header) data")
  case (Inr p)
  show ?thesis
  proof (cases p)
    case (Some off)
    show ?thesis
    proof (cases "sbind (rd_gtpv1hdr data (unat off)) (\<lambda>h. sbind (decode_header data (unat off) h) (\<lambda>s. Inr (h, s)))")
      case Inr': (Inr x)
      obtain h s where x: "x = (h, s)" by (cases x)
      then have "rd_gtpv1hdr data (unat off) = Inr h" using Inr' by (auto simp: sbind_Inr_iff)
      then have f: "first_ie (header, data) (unat off) h" using Inr Some by (simp add: first_ie_def)
      then show ?thesis
        by (simp add: decode_gtp_packet_def Let_def Inr Some Inr' [unfolded x] decodable_loop [OF assms(1) f assms(2)]
          del: ie_loop.simps)
    qed (simp add: decode_gtp_packet_def Let_def Inr Some)
  qed (simp add: decode_gtp_packet_def Inr)
qed (simp add: decode_gtp_packet_def)

lemma imsieua_packet_returns:
  assumes "decodable (header, data)" and "unat (caplen header) < fuel"
  shows "\<exists>r. imsieua_decode_gtp_packet now fuel (header, data) s = Some r"
proof (cases "sbind (gtpv1_get_header (caplen header) data) (\<lambda>p. case p of None \<Rightarrow> Inr None
          | Some off \<Rightarrow> sbind (rd_gtpv1hdr data (unat off)) (\<lambda>h. Inr (Some (unat off, h))))")
  case (Inr p)
  show ?thesis
  proof (cases p)
    case (Some x)
    obtain gtp h where x: "x = (gtp, h)" by (cases x)
    have f: "first_ie (header, data) gtp h"
      using Inr Some x by (auto simp: first_ie_def sbind_Inr_iff split: option.splits)
    show ?thesis
      by (simp add: imsieua_decode_gtp_packet_def Inr Some x decodable_loop [OF assms(1) f assms(2)] del: ie_loop.simps)
  qed (simp add: imsieua_decode_gtp_packet_def Inr)
qed (simp add: imsieua_decode_gtp_packet_def)

lemma decode_packets_return:
  assumes "\<forall>pkt \<in> set pkts. decodable pkt \<and> unat (caplen (fst pkt)) < fuel"
  shows "\<exists>r. decode_packets ctime fuel pkts s = Some r"
  using assms
proof (induction pkts arbitrary: s)
  case (Cons p ps)
  then obtain r where "decode_gtp_packet ctime fuel p = Some r"
    using decode_packet_returns [of "fst p" "snd p" fuel ctime] by auto
  then show ?case using Cons by (cases r) simp_all
qed simp

lemma imsieua_packets_return:
  assumes "\<forall>(now, pkt) \<in> set pkts. decodable pkt \<and> unat (caplen (fst pkt)) < fuel"
  shows "\<exists>r. imsieua_packets fuel pkts s = Some r"
  using assms
proof (induction pkts arbitrary: s)
  case (Cons q ps)
  obtain now p where q: "q = (now, p)" by (cases q)
  obtain r where "imsieua_decode_gtp_packet now fuel p s = Some r"
    using imsieua_packet_returns [of "fst p" "snd p" fuel now s] Cons.prems q by auto
  then show ?case using Cons q by (cases r) simp_all
qed simp

text \<open>
  C18: the decoders end. If no element that the walk over any packet of a capture comes to has an unknown type and the
  length zero, \<open>decodegtp\<close> and \<open>gtpimsieua\<close> are done with each packet after at most one step per
  captured octet, and with the capture: they end with what they print, or run into an access outside a packet,
  whatever else the packets hold.
\<close>

theorem decode_returns:
  assumes "\<forall>(now, pkt) \<in> set pkts. decodable pkt \<and> unat (caplen (fst pkt)) < fuel"
  shows "(input name = Some (map snd pkts) \<longrightarrow> (\<exists>r. decode_main ctime fuel input [prog, name] = Some r)) \<and>
    (offline name = Some pkts \<longrightarrow> (\<exists>r. imsieua_main fuel live offline [prog, ''-f'', name] = Some r))"
proof -
  have "\<forall>pkt \<in> set (map snd pkts). decodable pkt \<and> unat (caplen (fst pkt)) < fuel" using assms by auto
  then show ?thesis
    using decode_packets_return imsieua_packets_return [OF assms]
    by (fastforce simp: decode_main_def imsieua_main_def Let_def)
qed

text \<open>
  C39: decoding can hang. A GTP-C message whose first element has a type the table does not know and, from
  type 128 on, the length zero, is never decoded: the walk does not advance, neither in \<open>decodegtp\<close> nor,
  for the messages it looks at, in \<open>gtpimsieua\<close>.
\<close>

theorem decode_hangs:
  assumes "first_ie (header, data) gtp h" and "stuck_ie data (gtp + first_offset h)"
    and "first_offset h < unat (caplen header)" and "first_offset h < 8 + unat (gtp_length h)"
    and "message_type h \<noteq> 255" and "decode_header data gtp h = Inr s"
  shows "decode_gtp_packet ctime fuel (header, data) = None \<and>
    (unat (message_type h) \<in> {16, 17} \<longrightarrow> imsieua_decode_gtp_packet now fuel (header, data) tbl = None)"
proof -
  obtain off where off: "gtpv1_get_header (caplen header) data = Inr (Some off)" "gtp = unat off"
      "rd_gtpv1hdr data gtp = Inr h"
    using assms(1) by (auto simp: first_ie_def)
  note u = stuck_not_known [OF assms(2)]
  have mt: "unat (message_type h) \<noteq> 255" using assms(5) by (simp add: word_unat_eq_iff)
  have a: "ie_loop fuel data gtp (unat (caplen header)) (unat (gtp_length h)) (decode_visit data gtp) (first_offset h) d =
      None" for d
    by (rule ie_loop_stuck [OF assms(2-4)]) (simp add: decode_visit_unknown [OF u])
  have b: "ie_loop fuel data gtp (unat (caplen header)) (unat (gtp_length h)) (imsieua_visit now header h data gtp)
      (first_offset h) d = None" for d
    by (rule ie_loop_stuck [OF assms(2-4)]) (simp add: imsieua_visit_unknown [OF u])
  show ?thesis
    using a b mt off assms(6) by (auto simp: decode_gtp_packet_def imsieua_decode_gtp_packet_def Let_def)
qed





text \<open>A context creation request whose only element has type 0, and one with a cause.\<close>

definition gtpc_frame :: "buffer \<Rightarrow> buffer" where
  "gtpc_frame ies = mk_frame (replicate 12 1) None ([0x45] @ replicate 8 0 @ [17] @ replicate 10 0)
     2123 2123 (replicate 4 0) ([0x30, 16, 0, of_nat (length ies), 0, 0, 0, 7] @ ies)"

theorem decode_hangs_witness:
  "decode_gtp_packet (\<lambda>_. ''now'') 1000 (\<lparr>ts_sec = 1, ts_usec = 2, caplen = 54, pkt_len = 54\<rparr>,
     gtpc_frame [0, 1, 2, 3]) = None"
proof -
  have g: "gtpv1_get_header 54 (gtpc_frame [0, 1, 2, 3]) = Inr (Some 42)" by code_simp
  define h where "h = \<lparr>flag_options = 0, flag_reserved = 0, flag_typever = 3, message_type = 16, gtp_length = 4, teid = 7\<rparr>"
  have r: "rd_gtpv1hdr (gtpc_frame [0, 1, 2, 3]) 42 = Inr h" unfolding h_def by code_simp
  have f: "first_ie (\<lparr>ts_sec = 1, ts_usec = 2, caplen = 54, pkt_len = 54\<rparr>, gtpc_frame [0, 1, 2, 3]) 42 h"
    using g r by (simp add: first_ie_def)
  have o: "first_offset h = 8" by (simp add: first_offset_def h_def)
  have b: "gtpc_frame [0, 1, 2, 3] ! 50 = 0" "length (gtpc_frame [0, 1, 2, 3]) = 54" by code_simp+
  have "\<not> known_ie 0" unfolding known_ie_def ie_numbers by simp
  then have s: "stuck_ie (gtpc_frame [0, 1, 2, 3]) (42 + first_offset h)"
    using header_length_0 [of 0] by (simp add: stuck_ie_def o b)
  have "\<exists>t. decode_header (gtpc_frame [0, 1, 2, 3]) 42 h = Inr t"
    by (simp add: decode_header_def h_def Let_def)
  then obtain t where t: "decode_header (gtpc_frame [0, 1, 2, 3]) 42 h = Inr t" by blast
  have n: "(16 :: byte) \<noteq> 255" by simp
  show ?thesis
    using decode_hangs [OF f s _ _ _ t, of "\<lambda>_. ''now''" 1000] o n by (simp add: h_def)
qed

inductive_cases reachesE: "reaches data gtp cap len k n"

theorem decode_returns_witness:
  "\<exists>r. decode_main (\<lambda>_. ''now'') 61 (\<lambda>_. Some [(\<lparr>ts_sec = 1, ts_usec = 2, caplen = 60, pkt_len = 60\<rparr>,
     gtpc_frame [1, 128] @ replicate 8 0)]) [''decodegtp'', ''f''] = Some r"
proof -
  let ?d = "gtpc_frame [1, 128] @ replicate 8 0"
  define h where "h = \<lparr>flag_options = 0, flag_reserved = 0, flag_typever = 3, message_type = 16, gtp_length = 2, teid = 7\<rparr>"
  have g: "gtpv1_get_header 60 ?d = Inr (Some 42)" by code_simp
  have r: "rd_gtpv1hdr ?d 42 = Inr h" unfolding h_def by code_simp
  have f: "gtp = 42 \<and> h' = h" if "first_ie (\<lparr>ts_sec = 1, ts_usec = 2, caplen = 60, pkt_len = 60\<rparr>, ?d) gtp h'" for gtp h'
    using that g r by (auto simp: first_ie_def)
  have k: "known_ie 1" unfolding known_ie_def ie_numbers by simp
  have row: "init_gtpv1_information_elements ! 1 =
      \<lparr>ie_id = 1, grouped = 0, header_length = 1, body_length = 1, ie_name = ''Cause''\<rparr>"
    by (rule table_ie_row) (simp add: ie_rows_def ie_rows_1_def)
  have b: "rd8 ?d 50 = Inr 1" by code_simp
  have n: "ie_next ?d 42 60 2 8 = None"
    using b row by (simp add: ie_next_def ie_step_def)
  have "\<not> stuck_ie ?d 50" using b k header_length_0 [of 1] by (auto simp: stuck_ie_def rd8_def split: if_splits)
  then have "\<not> stuck_ie ?d (gtp + m)" if "first_ie (\<lparr>ts_sec = 1, ts_usec = 2, caplen = 60, pkt_len = 60\<rparr>, ?d) gtp h'"
      "reaches ?d gtp 60 (unat (gtp_length h')) (first_offset h') m" for gtp h' m
    using f [OF that(1)] that(2) n by (auto simp: first_offset_def h_def elim: reachesE)
  then have d: "decodable (\<lparr>ts_sec = 1, ts_usec = 2, caplen = 60, pkt_len = 60\<rparr>, ?d)" by (simp add: decodable_def)
  show ?thesis
    using decode_returns [of "[(0, (\<lparr>ts_sec = 1, ts_usec = 2, caplen = 60, pkt_len = 60\<rparr>, ?d))]" 61
      "\<lambda>_. Some [(\<lparr>ts_sec = 1, ts_usec = 2, caplen = 60, pkt_len = 60\<rparr>, ?d)]" "''f''" "\<lambda>_. ''now''" "''decodegtp''"] d
    by simp
qed

end
