(* ===== verification/Filter_Programs.thy ===== *)
theory Filter_Programs
  imports Session_Packets
begin

text \<open>
  The programs of \<open>src/filterprograms\<close> that read a capture file and write or count its packets:
  \<open>chunkpcapfile.c\<close>, \<open>usectstamp.c\<close>, \<open>pcapfilestats.c\<close>, \<open>gtpuntunnel.c\<close> and \<open>gtpaddr.c\<close>. The global
  variables of each are a record; the packets of the input file (\<open>None\<close> when it cannot be opened) and
  whether an output file can be opened are parameters of the main functions.
\<close>

section \<open>Output files\<close>

text \<open>What the programs share: the packets dumped so far, oldest first, and undefined behaviour met.\<close>

record outfile =
  written :: "packet list"
  problems :: "fault list"

definition no_output :: outfile where
  "no_output = \<lparr>written = [], problems = []\<rparr>"

definition dump_to :: "bool \<Rightarrow> packet \<Rightarrow> 'a outfile_scheme \<Rightarrow> 'a outfile_scheme" where
  "dump_to is_open pkt s =
     (if \<not> is_open then s\<lparr>problems := Null_pointer # problems s\<rparr>
      else if \<not> whole pkt then s\<lparr>problems := Out_of_bounds # problems s\<rparr>
      else s\<lparr>written := written s @ [captured pkt]\<rparr>)"

section \<open>chunkpcapfile\<close>

abbreviation (input) MIN_CHUNK_SIZE :: nat where "MIN_CHUNK_SIZE \<equiv> 0x100000"

text \<open>\<open>struct pcap_pkthdr\<close>: a \<open>struct timeval\<close> of two 64-bit fields and two 32-bit lengths.\<close>

abbreviation (input) PKTHDR_SIZE :: u64 where "PKTHDR_SIZE \<equiv> 24"

record chunk_state =
  chunk_dumper :: "(string \<times> packet list) option"
  chunk_closed :: "(string \<times> packet list) list"
  chunk_no :: u64
  chunk_used :: u64
  chunk_problems :: "fault list"
  chunk_exit :: "int option"

text \<open>
  \<open>chunk_dumper\<close> is the open dumper, the name of its file with the packets in it, and \<open>chunk_closed\<close> the
  files written before, oldest first. \<open>chunk_exit\<close> is the argument of a call of \<open>exit\<close>, after which no
  packet is handled. \<open>%06lu\<close> pads the number with zeroes.
\<close>

definition dec6 :: "nat \<Rightarrow> string" where
  "dec6 n = padded 6 n"

definition chunk_name :: "string \<Rightarrow> u64 \<Rightarrow> string" where
  "chunk_name out_file n = out_file @ ''_'' @ dec6 (unat n) @ ''.pcap''"

definition chunk_fault :: "fault \<Rightarrow> chunk_state \<Rightarrow> chunk_state" where
  "chunk_fault f s = s\<lparr>chunk_problems := f # chunk_problems s\<rparr>"

definition pcap_dump_close :: "chunk_state \<Rightarrow> chunk_state" where
  "pcap_dump_close s =
     (case chunk_dumper s of None \<Rightarrow> chunk_fault Null_pointer s
      | Some f \<Rightarrow> s\<lparr>chunk_closed := chunk_closed s @ [f], chunk_dumper := None\<rparr>)"

definition chunk_close :: "u64 \<Rightarrow> packet \<Rightarrow> chunk_state \<Rightarrow> chunk_state" where
  "chunk_close max_size pkt s =
     (if chunk_used s + PKTHDR_SIZE + ucast (caplen (fst pkt)) > max_size
      then (pcap_dump_close s)\<lparr>chunk_used := 0\<rparr> else s)"

definition chunk_start :: "(string \<Rightarrow> bool) \<Rightarrow> string \<Rightarrow> chunk_state \<Rightarrow> chunk_state" where
  "chunk_start can_open out_file s =
     (if chunk_dumper s \<noteq> None then s
      else
        let name = chunk_name out_file (chunk_no s);
            s = (case str_into FILENAME_MAX name of Inl f \<Rightarrow> chunk_fault f s | Inr _ \<Rightarrow> s);
            s = s\<lparr>chunk_no := chunk_no s + 1\<rparr> in
        if can_open name then s\<lparr>chunk_dumper := Some (name, [])\<rparr> else s\<lparr>chunk_exit := Some 1\<rparr>)"

definition chunk_dump :: "packet \<Rightarrow> chunk_state \<Rightarrow> chunk_state" where
  "chunk_dump pkt s =
     (case chunk_dumper s of None \<Rightarrow> chunk_fault Null_pointer s
      | Some (name, ps) \<Rightarrow>
          if whole pkt then s\<lparr>chunk_dumper := Some (name, ps @ [captured pkt])\<rparr>
          else chunk_fault Out_of_bounds s)"

definition chunk_packet_handler :: "(string \<Rightarrow> bool) \<Rightarrow> string \<Rightarrow> u64 \<Rightarrow> packet \<Rightarrow> chunk_state \<Rightarrow> chunk_state" where
  "chunk_packet_handler can_open out_file max_size pkt s =
     (if chunk_exit s \<noteq> None then s
      else
        let s = chunk_start can_open out_file (chunk_close max_size pkt s) in
        if chunk_exit s \<noteq> None then s
        else let s = chunk_dump pkt s
          in s\<lparr>chunk_used := chunk_used s + (PKTHDR_SIZE + ucast (caplen (fst pkt)))\<rparr>)"

definition chunk_init :: chunk_state where
  "chunk_init = \<lparr>chunk_dumper = None, chunk_closed = [], chunk_no = 0, chunk_used = 0,
     chunk_problems = [], chunk_exit = None\<rparr>"

definition chunk_main :: "(string \<Rightarrow> packet list option) \<Rightarrow> (string \<Rightarrow> bool) \<Rightarrow> string list \<Rightarrow> int \<times> chunk_state" where
  "chunk_main input can_open args =
     (case args of
        [_, in_file, out_file, chunk_max_size] \<Rightarrow>
          let max_size = of_int (atol chunk_max_size) :: u64 in
          if unat max_size < MIN_CHUNK_SIZE then (3, chunk_init)
          else (case input in_file of
             None \<Rightarrow> (4, chunk_init)
           | Some pkts \<Rightarrow>
               let s = pcap_loop (chunk_packet_handler can_open out_file max_size) pkts chunk_init
               in (case chunk_exit s of Some c \<Rightarrow> (c, s)
                   | None \<Rightarrow> (0, if chunk_dumper s \<noteq> None then pcap_dump_close s else s)))
      | _ \<Rightarrow> (2, chunk_init))"

section \<open>usectstamp\<close>

record stamp_state = outfile +
  tv_sec :: int
  tv_usec :: int

definition stamp_next :: "pcap_pkthdr \<Rightarrow> stamp_state \<Rightarrow> stamp_state" where
  "stamp_next header s =
     (if tv_sec s = 0 then s\<lparr>tv_sec := ts_sec header, tv_usec := ts_usec header\<rparr>
      else
        let s = s\<lparr>tv_usec := tv_usec s + 1\<rparr>
        in if tv_usec s \<ge> 1000000 then s\<lparr>tv_sec := tv_sec s + 1, tv_usec := 0\<rparr> else s)"

definition stamp_packet_handler :: "bool \<Rightarrow> packet \<Rightarrow> stamp_state \<Rightarrow> stamp_state" where
  "stamp_packet_handler is_open pkt s =
     (let s = stamp_next (fst pkt) s
      in dump_to is_open ((fst pkt)\<lparr>ts_sec := tv_sec s, ts_usec := tv_usec s\<rparr>, snd pkt) s)"

definition stamp_init :: stamp_state where
  "stamp_init = \<lparr>written = [], problems = [], tv_sec = 0, tv_usec = 0\<rparr>"

text \<open>The test behind \<open>pcap_dump_open\<close> looks at the input handle, so a failed open is not noticed.\<close>

definition stamp_main :: "(string \<Rightarrow> packet list option) \<Rightarrow> (string \<Rightarrow> bool) \<Rightarrow> string list \<Rightarrow> int \<times> stamp_state" where
  "stamp_main input can_open args =
     (case args of
        [_, in_file, out_file] \<Rightarrow>
          (case input in_file of
             None \<Rightarrow> (4, stamp_init)
           | Some pkts \<Rightarrow> (0, pcap_loop (stamp_packet_handler (can_open out_file)) pkts stamp_init))
      | _ \<Rightarrow> (2, stamp_init))"

section \<open>pcapfilestats\<close>

text \<open>A printed line: the counters and the two time stamps (their text is made by \<open>strftime\<close>).\<close>

record stats_state =
  packet_count :: u64
  byte_count :: u64
  first_timestamp :: "int \<times> int"
  last_timestamp :: "int \<times> int"
  stats_lines :: "(u64 \<times> u64 \<times> (int \<times> int) \<times> (int \<times> int)) list"

definition print_pcap_stats :: "stats_state \<Rightarrow> stats_state" where
  "print_pcap_stats s = s\<lparr>stats_lines := stats_lines s @
     [(packet_count s, byte_count s, first_timestamp s, last_timestamp s)]\<rparr>"

definition stats_packet_handler :: "packet \<Rightarrow> stats_state \<Rightarrow> stats_state" where
  "stats_packet_handler pkt s =
     (let header = fst pkt;
          s = (if packet_count s = 0 then s\<lparr>first_timestamp := (ts_sec header, ts_usec header)\<rparr> else s);
          s = s\<lparr>packet_count := packet_count s + 1, byte_count := byte_count s + ucast (pkt_len header)\<rparr>;
          s = s\<lparr>last_timestamp := (ts_sec header, ts_usec header)\<rparr>
      in if packet_count s mod 1000000 = 0 then print_pcap_stats s else s)"

definition stats_init :: stats_state where
  "stats_init = \<lparr>packet_count = 0, byte_count = 0, first_timestamp = (0, 0), last_timestamp = (0, 0), stats_lines = []\<rparr>"

definition stats_main :: "(string \<Rightarrow> packet list option) \<Rightarrow> string list \<Rightarrow> int \<times> stats_state" where
  "stats_main input args =
     (case args of
        [_, in_file] \<Rightarrow>
          (case input in_file of None \<Rightarrow> (2, stats_init)
           | Some pkts \<Rightarrow> (0, print_pcap_stats (pcap_loop stats_packet_handler pkts stats_init)))
      | _ \<Rightarrow> (1, stats_init))"

section \<open>gtpuntunnel\<close>

definition untunnel_packet_handler :: "packet \<Rightarrow> outfile \<Rightarrow> outfile" where
  "untunnel_packet_handler pkt s =
     (case pcapsession_untunnel_packet None (fst pkt) (snd pkt) of
        Inl f \<Rightarrow> dump_to True pkt (s\<lparr>problems := f # problems s\<rparr>)
      | Inr (_, header', data') \<Rightarrow> dump_to True (header', data') s)"

definition untunnel_main :: "(string \<Rightarrow> packet list option) \<Rightarrow> (string \<Rightarrow> bool) \<Rightarrow> string list \<Rightarrow> int \<times> outfile" where
  "untunnel_main input can_open args =
     (case args of
        [_, in_file, out_file] \<Rightarrow>
          (case input in_file of None \<Rightarrow> (4, no_output)
           | Some pkts \<Rightarrow>
               if \<not> can_open out_file then (5, no_output)
               else (0, pcap_loop untunnel_packet_handler pkts no_output))
      | _ \<Rightarrow> (2, no_output))"

section \<open>gtpaddr\<close>

text \<open>
  The addresses are compared and stored as the four octets in memory. \<open>replace_addr\<close> is the branch for user
  data: the inner source address is replaced if it is the old one, else the destination if it is.
\<close>

definition replace_addr :: "buffer \<Rightarrow> buffer \<Rightarrow> nat \<Rightarrow> buffer \<Rightarrow> fault + buffer" where
  "replace_addr old_ip new_ip ip data =
     sbind (rd_bytes data (ip + 12) 4) (\<lambda>src.
     if src = old_ip then wr_bytes data (ip + 12) new_ip
     else sbind (rd_bytes data (ip + 16) 4) (\<lambda>dst.
     if dst = old_ip then wr_bytes data (ip + 16) new_ip else Inr data))"

definition addr_rewrite :: "buffer \<Rightarrow> buffer \<Rightarrow> packet \<Rightarrow> fault + buffer" where
  "addr_rewrite old_ip new_ip pkt =
     (let (header, data) = pkt in
      sbind (gtpv1_get_header (caplen header) data) (\<lambda>p. case p of None \<Rightarrow> Inr data
      | Some off \<Rightarrow>
          sbind (rd_gtpv1hdr data (unat off)) (\<lambda>h.
          if GTP_EXT_FLAG (flag_options h) \<noteq> 0 then Inr data
          else
            let ip = unat off + GTPV1HDR_LEN + (if flag_options h \<noteq> 0 then GTPV1HDROPT_LEN else 0) in
            if unat (message_type h) = 255 then replace_addr old_ip new_ip ip data else Inr data)))"

definition addr_packet_handler :: "buffer \<Rightarrow> buffer \<Rightarrow> packet \<Rightarrow> outfile \<Rightarrow> outfile" where
  "addr_packet_handler old_ip new_ip pkt s =
     (case addr_rewrite old_ip new_ip pkt of
        Inl f \<Rightarrow> dump_to True pkt (s\<lparr>problems := f # problems s\<rparr>)
      | Inr data' \<Rightarrow> dump_to True (fst pkt, data') s)"

text \<open>\<open>inet_aton\<close> is a parameter: the four octets of an address, or \<open>None\<close> when the text is none.\<close>

definition addr_main :: "(string \<Rightarrow> buffer option) \<Rightarrow> (string \<Rightarrow> packet list option) \<Rightarrow> (string \<Rightarrow> bool) \<Rightarrow>
    string list \<Rightarrow> int \<times> outfile" where
  "addr_main inet_aton input can_open args =
     (case args of
        [_, in_file, out_file, old_name, new_name] \<Rightarrow>
          (case inet_aton old_name of None \<Rightarrow> (3, no_output)
           | Some old_ip \<Rightarrow>
          (case inet_aton new_name of None \<Rightarrow> (3, no_output)
           | Some new_ip \<Rightarrow>
          (case input in_file of None \<Rightarrow> (4, no_output)
           | Some pkts \<Rightarrow>
               if \<not> can_open out_file then (5, no_output)
               else (0, pcap_loop (addr_packet_handler old_ip new_ip) pkts no_output))))
      | _ \<Rightarrow> (2, no_output))"

section \<open>What the programs write\<close>

text \<open>
  The size the program counts for a list of packets, and the size of the capture file that holds them:
  a file header of 24 octets and 16 octets of header for each packet.
\<close>

definition counted_size :: "packet list \<Rightarrow> nat" where
  "counted_size ps = (\<Sum>p\<leftarrow>ps. 24 + unat (caplen (fst p)))"

definition disk_size :: "packet list \<Rightarrow> nat" where
  "disk_size ps = 24 + (\<Sum>p\<leftarrow>ps. 16 + unat (caplen (fst p)))"

definition all_chunks :: "chunk_state \<Rightarrow> (string \<times> packet list) list" where
  "all_chunks s = chunk_closed s @ (case chunk_dumper s of None \<Rightarrow> [] | Some f \<Rightarrow> [f])"

text \<open>Packets, an output name and a size on which the program meets no error.\<close>

definition chunk_input_ok :: "u64 \<Rightarrow> packet \<Rightarrow> bool" where
  "chunk_input_ok max_size pkt \<longleftrightarrow> whole pkt \<and> 24 + unat (caplen (fst pkt)) \<le> unat max_size"

definition chunk_output_ok :: "(string \<Rightarrow> bool) \<Rightarrow> string \<Rightarrow> u64 \<Rightarrow> bool" where
  "chunk_output_ok can_open out_file max_size \<longleftrightarrow> unat max_size < 2 ^ 63 \<and> length out_file + 26 < FILENAME_MAX \<and>
     (\<forall>n. can_open (chunk_name out_file n))"

text \<open>
  The invariant of the handler: the files are numbered from 0 without a gap, none is empty or larger than
  allowed, and \<open>chunk_used\<close> is the size counted for the open one.
\<close>

definition chunk_inv :: "string \<Rightarrow> u64 \<Rightarrow> chunk_state \<Rightarrow> bool" where
  "chunk_inv out_file max_size s \<longleftrightarrow> chunk_exit s = None \<and> chunk_problems s = [] \<and>
     chunk_no s = of_nat (length (all_chunks s)) \<and>
     map fst (all_chunks s) = map (\<lambda>i. chunk_name out_file (of_nat i)) [0..<length (all_chunks s)] \<and>
     (\<forall>f \<in> set (all_chunks s). snd f \<noteq> [] \<and> counted_size (snd f) \<le> unat max_size) \<and>
     (case chunk_dumper s of None \<Rightarrow> chunk_used s = 0 \<and> chunk_closed s = []
      | Some f \<Rightarrow> unat (chunk_used s) = counted_size (snd f))"

text \<open>The two things a packet can do: go to the open file, or to a new one.\<close>

definition same_chunk :: "u64 \<Rightarrow> packet \<Rightarrow> chunk_state \<Rightarrow> bool" where
  "same_chunk max_size pkt s \<longleftrightarrow> (case chunk_dumper s of None \<Rightarrow> False
     | Some f \<Rightarrow> counted_size (snd f) + 24 + unat (caplen (fst pkt)) \<le> unat max_size)"

lemma counted_size_snoc [simp]:
  "counted_size (ps @ [captured p]) = counted_size ps + (24 + unat (caplen (fst p)))"
  by (simp add: counted_size_def captured_def)

lemma counted_size_single [simp]: "counted_size [captured p] = 24 + unat (caplen (fst p))"
  by (simp add: counted_size_def captured_def)

lemma chunk_name_fits:
  assumes "length out_file + 26 < FILENAME_MAX"
  shows "str_into FILENAME_MAX (chunk_name out_file n) = Inr (chunk_name out_file n)"
proof -
  have "unat n < 2 ^ 64" by (rule order.strict_trans2 [OF unsigned_less]) simp
  then have "unat n < 10 ^ 20" by simp
  then have "length (dec (unat n)) \<le> 20" by (rule length_dec_le) simp
  then have "length (dec6 (unat n)) \<le> 20" by (simp add: dec6_def padded_def)
  then show ?thesis using assms by (simp add: str_into_def chunk_name_def)
qed

text \<open>The sum the handler compares does not wrap around.\<close>

lemma unat_chunk_sum:
  assumes "unat (u :: u64) < 2 ^ 63"
  shows "unat (u + PKTHDR_SIZE + ucast (cap :: u32)) = unat u + 24 + unat cap"
    and "unat (u + (PKTHDR_SIZE + ucast cap)) = unat u + 24 + unat cap"
proof -
  have b: "unat cap < 2 ^ 32" by (rule order.strict_trans2 [OF unsigned_less]) simp
  then have c: "unat (ucast cap :: u64) = unat cap" by (simp add: unsigned_ucast_eq take_bit_nat_eq_self)
  show "unat (u + PKTHDR_SIZE + ucast cap) = unat u + 24 + unat cap"
    using assms b by (simp add: unat_word_ariths c)
  then show "unat (u + (PKTHDR_SIZE + ucast cap)) = unat u + 24 + unat cap"
    by (simp add: add.assoc)
qed

lemma unat_pkt_size: "unat (PKTHDR_SIZE + ucast (cap :: u32)) = 24 + unat cap"
  using unat_chunk_sum(1) [of 0 cap] by simp

lemma chunk_used_bound:
  assumes "chunk_inv out_file max_size s" and "unat max_size < 2 ^ 63"
  shows "unat (chunk_used s) < 2 ^ 63"
  using assms by (auto simp: chunk_inv_def all_chunks_def split: option.splits)

lemma chunk_handler_same:
  assumes inv: "chunk_inv out_file max_size s" and out: "chunk_output_ok can_open out_file max_size"
    and p: "chunk_input_ok max_size pkt" and same: "same_chunk max_size pkt s"
    and f: "chunk_dumper s = Some (name, ps)"
  shows "chunk_packet_handler can_open out_file max_size pkt s =
    s\<lparr>chunk_dumper := Some (name, ps @ [captured pkt]),
      chunk_used := chunk_used s + (PKTHDR_SIZE + ucast (caplen (fst pkt)))\<rparr>"
proof -
  have b: "unat (chunk_used s) < 2 ^ 63"
    using out by (intro chunk_used_bound [OF inv]) (simp add: chunk_output_ok_def)
  have "\<not> chunk_used s + PKTHDR_SIZE + ucast (caplen (fst pkt)) > max_size"
    using same inv f by (simp add: word_less_nat_alt unat_chunk_sum(1) [OF b] same_chunk_def chunk_inv_def)
  then show ?thesis using inv f p
    by (simp add: chunk_packet_handler_def chunk_close_def chunk_start_def chunk_dump_def chunk_inv_def
      chunk_input_ok_def)
qed

lemma chunk_handler_new:
  assumes inv: "chunk_inv out_file max_size s" and out: "chunk_output_ok can_open out_file max_size"
    and p: "chunk_input_ok max_size pkt" and new: "\<not> same_chunk max_size pkt s"
  shows "chunk_packet_handler can_open out_file max_size pkt s =
    s\<lparr>chunk_closed := all_chunks s, chunk_dumper := Some (chunk_name out_file (chunk_no s), [captured pkt]),
      chunk_no := chunk_no s + 1, chunk_used := PKTHDR_SIZE + ucast (caplen (fst pkt))\<rparr>"
proof -
  have b: "unat (chunk_used s) < 2 ^ 63"
    using out by (intro chunk_used_bound [OF inv]) (simp add: chunk_output_ok_def)
  have fits: "str_into FILENAME_MAX (chunk_name out_file n) = Inr (chunk_name out_file n)" for n
    using out by (intro chunk_name_fits) (simp add: chunk_output_ok_def)
  have cl: "chunk_close max_size pkt s = s\<lparr>chunk_closed := all_chunks s, chunk_dumper := None, chunk_used := 0\<rparr>"
    using inv new p
    by (cases "chunk_dumper s")
      (auto simp: chunk_close_def word_less_nat_alt unat_chunk_sum(1) [OF b] same_chunk_def chunk_inv_def
        chunk_input_ok_def all_chunks_def pcap_dump_close_def unat_pkt_size)
  show ?thesis using inv out p
    by (simp add: chunk_packet_handler_def cl chunk_start_def chunk_dump_def chunk_inv_def
      chunk_input_ok_def chunk_output_ok_def fits)
qed

lemma all_chunks_same:
  assumes "chunk_dumper s = Some (name, ps)"
  shows "all_chunks s = chunk_closed s @ [(name, ps)]"
  using assms by (simp add: all_chunks_def)

text \<open>Both keep the invariant and add the packet to the files.\<close>

lemma chunk_handler_step:
  assumes inv: "chunk_inv out_file max_size s" and out: "chunk_output_ok can_open out_file max_size"
    and p: "chunk_input_ok max_size pkt"
  shows "chunk_inv out_file max_size (chunk_packet_handler can_open out_file max_size pkt s) \<and>
    concat (map snd (all_chunks (chunk_packet_handler can_open out_file max_size pkt s))) =
      concat (map snd (all_chunks s)) @ [captured pkt]"
proof (cases "same_chunk max_size pkt s")
  case True
  then obtain name ps where f: "chunk_dumper s = Some (name, ps)"
    by (auto simp: same_chunk_def split: option.splits)
  have b: "unat (chunk_used s) < 2 ^ 63"
    using out by (intro chunk_used_bound [OF inv]) (simp add: chunk_output_ok_def)
  show ?thesis
    using inv f True
    by (simp add: chunk_handler_same [OF inv out p True f] chunk_inv_def all_chunks_def same_chunk_def
      unat_chunk_sum(2) [OF b])
next
  case False
  show ?thesis
    using inv p
    by (simp add: chunk_handler_new [OF inv out p False] chunk_inv_def all_chunks_def [of "s\<lparr>chunk_dumper := d\<rparr>" for d]
      all_chunks_def [of "chunk_used_update u t" for u t] unat_pkt_size chunk_input_ok_def)
qed

interpretation chunking: packet_handler "chunk_packet_handler can_open out_file max_size"
    "chunk_input_ok max_size" "\<lambda>s. chunk_output_ok can_open out_file max_size \<and> chunk_inv out_file max_size s"
  for can_open out_file max_size
  by unfold_locales (simp add: chunk_handler_step)

lemma chunk_init_inv: "chunk_inv out_file max_size chunk_init"
  by (simp add: chunk_inv_def chunk_init_def all_chunks_def)

lemma chunk_loop:
  assumes "chunk_inv out_file max_size s" and "chunk_output_ok can_open out_file max_size"
    and "\<forall>pkt \<in> set pkts. chunk_input_ok max_size pkt"
  shows "chunk_inv out_file max_size (pcap_loop (chunk_packet_handler can_open out_file max_size) pkts s) \<and>
    concat (map snd (all_chunks (pcap_loop (chunk_packet_handler can_open out_file max_size) pkts s))) =
      concat (map snd (all_chunks s)) @ map captured pkts"
  using assms
proof (induction pkts arbitrary: s)
  case (Cons p ps)
  note step = chunk_handler_step [OF Cons.prems(1,2), of p]
  from Cons.prems(3) have "chunk_input_ok max_size p" by simp
  then show ?case using step Cons.IH [of "chunk_packet_handler can_open out_file max_size p s"] Cons.prems
    by simp
qed simp

text \<open>With packets of at most 64 kB no file on disk is larger than the argument allows.\<close>

lemma disk_size_le:
  assumes "counted_size ps \<le> m" and "MIN_CHUNK_SIZE \<le> m" and "\<forall>p \<in> set ps. unat (caplen (fst p)) \<le> 65535"
  shows "disk_size ps \<le> m"
proof (cases "3 \<le> length ps")
  case True
  have "disk_size ps + 8 * length ps = counted_size ps + 24"
    by (simp add: disk_size_def counted_size_def sum_list_addf sum_list_triv)
  then show ?thesis using True assms(1) by linarith
next
  case False
  have "(\<Sum>p\<leftarrow>ps. unat (caplen (fst p))) \<le> (\<Sum>p\<leftarrow>ps. 65535)"
    using assms(3) by (intro sum_list_mono) simp
  then have "disk_size ps \<le> 24 + length ps * 16 + length ps * 65535"
    by (simp add: disk_size_def sum_list_addf sum_list_triv)
  also have "\<dots> \<le> MIN_CHUNK_SIZE" using False by simp
  finally show ?thesis using assms(2) by simp
qed

text \<open>
  C19: chunkpcapfile splits a capture into files without losing, changing or reordering a packet: the files
  are named with consecutive numbers from 0, none is empty, and with packets of at most 64 kB none is
  larger on disk than the size given.
\<close>

theorem chunking_correct:
  assumes "max_size = of_int (atol size_arg)" and "MIN_CHUNK_SIZE \<le> unat max_size"
    and "chunk_output_ok can_open out_file max_size" and "input in_file = Some pkts"
    and "\<forall>pkt \<in> set pkts. whole pkt \<and> unat (caplen (fst pkt)) \<le> 65535"
  shows "\<exists>s. chunk_main input can_open [prog, in_file, out_file, size_arg] = (0, s) \<and>
    chunk_problems s = [] \<and> chunk_dumper s = None \<and>
    concat (map snd (chunk_closed s)) = map captured pkts \<and>
    map fst (chunk_closed s) = map (\<lambda>i. chunk_name out_file (of_nat i)) [0..<length (chunk_closed s)] \<and>
    (\<forall>f \<in> set (chunk_closed s). snd f \<noteq> [] \<and> disk_size (snd f) \<le> unat max_size)"
proof -
  define s where "s = pcap_loop (chunk_packet_handler can_open out_file max_size) pkts chunk_init"
  have ok: "\<forall>pkt \<in> set pkts. chunk_input_ok max_size pkt"
    using assms(2,5) by (fastforce simp: chunk_input_ok_def)
  have inv: "chunk_inv out_file max_size s" and cont: "concat (map snd (all_chunks s)) = map captured pkts"
    using chunk_loop [OF chunk_init_inv assms(3) ok] by (simp_all add: s_def all_chunks_def chunk_init_def)
  define s' where "s' = (if chunk_dumper s \<noteq> None then pcap_dump_close s else s)"
  have cl: "chunk_closed s' = all_chunks s" "chunk_dumper s' = None" "chunk_problems s' = []"
    using inv by (auto simp: s'_def pcap_dump_close_def all_chunks_def chunk_inv_def split: option.splits)
  have run: "chunk_main input can_open [prog, in_file, out_file, size_arg] = (0, s')"
    using assms(2,4) inv by (simp add: chunk_main_def assms(1) [symmetric] Let_def s_def s'_def chunk_inv_def)
  have small: "disk_size (snd f) \<le> unat max_size" if f: "f \<in> set (all_chunks s)" for f
  proof (rule disk_size_le [OF _ assms(2)])
    show "counted_size (snd f) \<le> unat max_size" using inv f by (auto simp: chunk_inv_def)
    have "set (snd f) \<subseteq> set (concat (map snd (all_chunks s)))" using f by auto
    then show "\<forall>p \<in> set (snd f). unat (caplen (fst p)) \<le> 65535"
      using assms(5) by (fastforce simp: cont captured_def)
  qed
  show ?thesis
    by (rule exI [of _ s']) (use run cl cont inv small in \<open>simp add: chunk_inv_def\<close>)
qed

text \<open>Three packets of 60 octets and a size of 1 MB: one file holds them all.\<close>

definition three_packets :: "packet list" where
  "three_packets = replicate 3 (sample_header\<lparr>caplen := 60\<rparr>, replicate 60 1)"

theorem chunking_correct_witness:
  "\<exists>s. chunk_main (\<lambda>_. Some three_packets) (\<lambda>_. True) [''chunkpcapfile'', ''in.pcap'', ''out'', ''1048576''] = (0, s) \<and>
    chunk_problems s = [] \<and> concat (map snd (chunk_closed s)) = map captured three_packets"
proof -
  have m: "(0x100000 :: u64) = of_int (atol ''1048576'')"
    by (simp add: atol_def decimal_value_def is_space_char_def is_digit_char_def digits_value_def)
  have ok: "\<forall>pkt \<in> set three_packets. whole pkt \<and> unat (caplen (fst pkt)) \<le> 65535"
    by (simp add: three_packets_def whole_def)
  have out: "chunk_output_ok (\<lambda>_. True) ''out'' 0x100000" by (simp add: chunk_output_ok_def)
  have big: "MIN_CHUNK_SIZE \<le> unat (0x100000 :: u64)" by simp
  obtain s where "chunk_main (\<lambda>_. Some three_packets) (\<lambda>_. True) [''chunkpcapfile'', ''in.pcap'', ''out'', ''1048576''] = (0, s)"
    "chunk_problems s = []" "concat (map snd (chunk_closed s)) = map captured three_packets"
    using chunking_correct [OF m big out refl ok, of "''chunkpcapfile''" "''in.pcap''"] by blast
  then show ?thesis by blast
qed

section \<open>Time stamps\<close>

definition stamp_ok :: "stamp_state \<Rightarrow> bool" where
  "stamp_ok s \<longleftrightarrow> 0 < tv_sec s \<and> 0 \<le> tv_usec s \<and> tv_usec s < 1000000"

definition stamp_time :: "stamp_state \<Rightarrow> int" where
  "stamp_time s = 1000000 * tv_sec s + tv_usec s"

text \<open>A packet whose time stamp is \<open>t\<close> microseconds.\<close>

definition stamped :: "int \<Rightarrow> packet \<Rightarrow> packet" where
  "stamped t pkt = captured ((fst pkt)\<lparr>ts_sec := t div 1000000, ts_usec := t mod 1000000\<rparr>, snd pkt)"

lemma stamp_next_ok:
  assumes "stamp_ok s"
  shows "stamp_ok (stamp_next header s)" and "stamp_time (stamp_next header s) = stamp_time s + 1"
    and "written (stamp_next header s) = written s" and "problems (stamp_next header s) = problems s"
  using assms by (auto simp: stamp_next_def stamp_ok_def stamp_time_def Let_def)

lemma stamp_fields:
  assumes "stamp_ok s"
  shows "tv_sec s = stamp_time s div 1000000" and "tv_usec s = stamp_time s mod 1000000"
  using assms by (simp_all add: stamp_ok_def stamp_time_def)

lemma stamp_dump:
  assumes "stamp_ok s" and "whole pkt"
  shows "dump_to True ((fst pkt)\<lparr>ts_sec := tv_sec s, ts_usec := tv_usec s\<rparr>, snd pkt) s =
    s\<lparr>written := written s @ [stamped (stamp_time s) pkt]\<rparr>"
  using assms by (simp add: dump_to_def whole_def stamped_def stamp_fields [symmetric])

lemma stamp_written_frame [simp]:
  "stamp_ok (s\<lparr>written := w\<rparr>) = stamp_ok s" "stamp_time (s\<lparr>written := w\<rparr>) = stamp_time s"
  by (simp_all add: stamp_ok_def stamp_time_def)

interpretation stamping: packet_handler "stamp_packet_handler True" whole
  "\<lambda>s. stamp_ok s \<and> problems s = []"
  by unfold_locales (simp add: stamp_packet_handler_def Let_def stamp_dump stamp_next_ok)

lemma stamp_loop_written:
  assumes "stamp_ok s" and "\<forall>p \<in> set pkts. whole p" and "stamp_time s + 1 = t0 + int k"
  shows "written (pcap_loop (stamp_packet_handler True) pkts s) =
    written s @ map (\<lambda>(i, p). stamped (t0 + int i) p) (enumerate k pkts)"
  using assms
proof (induction pkts arbitrary: s k)
  case (Cons p ps)
  let ?s = "stamp_packet_handler True p s"
  have h: "?s = (stamp_next (fst p) s)\<lparr>written := written s @ [stamped (t0 + int k) p]\<rparr>"
    using Cons.prems stamp_next_ok [OF Cons.prems(1), of "fst p"]
    by (simp add: stamp_packet_handler_def Let_def stamp_dump)
  have "written (pcap_loop (stamp_packet_handler True) ps ?s) =
      written ?s @ map (\<lambda>(i, p). stamped (t0 + int i) p) (enumerate (Suc k) ps)"
    using Cons.prems stamp_next_ok [OF Cons.prems(1), of "fst p"] by (intro Cons.IH) (simp_all add: h)
  then show ?case by (simp add: h)
qed simp

text \<open>
  The exact stamps: the time of the first packet and then one microsecond more for each, carrying into the seconds. (The comment of
  the handler speaks of milliseconds.)
\<close>

lemma stamps_microseconds:
  assumes "input in_file = Some (p # ps)" and "can_open out_file" and "\<forall>q \<in> set (p # ps). whole q"
    and "0 < ts_sec (fst p)" and "0 \<le> ts_usec (fst p)" and "ts_usec (fst p) < 1000000"
  shows "\<exists>s. stamp_main input can_open [prog, in_file, out_file] = (0, s) \<and> problems s = [] \<and>
    written s = map (\<lambda>(i, q). stamped (1000000 * ts_sec (fst p) + ts_usec (fst p) + int i) q)
      (enumerate 0 (p # ps))"
proof -
  define s where "s = stamp_init\<lparr>tv_sec := ts_sec (fst p), tv_usec := ts_usec (fst p)\<rparr>"
  have pr: "problems s = []" by (simp add: s_def stamp_init_def)
  have ok: "stamp_ok s" "stamp_time s = 1000000 * ts_sec (fst p) + ts_usec (fst p)"
    using assms(4-6) by (simp_all add: s_def stamp_ok_def stamp_time_def)
  have one: "stamp_packet_handler True p stamp_init = s\<lparr>written := [stamped (stamp_time s) p]\<rparr>" (is "_ = ?s")
    using assms(3) stamp_dump [OF ok(1), of p]
    by (simp add: stamp_packet_handler_def stamp_next_def stamp_init_def s_def)
  have "stamp_main input can_open [prog, in_file, out_file] = (0, pcap_loop (stamp_packet_handler True) ps ?s)"
    using assms(1,2) by (simp add: stamp_main_def one)
  moreover have "problems (pcap_loop (stamp_packet_handler True) ps ?s) = []"
    using stamping.loop_inv [of ?s ps] ok(1) pr assms(3) by simp
  moreover have "written (pcap_loop (stamp_packet_handler True) ps ?s) =
      written ?s @ map (\<lambda>(i, q). stamped (stamp_time s + int i) q) (enumerate 1 ps)"
    using ok assms(3) by (intro stamp_loop_written) simp_all
  ultimately show ?thesis by (simp add: ok(2))
qed



text \<open>A failed open of the output file is not noticed: the first packet is dumped through a null pointer.\<close>

lemma stamp_open_unchecked:
  assumes "input in_file = Some (p # ps)" and "\<not> can_open out_file"
  shows "\<exists>s. stamp_main input can_open [prog, in_file, out_file] = (0, s) \<and> Null_pointer \<in> set (problems s)"
proof -
  have n: "problems (stamp_next h s) = problems s" for h s by (simp add: stamp_next_def Let_def)
  have "Null_pointer \<in> set (problems (pcap_loop (stamp_packet_handler False) ps s))" if "Null_pointer \<in> set (problems s)" for s
    using that by (induction ps arbitrary: s) (simp_all add: stamp_packet_handler_def dump_to_def Let_def n)
  then show ?thesis using assms by (simp add: stamp_main_def stamp_packet_handler_def dump_to_def Let_def)
qed

section \<open>Untunnelling\<close>

text \<open>Packets for which untunnelling is defined are written as the merger writes them.\<close>

lemma untunnel_handler_good:
  assumes "mergeable 1 pkt"
  shows "untunnel_packet_handler pkt s = s\<lparr>written := written s @ [captured (merged 1 pkt)]\<rparr>"
  using assms
  by (cases "pcapsession_untunnel_packet None (fst pkt) (snd pkt)")
    (auto simp: untunnel_packet_handler_def mergeable_def merged_def dump_to_def)

lemma untunnel_loop:
  assumes "\<forall>pkt \<in> set pkts. mergeable 1 pkt"
  shows "pcap_loop untunnel_packet_handler pkts s = s\<lparr>written := written s @ map (captured \<circ> merged 1) pkts\<rparr>"
  using assms by (induction pkts arbitrary: s) (simp_all add: untunnel_handler_good)

text \<open>
  C31: gtpuntunnel and the merger agree. On a capture of packets for which untunnelling is defined, the program ends
  with status 0 and writes each packet once and in order; what it writes is what a merger with untunnelling switched on
  appends to its file when the same packets reach it over one of its connections.
\<close>

theorem untunnel_agrees_with_merger:
  assumes "input in_file = Some pkts" and "can_open out_file" and "\<forall>pkt \<in> set pkts. mergeable 1 pkt"
    and "m < length (session_list st)" and "pcap_dumper (sess st m) \<noteq> 0" and "untunnel (sess st m) = 1" and "merges_to st m i"
  shows "\<exists>out. untunnel_main input can_open [prog, in_file, out_file] = (0, out) \<and> problems out = [] \<and>
    length (written out) = length pkts \<and>
    stream_of (pcap_dumper (sess st m)) (merge_all (map (Pair i) pkts) st) =
      stream_of (pcap_dumper (sess st m)) st @ written out"
proof -
  have "\<forall>(k, pkt) \<in> set (map (Pair i) pkts). merges_to st m k \<and> mergeable (untunnel (sess st m)) pkt"
    using assms(3,6,7) by auto
  from merge_all_effect [OF assms(4,5) this]
  have "stream_of (pcap_dumper (sess st m)) (merge_all (map (Pair i) pkts) st) =
      stream_of (pcap_dumper (sess st m)) st @ map (captured \<circ> merged 1) pkts"
    using assms(6) by (simp add: o_def)
  then show ?thesis
    using assms(1,2) untunnel_loop [OF assms(3), of no_output] by (simp add: untunnel_main_def no_output_def)
qed

theorem untunnel_agrees_with_merger_witness:
  "\<exists>out. untunnel_main (\<lambda>_. Some [(sample_header, sample_frame @ replicate 14 0)]) (\<lambda>_. True) [''gtpuntunnel'', ''a'', ''b''] =
      (0, out) \<and>
    stream_of 3 (merge_all [(1, (sample_header, sample_frame @ replicate 14 0))]
      (set_sess 0 (\<lambda>s. s\<lparr>untunnel := 1\<rparr>) merge_state)) = written out"
proof -
  define st where "st = set_sess 0 (\<lambda>s. s\<lparr>untunnel := 1\<rparr>) merge_state"
  define P where "P = (sample_header, sample_frame @ replicate 14 0)"
  have s: "0 < length (session_list st)" "pcap_dumper (sess st 0) = 3" "untunnel (sess st 0) = 1" "merges_to st 0 1" "stream_of 3 st = []"
    by (simp_all add: st_def merge_state_def merges_to_def set_sess_def zero_session_def stream_of_def init_gstate_def)
  have "whole (merged 1 P)" "\<not> isl (pcapsession_untunnel_packet None (fst P) (snd P))"
    unfolding P_def by code_simp+
  then have "mergeable 1 P" by (auto simp: mergeable_def)
  then show ?thesis
    using untunnel_agrees_with_merger [of "\<lambda>_. Some [P]" "''a''" "[P]" "\<lambda>_. True" "''b''" 0 st 1 "''gtpuntunnel''"] s
    unfolding st_def [symmetric] P_def [symmetric] by auto
qed

section \<open>Statistics\<close>

definition stats_of :: "packet list \<Rightarrow> u64 \<times> u64 \<times> (int \<times> int) \<times> (int \<times> int)" where
  "stats_of ps = (of_nat (length ps), of_nat (\<Sum>p\<leftarrow>ps. unat (pkt_len (fst p))),
     (if ps = [] then (0, 0) else (ts_sec (fst (ps ! 0)), ts_usec (fst (ps ! 0)))),
     (if ps = [] then (0, 0) else (ts_sec (fst (last ps)), ts_usec (fst (last ps)))))"

definition stats_line :: "stats_state \<Rightarrow> u64 \<times> u64 \<times> (int \<times> int) \<times> (int \<times> int)" where
  "stats_line s = (packet_count s, byte_count s, first_timestamp s, last_timestamp s)"

lemma of_nat_unat_u64: "(of_nat (unat (w :: u32)) :: u64) = ucast w"
  by (simp add: word_eq_iff_unsigned unsigned_ucast_eq unsigned_of_nat)

lemma packet_count_zero: "length ps < 2 ^ 64 \<Longrightarrow> (of_nat (length ps) :: u64) = 0 \<longleftrightarrow> ps = []"
  by (simp add: word_unat_eq_iff unsigned_of_nat take_bit_nat_eq_self)

lemma packet_count_mod:
  assumes "n < 2 ^ 64"
  shows "(of_nat n :: u64) mod 1000000 = 0 \<longleftrightarrow> n mod 1000000 = 0"
proof -
  have "unat (of_nat n :: u64) = n" using assms by (simp add: unsigned_of_nat take_bit_nat_eq_self)
  then have "unat ((of_nat n :: u64) mod 1000000) = n mod 1000000" by (simp add: unat_mod_distrib)
  then show ?thesis by (simp add: word_unat_eq_iff)
qed

lemma stats_handler_line:
  assumes "stats_line s = stats_of ps" and "length ps < 2 ^ 64"
  shows "stats_line (stats_packet_handler p s) = stats_of (ps @ [p])"
  using assms(1) packet_count_zero [OF assms(2)]
  by (auto simp: stats_line_def stats_of_def stats_packet_handler_def print_pcap_stats_def Let_def
    of_nat_unat_u64 nth_append)

lemma stats_handler_prints:
  "stats_lines (stats_packet_handler p s) = stats_lines s @
    (if (packet_count s + 1) mod 1000000 = 0 then [stats_line (stats_packet_handler p s)] else [])"
  by (simp add: stats_packet_handler_def Let_def print_pcap_stats_def stats_line_def)

lemma stats_handler_lines:
  assumes "stats_line s = stats_of ps" and "Suc (length ps) < 2 ^ 64"
  shows "stats_lines (stats_packet_handler p s) = stats_lines s @
    (if Suc (length ps) mod 1000000 = 0 then [stats_of (ps @ [p])] else [])"
proof -
  have c: "packet_count s + 1 = of_nat (Suc (length ps))"
    using assms(1) by (simp add: stats_line_def stats_of_def)
  have l: "stats_line (stats_packet_handler p s) = stats_of (ps @ [p])"
    using assms by (intro stats_handler_line) simp_all
  show ?thesis unfolding stats_handler_prints l c packet_count_mod [OF assms(2)] by (rule refl)
qed

text \<open>The lines printed every million packets, as statistics of the packets before them.\<close>

definition progress_lines :: "packet list \<Rightarrow> (u64 \<times> u64 \<times> (int \<times> int) \<times> (int \<times> int)) list" where
  "progress_lines ps = map (\<lambda>k. stats_of (take (k * 1000000) ps)) [1..<Suc (length ps div 1000000)]"

lemma progress_lines_snoc:
  "progress_lines (ps @ [p]) = progress_lines ps @
    (if Suc (length ps) mod 1000000 = 0 then [stats_of (ps @ [p])] else [])"
proof -
  have old: "map (\<lambda>k. stats_of (take (k * 1000000) (ps @ [p]))) [1..<Suc (length ps div 1000000)] =
      progress_lines ps"
    unfolding progress_lines_def
  proof (rule map_cong [OF refl])
    fix k assume "k \<in> set [1..<Suc (length ps div 1000000)]"
    then have "k \<le> length ps div 1000000" by auto
    then have "k * 1000000 \<le> length ps div 1000000 * 1000000" by (rule mult_right_mono) simp
    also have "\<dots> \<le> length ps" by simp
    finally show "stats_of (take (k * 1000000) (ps @ [p])) = stats_of (take (k * 1000000) ps)" by simp
  qed
  show ?thesis
  proof (cases "Suc (length ps) mod 1000000 = 0")
    case True
    then have d: "Suc (length ps) div 1000000 = Suc (length ps div 1000000)" by (simp add: div_Suc)
    have "Suc (length ps) div 1000000 * 1000000 = Suc (length ps)"
      by (rule dvd_div_mult_self [OF mod_0_imp_dvd [OF True]])
    then have t: "take (Suc (length ps div 1000000) * 1000000) (ps @ [p]) = ps @ [p]"
      unfolding d by (intro take_all) simp
    have u: "[1..<Suc (Suc n)] = [1..<Suc n] @ [Suc n]" for n by simp
    show ?thesis
      unfolding progress_lines_def [of "ps @ [p]"] length_append_singleton d u map_append old
      using True by (simp only: list.map t refl if_True)
  next
    case False
    then have "Suc (length ps) div 1000000 = length ps div 1000000" by (simp add: div_Suc)
    then show ?thesis unfolding progress_lines_def [of "ps @ [p]"] using False old by simp
  qed
qed

lemma stats_loop:
  assumes "length pkts < 2 ^ 64"
  shows "stats_line (pcap_loop stats_packet_handler pkts stats_init) = stats_of pkts \<and>
    stats_lines (pcap_loop stats_packet_handler pkts stats_init) = progress_lines pkts"
  using assms
proof (induction pkts rule: rev_induct)
  case Nil
  show ?case by (simp add: stats_line_def stats_init_def stats_of_def progress_lines_def)
next
  case (snoc p ps)
  then have ih: "stats_line (pcap_loop stats_packet_handler ps stats_init) = stats_of ps"
    "stats_lines (pcap_loop stats_packet_handler ps stats_init) = progress_lines ps" by simp_all
  have "length ps < 2 ^ 64" "Suc (length ps) < 2 ^ 64" using snoc.prems by simp_all
  then show ?case
    using stats_handler_line [OF ih(1), of p] stats_handler_lines [OF ih(1), of p]
    by (simp add: pcap_loop_append ih(2) progress_lines_snoc)
qed

text \<open>
  C32: pcapfilestats prints one line for every million packets and one at the end; each line gives the
  number of packets and of octets so far and the times of the first and the latest packet.
\<close>

theorem stats_correct:
  assumes "input in_file = Some pkts" and "length pkts < 2 ^ 64"
  shows "\<exists>s. stats_main input [prog, in_file] = (0, s) \<and> stats_lines s = progress_lines pkts @ [stats_of pkts]"
  using assms stats_loop [OF assms(2)]
  by (simp add: stats_main_def print_pcap_stats_def stats_line_def)

theorem stats_correct_witness:
  "\<exists>s. stats_main (\<lambda>_. Some three_packets) [''pcapfilestats'', ''in.pcap''] = (0, s) \<and>
    stats_lines s = [(3, 222, (1000, 5), (1000, 5))]"
proof -
  have len: "length three_packets < 2 ^ 64" by (simp add: three_packets_def)
  have lines: "progress_lines three_packets = []" by (simp add: progress_lines_def three_packets_def)
  have stats: "stats_of three_packets = (3, 222, (1000, 5), (1000, 5))" by code_simp
  show ?thesis
    using stats_correct [OF refl len, of "''pcapfilestats''" "''in.pcap''"] unfolding lines stats by simp
qed

section \<open>Addresses\<close>

definition patch :: "buffer \<Rightarrow> nat \<Rightarrow> buffer \<Rightarrow> buffer" where
  "patch d i xs = take i d @ xs @ drop (i + length xs) d"

definition octets_at :: "buffer \<Rightarrow> nat \<Rightarrow> buffer" where
  "octets_at d i = take 4 (drop i d)"

lemma replace_addr_in:
  assumes "ip + 20 \<le> length d" and "length new_ip = 4"
  shows "replace_addr old_ip new_ip ip d =
    Inr (if octets_at d (ip + 12) = old_ip then patch d (ip + 12) new_ip
         else if octets_at d (ip + 16) = old_ip then patch d (ip + 16) new_ip else d)"
  using assms by (simp add: replace_addr_def mem_simps octets_at_def patch_def)

lemma addr_rewrite_inner:
  assumes "strips header d"
  shows "addr_rewrite old_ip new_ip (header, d) =
    (if d ! (udp_off d + 9) = 255 then replace_addr old_ip new_ip (inner_off d) d else Inr d)"
proof -
  have s: "unat (caplen header) \<le> length d" "gtp_frame (unat (caplen header)) d" "\<not> ext_flag_set d"
    using assms by (simp_all add: strips_def)
  note g = gtp_frame_header [OF s(1) refl s(2)]
  obtain h where h: "rd_gtpv1hdr d (udp_off d + 8) = Inr h" "flag_options h = d ! (udp_off d + 8) AND 7"
    "message_type h = d ! (udp_off d + 8 + 1)"
    using rd_gtpv1hdr_in [of "udp_off d + 8" d] g(3) by auto
  have e: "GTP_EXT_FLAG (flag_options h) = 0"
    using s(3) ext_flag [of "d ! (udp_off d + 8)"] by (simp add: h(2) ext_flag_set_def)
  have i: "udp_off d + 8 + 8 + (if flag_options h \<noteq> 0 then 4 else 0) = inner_off d"
    by (simp add: inner_off_def h(2))
  have v: "unat (255 :: byte) = 255" by simp
  have m: "unat (message_type h) = 255 \<longleftrightarrow> d ! (udp_off d + 9) = 255"
    unfolding h(3) word_unat_eq_iff v by (simp add: add.commute)
  show ?thesis
    unfolding addr_rewrite_def prod.case Let_def g(1) sbind_simps option.case g(2) h(1) e i m by simp
qed

text \<open>The packets that the program looks into: user data without extension header. All others are written as they are.\<close>

definition rewritable :: "pcap_pkthdr \<Rightarrow> buffer \<Rightarrow> bool" where
  "rewritable header d \<longleftrightarrow> strips header d \<and> d ! (udp_off d + 9) = 255"

lemma addr_rewrite_other:
  assumes "unat (caplen header) \<le> length d" and "\<not> underflow_frame (unat (caplen header)) d" and "\<not> rewritable header d"
  shows "addr_rewrite old_ip new_ip (header, d) = Inr d"
proof (cases "gtp_frame (unat (caplen header)) d")
  case False
  then show ?thesis using get_header_ref [OF assms(1,2)] by (simp add: addr_rewrite_def gtp_ref_def)
next
  case True
  show ?thesis
  proof (cases "ext_flag_set d")
    case False
    then have "strips header d" using assms(1) True by (simp add: strips_def)
    then show ?thesis using addr_rewrite_inner assms(3) by (simp add: rewritable_def)
  next
    case ext: True
    note g = gtp_frame_header [OF assms(1) refl True]
    obtain h where h: "rd_gtpv1hdr d (udp_off d + 8) = Inr h" "flag_options h = d ! (udp_off d + 8) AND 7"
      using rd_gtpv1hdr_in [of "udp_off d + 8" d] g(3) by auto
    have "GTP_EXT_FLAG (flag_options h) \<noteq> 0" using ext ext_flag by (simp add: h(2) ext_flag_set_def)
    then show ?thesis unfolding addr_rewrite_def prod.case Let_def g(1) sbind_simps option.case g(2) h(1) by simp
  qed
qed

text \<open>
  C33: gtpaddr replaces addresses in user data only. In a G-PDU without extension header whose inner IP header is in memory the
  source address of the tunnelled packet is replaced if it is the one to replace, otherwise
  the destination address if it is, and every other octet (the checksums too) is left as it is. Every other packet is
  written unchanged: one without a GTP header, with the extension header flag, or with a signalling message.
\<close>

theorem addr_rewrite_correct:
  assumes "unat (caplen header) \<le> length d" and "\<not> underflow_frame (unat (caplen header)) d"
    and "length new_ip = 4" and "rewritable header d \<Longrightarrow> inner_off d + 20 \<le> length d"
  shows "addr_packet_handler old_ip new_ip (header, d) s = s\<lparr>written := written s @
      [captured (header,
        if \<not> rewritable header d then d
        else if octets_at d (inner_off d + 12) = old_ip then patch d (inner_off d + 12) new_ip
        else if octets_at d (inner_off d + 16) = old_ip then patch d (inner_off d + 16) new_ip else d)]\<rparr>"
proof -
  have w: "whole (header, d)" using assms(1) by (simp add: whole_def)
  show ?thesis
  proof (cases "rewritable header d")
    case False
    then show ?thesis
      using w addr_rewrite_other [OF assms(1,2) False] by (simp add: addr_packet_handler_def dump_to_def)
  next
    case True
    then have r: "strips header d" "d ! (udp_off d + 9) = 255" by (simp_all add: rewritable_def)
    note i = assms(4) [OF True]
    have l: "length (patch d k new_ip) = length d" if "k \<le> inner_off d + 16" for k
      using that assms(3) i by (simp add: patch_def)
    show ?thesis
      using True w r(2) unfolding addr_packet_handler_def addr_rewrite_inner [OF r(1)] replace_addr_in [OF i assms(3)]
      by (simp add: dump_to_def whole_def l)
  qed
qed

text \<open>The sample frame tunnels a packet from and to 5.5.5.5.\<close>

theorem addr_rewrite_correct_witness:
  "written (addr_packet_handler [5, 5, 5, 5] [10, 0, 0, 1] (sample_header, sample_frame) no_output) =
    [(sample_header, take 66 sample_frame @ [10, 0, 0, 1] @ replicate 4 5)]"
proof -
  have s: "rewritable sample_header sample_frame" "\<not> underflow_frame 74 sample_frame" by code_simp+
  have i: "inner_off sample_frame = 54" by code_simp
  have l: "length sample_frame = 74" "unat (caplen sample_header) = 74" by code_simp+
  have oct: "octets_at sample_frame 66 = [5, 5, 5, 5]" "sample_frame ! (udp_off sample_frame + 9) = 255"
    "captured (sample_header, patch sample_frame 66 [10, 0, 0, 1]) =
      (sample_header, take 66 sample_frame @ [10, 0, 0, 1] @ replicate 4 5)" by code_simp+
  show ?thesis
    using addr_rewrite_correct [of sample_header sample_frame "[10, 0, 0, 1]" "[5, 5, 5, 5]" no_output] s
    by (simp add: i l oct no_output_def)
qed

end
