(* ===== verification/Event_Runs.thy ===== *)
theory Event_Runs
  imports Main
begin

text \<open>
  Runs of a step relation whose steps carry events, and the simulation of such runs by a function that
  applies the events one after the other. The theories on threads use them for the packet handlers of the merger.
\<close>

section \<open>Runs\<close>

inductive event_runs :: "('s \<Rightarrow> 'e list \<Rightarrow> 's \<Rightarrow> bool) \<Rightarrow> 's \<Rightarrow> 'e list \<Rightarrow> 's \<Rightarrow> bool" for step where
  none: "event_runs step s [] s"
| more: "event_runs step s es s' \<Longrightarrow> step s' es' s'' \<Longrightarrow> event_runs step s (es @ es') s''"

lemma event_runs_trans:
  "event_runs step s' es' s'' \<Longrightarrow> event_runs step s es s' \<Longrightarrow> event_runs step s (es @ es') s''"
  by (induction rule: event_runs.induct) (auto simp flip: append_assoc intro: event_runs.intros)

lemma event_runs_one: "step s es s' \<Longrightarrow> event_runs step s es s'"
  using event_runs.more [OF event_runs.none] by fastforce

lemma event_runs_mono:
  assumes "event_runs step s es s'" and "\<And>s es s'. step s es s' \<Longrightarrow> step' s es s'"
  shows "event_runs step' s es s'"
  using assms(1) by (induction rule: event_runs.induct) (auto intro: event_runs.intros assms(2))

text \<open>A property that every step keeps, and a list from the front of which the events take elements.\<close>

lemma event_runs_invariant:
  assumes "event_runs step s es s'" and "\<And>s es s'. step s es s' \<Longrightarrow> P s \<Longrightarrow> P s'" and "P s"
  shows "P s'"
  using assms(1,3) by (induction rule: event_runs.induct) (auto intro: assms(2))

lemma event_runs_conserved:
  assumes "event_runs step s es s'" and "\<And>s es s'. step s es s' \<Longrightarrow> f es @ g s' = g s"
    and "f [] = []" and "\<And>es es'. f (es @ es') = f es @ f es'"
  shows "f es @ g s' = g s"
  using assms(1)
proof (induction rule: event_runs.induct)
  case (more s es s' es' s'')
  then show ?case using assms(2) [OF more(2)] by (simp add: assms(4))
qed (simp add: assms(3))

section \<open>Simulation\<close>

text \<open>
  A concrete system whose steps emit events, an abstract state that every event changes, and a
  relation between the states of the two that the steps keep.
\<close>

locale event_simulation =
  fixes cstep :: "'s \<Rightarrow> 'e list \<Rightarrow> 's \<Rightarrow> bool"
    and effect :: "'e \<Rightarrow> 'x \<Rightarrow> 'x"
    and match :: "'s \<Rightarrow> 'x \<Rightarrow> bool"
  assumes step_match: "match s x \<Longrightarrow> cstep s es s' \<Longrightarrow> match s' (fold effect es x)"
begin

lemma runs_match:
  assumes "event_runs cstep s es s'" and "match s x"
  shows "match s' (fold effect es x)"
  using assms by (induction rule: event_runs.induct) (simp_all add: step_match)

end

end
