(* ===== verification/Session_Threads.thy ===== *)
theory Session_Threads
  imports Session_System Event_Runs
begin

text \<open>
  The packet handlers at the grain of the single accesses to shared data. The threads of the server connections run
  \<open>pcapsession_merger_packet_handler\<close> side by side, under the mutex of the merger and, for the call of
  \<open>pcap_dump\<close>, under the mutex of the merger's dumper, which the supervision thread takes too when it flushes the
  file. A step relation interleaves them; its runs refine the sequential handler.
\<close>

section \<open>Threads\<close>

text \<open>
  Where a thread is inside the handler: before \<open>merge_mutex\<close> is locked; after it; with the untunnelled packet; with
  the second mutex; after the call of \<open>pcap_dump\<close>; after that mutex is released; after each of the two counts. A
  cancelled thread stays where it was for good.
\<close>

datatype point =
    Outside
  | Entered packet
  | Locked packet
  | Untunnelled packet packet
  | Dumping packet packet
  | Dumped packet
  | Unlocked packet
  | Counted packet
  | Leaving
  | Cancelled

text \<open>The supervision thread: elsewhere; about to lock; holding the mutex; having flushed.\<close>

datatype flush_point = Elsewhere | Wants | Holding | Flushed

datatype holder = Connection nat | Supervision

text \<open>What the capture still hands to each connection, where each thread is, who holds the mutexes, the sessions.\<close>

record threads =
  waiting :: "nat \<Rightarrow> packet list"
  point :: "nat \<Rightarrow> point"
  flush :: flush_point
  merge_mutex :: "nat option"
  pcap_mutex :: "holder option"
  shared :: gstate

text \<open>A packet counts as handled when it is dumped.\<close>

datatype event = Handled nat packet | Flush

definition move :: "nat \<Rightarrow> point \<Rightarrow> threads \<Rightarrow> threads" where
  "move i p s = s\<lparr>point := (point s)(i := p)\<rparr>"

text \<open>The next access of the thread of connection \<open>i\<close> to the merger \<open>m\<close>: \<open>None\<close> when it cannot go on.\<close>

definition advance :: "nat \<Rightarrow> nat \<Rightarrow> threads \<Rightarrow> (event list \<times> threads) option" where
  "advance m i s = (case point s i of
     Outside \<Rightarrow>
       (case waiting s i of [] \<Rightarrow> None
        | pkt # pkts \<Rightarrow>
            (case handler (sess (shared s) i) of
               None \<Rightarrow> Some ([Handled i pkt], s\<lparr>waiting := (waiting s)(i := pkts)\<rparr>)
             | Some k \<Rightarrow> if k = m then Some ([], move i (Entered pkt) (s\<lparr>waiting := (waiting s)(i := pkts)\<rparr>)) else None))
   | Entered pkt \<Rightarrow>
       if merge_mutex s = None then Some ([], move i (Locked pkt) (s\<lparr>merge_mutex := Some i\<rparr>)) else None
   | Locked pkt \<Rightarrow>
       let (new_pkt, st) = merger_untunnel m pkt (shared s)
       in Some ([], move i (Untunnelled pkt new_pkt) (s\<lparr>shared := st\<rparr>))
   | Untunnelled pkt new_pkt \<Rightarrow>
       if pcap_mutex s = None
       then Some ([], move i (Dumping pkt new_pkt) (s\<lparr>pcap_mutex := Some (Connection i)\<rparr>)) else None
   | Dumping pkt new_pkt \<Rightarrow>
       Some ([Handled i pkt], move i (Dumped pkt)
         (s\<lparr>shared := pcap_dump (pcap_dumper (sess (shared s) m)) new_pkt (shared s)\<rparr>))
   | Dumped pkt \<Rightarrow> Some ([], move i (Unlocked pkt) (s\<lparr>pcap_mutex := None\<rparr>))
   | Unlocked pkt \<Rightarrow> Some ([], move i (Counted pkt) (s\<lparr>shared := set_sess i (count_in pkt) (shared s)\<rparr>))
   | Counted pkt \<Rightarrow> Some ([], move i Leaving (s\<lparr>shared := set_sess m (count_in pkt) (shared s)\<rparr>))
   | Leaving \<Rightarrow> Some ([], move i Outside (s\<lparr>merge_mutex := None\<rparr>))
   | Cancelled \<Rightarrow> None)"

text \<open>The supervision thread looks whether the merger is running and idle, and flushes its file if so.\<close>

definition idle_output :: "session \<Rightarrow> bool" where
  "idle_output s \<longleftrightarrow> state s = PCAP_SESSION_RUNNING \<and> pcap_dumper s \<noteq> 0 \<and>
     (case mon s of None \<Rightarrow> False | Some mo \<Rightarrow> bytes mo = 0)"

definition flush_advance :: "nat \<Rightarrow> threads \<Rightarrow> (event list \<times> threads) option" where
  "flush_advance m s = (case flush s of
     Elsewhere \<Rightarrow> if idle_output (sess (shared s) m) then Some ([], s\<lparr>flush := Wants\<rparr>) else None
   | Wants \<Rightarrow> if pcap_mutex s = None then Some ([], s\<lparr>flush := Holding, pcap_mutex := Some Supervision\<rparr>) else None
   | Holding \<Rightarrow> Some ([Flush], s\<lparr>flush := Flushed,
       shared := ext_do (Pcap_dump_flush (pcap_dumper (sess (shared s) m))) (shared s)\<rparr>)
   | Flushed \<Rightarrow> Some ([], s\<lparr>flush := Elsewhere, pcap_mutex := None\<rparr>))"

text \<open>
  \<open>pthread_cancel\<close> of \<open>pcapsession_stop\<close>, called while the supervision thread is not flushing: it takes effect
  where the thread may block, in the read of the next packet or in the write of \<open>pcap_dump\<close>. No mutex is released.
\<close>

definition cancel :: "nat \<Rightarrow> threads \<Rightarrow> threads option" where
  "cancel i s =
     (if flush s \<noteq> Elsewhere then None
      else case point s i of
        Outside \<Rightarrow> Some (move i Cancelled s)
      | Dumping pkt new_pkt \<Rightarrow> Some (move i Cancelled s)
      | _ \<Rightarrow> None)"

inductive thread_step :: "nat \<Rightarrow> threads \<Rightarrow> event list \<Rightarrow> threads \<Rightarrow> bool" for m where
  connection: "advance m i s = Some (es, s') \<Longrightarrow> thread_step m s es s'"
| supervision: "flush_advance m s = Some (es, s') \<Longrightarrow> thread_step m s es s'"

abbreviation runs :: "nat \<Rightarrow> threads \<Rightarrow> event list \<Rightarrow> threads \<Rightarrow> bool" where
  "runs m \<equiv> event_runs (thread_step m)"

lemmas runs_none = event_runs.none [where step = "thread_step m"] for m
lemmas runs_more = event_runs.more [where step = "thread_step m"] for m
lemmas runs_one = event_runs_one [where step = "thread_step m"] for m
lemmas runs_trans = event_runs_trans [where step = "thread_step m"] for m

inductive_cases thread_stepE: "thread_step m s es s'"

section \<open>The sequential handler\<close>

primrec apply_event :: "nat \<Rightarrow> event \<Rightarrow> gstate \<Rightarrow> gstate" where
  "apply_event m (Handled i pkt) st = pcapsession_merger_packet_handler (Some i) pkt st"
| "apply_event m Flush st = ext_do (Pcap_dump_flush (pcap_dumper (sess st m))) st"

definition sequential :: "nat \<Rightarrow> event list \<Rightarrow> gstate \<Rightarrow> gstate" where
  "sequential m es st = fold (apply_event m) es st"

text \<open>The packets of connection \<open>i\<close> among the events; the packet a thread has taken and not yet dumped.\<close>

fun handled :: "nat \<Rightarrow> event list \<Rightarrow> packet list" where
  "handled i [] = []"
| "handled i (Handled j pkt # es) = (if j = i then pkt # handled i es else handled i es)"
| "handled i (Flush # es) = handled i es"

fun in_hand :: "point \<Rightarrow> packet list" where
  "in_hand (Entered pkt) = [pkt]"
| "in_hand (Locked pkt) = [pkt]"
| "in_hand (Untunnelled pkt _) = [pkt]"
| "in_hand (Dumping pkt _) = [pkt]"
| "in_hand _ = []"

fun critical :: "point \<Rightarrow> bool" where
  "critical Outside = False"
| "critical (Entered _) = False"
| "critical Cancelled = False"
| "critical _ = True"

fun holds_pcap :: "point \<Rightarrow> bool" where
  "holds_pcap (Dumping _ _) = True"
| "holds_pcap (Dumped _) = True"
| "holds_pcap _ = False"

definition at_rest :: "threads \<Rightarrow> bool" where
  "at_rest s \<longleftrightarrow> (\<forall>i. point s i = Outside) \<and> flush s = Elsewhere \<and> merge_mutex s = None \<and> pcap_mutex s = None"

section \<open>Simulation\<close>

text \<open>
  What the sessions are, given the state \<open>X\<close> that the sequential handler reaches with the events so far: the thread
  in the critical section has done part of its work, or has part of it left to do.
\<close>

fun progress_of :: "nat \<Rightarrow> nat \<Rightarrow> point \<Rightarrow> gstate \<Rightarrow> gstate \<Rightarrow> bool" where
  "progress_of m i (Locked pkt) st X \<longleftrightarrow> st = X"
| "progress_of m i (Untunnelled pkt new_pkt) st X \<longleftrightarrow> merger_untunnel m pkt X = (new_pkt, st)"
| "progress_of m i (Dumping pkt new_pkt) st X \<longleftrightarrow> merger_untunnel m pkt X = (new_pkt, st)"
| "progress_of m i (Dumped pkt) st X \<longleftrightarrow> X = set_sess m (count_in pkt) (set_sess i (count_in pkt) st)"
| "progress_of m i (Unlocked pkt) st X \<longleftrightarrow> X = set_sess m (count_in pkt) (set_sess i (count_in pkt) st)"
| "progress_of m i (Counted pkt) st X \<longleftrightarrow> X = set_sess m (count_in pkt) st"
| "progress_of m i Leaving st X \<longleftrightarrow> st = X"
| "progress_of m i _ st X \<longleftrightarrow> False"

definition simulates :: "nat \<Rightarrow> threads \<Rightarrow> gstate \<Rightarrow> bool" where
  "simulates m s X \<longleftrightarrow>
     (merge_mutex s = None \<longrightarrow> shared s = X) \<and>
     (\<forall>i. merge_mutex s = Some i \<longrightarrow> progress_of m i (point s i) (shared s) X) \<and>
     (\<forall>i. critical (point s i) \<longleftrightarrow> merge_mutex s = Some i) \<and>
     (\<forall>i. holds_pcap (point s i) \<longleftrightarrow> pcap_mutex s = Some (Connection i)) \<and>
     (flush s \<in> {Holding, Flushed} \<longleftrightarrow> pcap_mutex s = Some Supervision) \<and>
     (\<forall>i. point s i \<notin> {Outside, Cancelled} \<longrightarrow> handler (sess X i) = Some m) \<and>
     (\<forall>i. point s i \<noteq> Cancelled)"

lemma set_sess_field:
  assumes "\<And>s. g (f s) = g s"
  shows "g (sess (set_sess i f st) k) = g (sess st k)"
  using assms by (cases "i < length (session_list st)"; cases "i = k") (simp_all add: set_sess_def list_update_beyond)

lemma untunnel_ext_do:
  "merger_untunnel m pkt (ext_do c st) = (fst (merger_untunnel m pkt st), ext_do c (snd (merger_untunnel m pkt st)))"
  by (auto simp: merger_untunnel_def ext_do_def fault_at_def set_sess_def split: sum.split prod.split)

lemma set_sess_ext_do: "set_sess i f (ext_do c st) = ext_do c (set_sess i f st)"
  by (simp add: set_sess_def ext_do_def)

lemma untunnel_fields:
  "pcap_dumper (sess (snd (merger_untunnel m pkt st)) k) = pcap_dumper (sess st k)"
  "handler (sess (snd (merger_untunnel m pkt st)) k) = handler (sess st k)"
  by (auto simp: merger_untunnel_def fault_at_def set_sess_field split: sum.split)

lemma dump_fields: "session_list (pcap_dump d pkt st) = session_list st"
  by (simp add: sess_simps)

lemma merger_handler_parts:
  assumes "handler (sess X i) = Some m" and "merger_untunnel m pkt X = (new_pkt, st)"
  shows "pcapsession_merger_packet_handler (Some i) pkt X =
    set_sess m (count_in pkt) (set_sess i (count_in pkt) (pcap_dump (pcap_dumper (sess st m)) new_pkt st))"
  using assms by (simp add: pcapsession_merger_packet_handler_def)

lemma apply_event_handler [simp]: "handler (sess (apply_event m e X) k) = handler (sess X k)"
proof (cases e)
  case (Handled i pkt)
  then show ?thesis
    by (simp add: pcapsession_merger_packet_handler_def Let_def split_def set_sess_field dump_fields untunnel_fields
        split: option.split)
qed (simp add: ext_do_def)

lemma sequential_simps [simp]: "sequential m [] st = st" "sequential m (e # es) st = sequential m es (apply_event m e st)"
    "sequential m (es @ es') st = sequential m es' (sequential m es st)"
  by (simp_all add: sequential_def)

lemma move_simps [simp]:
  "point (move i p s) = (point s)(i := p)" "waiting (move i p s) = waiting s" "flush (move i p s) = flush s"
  "merge_mutex (move i p s) = merge_mutex s" "pcap_mutex (move i p s) = pcap_mutex s" "shared (move i p s) = shared s"
  by (simp_all add: move_def)

lemma simulatesD:
  assumes "simulates m s X"
  shows "merge_mutex s = None \<Longrightarrow> shared s = X"
    "merge_mutex s = Some i \<Longrightarrow> progress_of m i (point s i) (shared s) X"
    "critical (point s i) \<longleftrightarrow> merge_mutex s = Some i" "holds_pcap (point s i) \<longleftrightarrow> pcap_mutex s = Some (Connection i)"
    "flush s \<in> {Holding, Flushed} \<longleftrightarrow> pcap_mutex s = Some Supervision"
    "point s i \<noteq> Outside \<Longrightarrow> handler (sess X i) = Some m" "point s i \<noteq> Cancelled"
  using assms by (auto simp: simulates_def split: option.splits)

text \<open>Flushing commutes with what a thread does around the call of \<open>pcap_dump\<close>.\<close>

lemma progress_flush:
  assumes "progress_of m i p st X" and "\<not> holds_pcap p"
  shows "progress_of m i p (apply_event m Flush st) (apply_event m Flush X)"
  using assms
  by (cases p) (auto simp: untunnel_ext_do set_sess_ext_do set_sess_field
      dest: arg_cong [where f = "\<lambda>r. pcap_dumper (sess (snd r) m)"] simp: untunnel_fields)

lemma progress_handler: "progress_of m i p st X \<Longrightarrow> handler (sess st k) = handler (sess X k)"
  by (cases p) (auto simp: set_sess_field untunnel_fields dest: arg_cong [where f = "\<lambda>r. handler (sess (snd r) k)"])

lemma simulates_handler: "simulates m s X \<Longrightarrow> handler (sess (shared s) k) = handler (sess X k)"
  using simulatesD(1) simulatesD(2) [THEN progress_handler] by (cases "merge_mutex s") blast+

lemma simulates_waiting: "simulates m (s\<lparr>waiting := w\<rparr>) X = simulates m s X"
  by (simp add: simulates_def)

lemma simulates_outside:
  assumes "simulates m s X" and "point s i = Outside" and "p \<in> {Outside, Entered pkt}"
    and "p \<noteq> Outside \<Longrightarrow> handler (sess X i) = Some m"
  shows "simulates m (move i p (s\<lparr>waiting := w\<rparr>)) X"
proof -
  have "merge_mutex s \<noteq> Some i" "pcap_mutex s \<noteq> Some (Connection i)"
    using simulatesD(3,4) [OF assms(1), of i] assms(2) by auto
  then show ?thesis
    using assms by (auto simp: simulates_def split: option.splits)
qed

lemma simulates_enter:
  assumes "simulates m s X" and "point s i = Entered pkt" and "merge_mutex s = None"
  shows "simulates m (move i (Locked pkt) (s\<lparr>merge_mutex := Some i\<rparr>)) X"
proof -
  have "pcap_mutex s \<noteq> Some (Connection i)" using simulatesD(4) [OF assms(1), of i] assms(2) by simp
  then show ?thesis using simulatesD [OF assms(1)] assms by (auto simp: simulates_def)
qed

lemma simulates_leave:
  assumes "simulates m s X" and "point s i = Leaving"
  shows "simulates m (move i Outside (s\<lparr>merge_mutex := None\<rparr>)) X"
proof -
  have "merge_mutex s = Some i" "pcap_mutex s \<noteq> Some (Connection i)"
    using simulatesD(3,4) [OF assms(1), of i] assms(2) by simp_all
  then show ?thesis using assms by (auto simp: simulates_def)
qed

text \<open>A step of the thread in the critical section.\<close>

lemma simulates_inside:
  assumes "simulates m s X" and "merge_mutex s = Some i" and "critical p" and "progress_of m i p st Y"
    and "holds_pcap p \<longleftrightarrow> pm = Some (Connection i)"
    and "pm = pcap_mutex s \<or> pcap_mutex s \<in> {None, Some (Connection i)} \<and> pm \<in> {None, Some (Connection i)}"
    and "\<And>k. handler (sess Y k) = handler (sess X k)"
  shows "simulates m (move i p (s\<lparr>shared := st, pcap_mutex := pm\<rparr>)) Y"
proof -
  have "critical (point s i)" using simulatesD(3) [OF assms(1)] assms(2) by blast
  then have "point s i \<noteq> Outside" "p \<noteq> Cancelled" using assms(3) by auto
  moreover have "point s k \<noteq> Outside \<Longrightarrow> handler (sess X k) = Some m" for k
    using simulatesD(6,7) [OF assms(1)] by blast
  ultimately show ?thesis
    using assms(2-) simulatesD(3,4,5,7) [OF assms(1)]
    by (auto simp: simulates_def)
qed

lemma simulates_section:
  assumes "simulates m s X" and "critical (point s i)"
  shows "merge_mutex s = Some i" "progress_of m i (point s i) (shared s) X" "handler (sess X i) = Some m"
  using simulatesD(2,3,6) [OF assms(1), of i] assms(2) by (cases "point s i"; simp)+

lemma call_simulates:
  assumes s: "simulates m s X" and p: "point s i = Outside" and a: "advance m i s = Some (es, s')"
  shows "simulates m s' (sequential m es X)"
proof -
  obtain pkt pkts where w: "waiting s i = pkt # pkts" using a p by (cases "waiting s i") (simp_all add: advance_def)
  note h = simulates_handler [OF s, of i]
  show ?thesis
  proof (cases "handler (sess X i)")
    case None
    then show ?thesis using a p w h s simulates_waiting
      by (auto simp: advance_def pcapsession_merger_packet_handler_def)
  next
    case (Some k)
    then show ?thesis using a p w h simulates_outside [OF s p, of "Entered pkt" pkt]
      by (auto simp: advance_def split: if_splits)
  qed
qed

text \<open>The dump is the step with which the sequential handler catches up.\<close>

lemma dump_simulates:
  assumes s: "simulates m s X" and p: "point s i = Dumping pkt new_pkt"
  shows "simulates m (move i (Dumped pkt) (s\<lparr>shared := pcap_dump (pcap_dumper (sess (shared s) m)) new_pkt (shared s)\<rparr>))
    (apply_event m (Handled i pkt) X)"
proof -
  have "critical (point s i)" using p by simp
  note n = simulates_section [OF s this]
  have "merger_untunnel m pkt X = (new_pkt, shared s)" using n(2) p by simp
  note e = merger_handler_parts [OF n(3) this]
  let ?st = "pcap_dump (pcap_dumper (sess (shared s) m)) new_pkt (shared s)"
  have "simulates m (move i (Dumped pkt) (s\<lparr>shared := ?st, pcap_mutex := pcap_mutex s\<rparr>)) (apply_event m (Handled i pkt) X)"
    using p simulatesD(4) [OF s, of i]
    by (intro simulates_inside [OF s n(1)]) (simp_all add: e flip: apply_event_handler [of m "Handled i pkt" X])
  then show ?thesis by simp
qed

lemma advance_simulates:
  assumes s: "simulates m s X" and a: "advance m i s = Some (es, s')"
  shows "simulates m s' (sequential m es X)"
proof -
  note d = simulatesD(4) [OF s, of i] and r = simulates_section(2) [OF s, of i]
  note inside = simulates_inside [OF s simulates_section(1) [OF s]]
  show ?thesis
  proof (cases "point s i")
    case Outside
    then show ?thesis using call_simulates [OF s _ a] by simp
  next
    case (Entered pkt)
    then show ?thesis using a simulates_enter [OF s Entered] by (auto simp: advance_def split: if_splits)
  next
    case (Locked pkt)
    then show ?thesis
      using a r d inside [of i "Untunnelled pkt (fst (merger_untunnel m pkt X))" "snd (merger_untunnel m pkt X)" X "pcap_mutex s"]
      by (auto simp: advance_def split_def Let_def)
  next
    case (Untunnelled pkt new_pkt)
    then show ?thesis
      using a r inside [of i "Dumping pkt new_pkt" "shared s" X "Some (Connection i)"] by (auto simp: advance_def split: if_splits)
  next
    case (Dumping pkt new_pkt)
    then show ?thesis using a dump_simulates [OF s Dumping] by (auto simp: advance_def)
  next
    case (Dumped pkt)
    then show ?thesis using a r d inside [of i "Unlocked pkt" "shared s" X None] by (auto simp: advance_def)
  next
    case (Unlocked pkt)
    then show ?thesis
      using a r d inside [of i "Counted pkt" "set_sess i (count_in pkt) (shared s)" X "pcap_mutex s"] by (auto simp: advance_def)
  next
    case (Counted pkt)
    then show ?thesis
      using a r d inside [of i Leaving "set_sess m (count_in pkt) (shared s)" X "pcap_mutex s"] by (auto simp: advance_def)
  next
    case Leaving
    then show ?thesis using a simulates_leave [OF s Leaving] by (auto simp: advance_def)
  qed (use a in \<open>simp add: advance_def\<close>)
qed

lemma flush_simulates:
  assumes s: "simulates m s X" and a: "flush_advance m s = Some (es, s')"
  shows "simulates m s' (sequential m es X)"
proof (cases "flush s")
  case Holding
  then have "pcap_mutex s = Some Supervision" using simulatesD(5) [OF s] by simp
  then have n: "\<not> holds_pcap (point s k)" for k using simulatesD(4) [OF s] by simp
  have "merge_mutex s = None \<Longrightarrow> apply_event m Flush (shared s) = apply_event m Flush X"
    "merge_mutex s = Some i \<Longrightarrow> progress_of m i (point s i) (apply_event m Flush (shared s)) (apply_event m Flush X)" for i
    using simulatesD(1,2) [OF s] progress_flush [OF _ n] by auto
  then show ?thesis
    using a Holding s apply_event_handler [of m Flush X]
    by (cases "merge_mutex s") (auto simp: flush_advance_def simulates_def)
qed (use a s in \<open>auto simp: flush_advance_def simulates_def split: if_splits\<close>)

lemma step_simulates: "simulates m s X \<Longrightarrow> thread_step m s es s' \<Longrightarrow> simulates m s' (sequential m es X)"
  using advance_simulates flush_simulates by (blast elim: thread_stepE)

lemma at_rest_simulates: "at_rest s \<Longrightarrow> simulates m s (shared s)"
  by (simp add: at_rest_def simulates_def)

lemma handled_append [simp]: "handled i (es @ es') = handled i es @ handled i es'"
  by (induction i es rule: handled.induct) simp_all

text \<open>No packet is lost or taken twice.\<close>

lemma advance_packets:
  assumes "advance m j s = Some (es, s')"
  shows "handled i es @ in_hand (point s' i) @ waiting s' i = in_hand (point s i) @ waiting s i"
  using assms
  by (cases "point s j"; cases "i = j") (auto simp: advance_def split_def Let_def split: list.splits option.splits if_splits)

lemma flush_packets:
  assumes "flush_advance m s = Some (es, s')"
  shows "handled i es = [] \<and> point s' = point s \<and> waiting s' = waiting s"
  using assms by (cases "flush s") (auto simp: flush_advance_def split: if_splits)

lemma step_packets:
  "thread_step m s es s' \<Longrightarrow> handled i es @ in_hand (point s' i) @ waiting s' i = in_hand (point s i) @ waiting s i"
  using advance_packets flush_packets by (auto elim!: thread_stepE)

lemma runs_packets:
  "runs m s es s' \<Longrightarrow> handled i es @ in_hand (point s' i) @ waiting s' i = in_hand (point s i) @ waiting s i"
  by (erule event_runs_conserved [where g = "\<lambda>s. in_hand (point s i) @ waiting s i"])
    (simp_all add: step_packets)

section \<open>Progress\<close>

fun steps_left :: "point \<Rightarrow> nat" where
  "steps_left (Entered _) = 8"
| "steps_left (Locked _) = 7"
| "steps_left (Untunnelled _ _) = 6"
| "steps_left (Dumping _ _) = 5"
| "steps_left (Dumped _) = 4"
| "steps_left (Unlocked _) = 3"
| "steps_left (Counted _) = 2"
| "steps_left Leaving = 1"
| "steps_left _ = 0"

definition work :: "threads \<Rightarrow> nat \<Rightarrow> nat" where
  "work s i = steps_left (point s i) + 9 * length (waiting s i)"

text \<open>Every connection that has packets has the merger as its handler, or none.\<close>

definition served :: "nat \<Rightarrow> threads \<Rightarrow> bool" where
  "served m s \<longleftrightarrow> (\<forall>i. waiting s i \<noteq> [] \<longrightarrow> handler (sess (shared s) i) \<in> {None, Some m})"

definition finished :: "threads \<Rightarrow> bool" where
  "finished s \<longleftrightarrow> (\<forall>i. point s i = Outside \<and> waiting s i = [])"

lemma advance_work:
  assumes "advance m j s = Some (es, s')"
  shows "work s' j < work s j" and "i \<noteq> j \<Longrightarrow> work s' i = work s i" and "waiting s' i \<noteq> [] \<Longrightarrow> waiting s i \<noteq> []"
  using assms
  by (cases "point s j"; fastforce simp: work_def advance_def split_def Let_def split: list.splits option.splits if_splits)+

lemma runs_work:
  assumes "runs m s es s'"
  shows "work s' i \<le> work s i \<and> (waiting s' i \<noteq> [] \<longrightarrow> waiting s i \<noteq> [])"
  using assms
proof (induction rule: event_runs.induct)
  case (more s es s' es' s'')
  have "work s'' i \<le> work s' i \<and> (waiting s'' i \<noteq> [] \<longrightarrow> waiting s' i \<noteq> [])"
    using more(2)
  proof cases
    case (connection j)
    note a = advance_work [OF connection]
    show ?thesis using a(1) a(2,3) [of i] by (cases "i = j") auto
  next
    case supervision
    then show ?thesis using flush_packets [OF supervision] by (simp add: work_def)
  qed
  then show ?case using more(3) by auto
qed simp

lemma sequential_handler [simp]: "handler (sess (sequential m es X) k) = handler (sess X k)"
  by (induction es arbitrary: X) simp_all

text \<open>Who is where agrees with who holds which mutex.\<close>

definition mutexes :: "threads \<Rightarrow> bool" where
  "mutexes s \<longleftrightarrow> (\<forall>i. critical (point s i) \<longleftrightarrow> merge_mutex s = Some i) \<and>
     (\<forall>i. holds_pcap (point s i) \<longleftrightarrow> pcap_mutex s = Some (Connection i)) \<and>
     (flush s \<in> {Holding, Flushed} \<longleftrightarrow> pcap_mutex s = Some Supervision) \<and> (\<forall>i. point s i \<noteq> Cancelled)"

lemma mutexesD:
  assumes "mutexes s"
  shows "critical (point s i) \<longleftrightarrow> merge_mutex s = Some i" "holds_pcap (point s i) \<longleftrightarrow> pcap_mutex s = Some (Connection i)"
    "flush s \<in> {Holding, Flushed} \<longleftrightarrow> pcap_mutex s = Some Supervision" "point s i \<noteq> Cancelled"
  using assms by (simp_all add: mutexes_def)

lemma critical_advances:
  assumes "mutexes s" and "pcap_mutex s \<noteq> Some Supervision" and "critical (point s i)"
  shows "\<exists>r. advance m i s = Some r"
proof (cases "point s i")
  case (Untunnelled pkt new_pkt)
  have "pcap_mutex s \<noteq> Some (Connection k)" for k
    using mutexesD(1,2) [OF assms(1)] assms(3) Untunnelled
    by (metis critical.simps(6,7) holds_pcap.elims(2) holds_pcap.simps(6) option.inject)
  then have "pcap_mutex s = None" using assms(2) by (metis holder.exhaust not_None_eq)
  then show ?thesis using Untunnelled by (simp add: advance_def)
qed (use assms in \<open>auto simp: advance_def split_def Let_def\<close>)

lemma some_thread_advances:
  assumes s: "mutexes s" and p: "pcap_mutex s \<noteq> Some Supervision" and h: "served m s" and w: "\<not> finished s"
  shows "\<exists>j r. advance m j s = Some r"
proof (cases "merge_mutex s")
  case (Some i)
  then show ?thesis using critical_advances [OF s p] mutexesD(1) [OF s] by blast
next
  case None
  obtain i where i: "point s i \<noteq> Outside \<or> waiting s i \<noteq> []" using w by (auto simp: finished_def)
  have "\<not> critical (point s i)" "point s i \<noteq> Cancelled" using mutexesD(1,4) [OF s] None by auto
  then consider "point s i = Outside" | pkt where "point s i = Entered pkt" by (cases "point s i") auto
  then show ?thesis
  proof cases
    case 1
    then obtain pkt pkts where "waiting s i = pkt # pkts" using i by (cases "waiting s i") auto
    moreover from this have "handler (sess (shared s) i) \<in> {None, Some m}" using h by (simp add: served_def)
    ultimately have "\<exists>r. advance m i s = Some r" using 1 by (auto simp: advance_def)
    then show ?thesis by blast
  next
    case 2
    then show ?thesis using None by (intro exI [of _ i]) (simp add: advance_def)
  qed
qed

text \<open>The supervision thread can always give the mutex back without another thread moving.\<close>

lemma flushed_releases:
  assumes "flush s = Flushed"
  shows "runs m s [] (s\<lparr>flush := Elsewhere, pcap_mutex := None\<rparr>)"
  by (rule runs_one [OF supervision]) (simp add: flush_advance_def assms)

lemma supervision_releases:
  assumes "mutexes s"
  shows "\<exists>es s'. runs m s es s' \<and> pcap_mutex s' \<noteq> Some Supervision \<and> point s' = point s \<and> waiting s' = waiting s"
proof (cases "flush s")
  case Holding
  define s1 where "s1 = s\<lparr>flush := Flushed,
     shared := ext_do (Pcap_dump_flush (pcap_dumper (sess (shared s) m))) (shared s)\<rparr>"
  have a: "flush_advance m s = Some ([Flush], s1)" using Holding by (simp add: flush_advance_def s1_def)
  have "runs m s ([Flush] @ []) (s1\<lparr>flush := Elsewhere, pcap_mutex := None\<rparr>)"
    by (rule runs_trans [OF flushed_releases runs_one [OF supervision [OF a]]]) (simp add: s1_def)
  then show ?thesis by (intro exI conjI) (assumption, simp_all add: s1_def)
next
  case Flushed
  then show ?thesis using flushed_releases [OF Flushed, of m] by fastforce
qed (use assms mutexesD(3) [OF assms] runs_none in \<open>fastforce intro!: exI [of _ "[]"] exI [of _ s]\<close>)+

text \<open>
  A relation to the sequential handler that the steps keep, that fixes who may use the merger and under which the mutexes are
  consistent, is enough for all packets to be handled in the end.
\<close>

locale merger_match = event_simulation "thread_step m" "apply_event m" match
  for m :: nat and match :: "threads \<Rightarrow> gstate \<Rightarrow> bool" +
  assumes match_mutexes: "match s X \<Longrightarrow> mutexes s"
    and match_handler: "match s X \<Longrightarrow> handler (sess (shared s) k) = handler (sess X k)"
begin

lemma runs_handler:
  assumes "runs m s es s'" and "match s X"
  shows "handler (sess (shared s') k) = handler (sess (shared s) k)"
  using match_handler [OF runs_match [OF assms], of k] match_handler [OF assms(2), of k]
  by (simp flip: sequential_def)

lemma can_finish:
  assumes "match s X" and "served m s" and "finite C" and "\<forall>i. i \<notin> C \<longrightarrow> work s i = 0"
  shows "\<exists>es s'. runs m s es s' \<and> finished s'"
  using assms
proof (induction "\<Sum>i\<in>C. work s i" arbitrary: s X rule: less_induct)
  case less
  obtain es1 s1 where r1: "runs m s es1 s1" "pcap_mutex s1 \<noteq> Some Supervision" "point s1 = point s" "waiting s1 = waiting s"
    using supervision_releases [OF match_mutexes [OF less.prems(1)]] by blast
  note m1 = runs_match [OF r1(1) less.prems(1)]
  have w1: "work s1 = work s" "served m s1"
    using r1(3,4) runs_handler [OF r1(1) less.prems(1)] less.prems(2) by (auto simp: work_def served_def)
  show ?case
  proof (cases "finished s1")
    case True
    then show ?thesis using r1(1) by blast
  next
    case False
    obtain j es2 s2 where a: "advance m j s1 = Some (es2, s2)"
      using some_thread_advances [OF match_mutexes [OF m1] r1(2) w1(2) False] by auto
    note w2 = advance_work [OF a]
    note r2 = runs_one [OF connection [OF a]]
    have "served m s2" using w1(2) w2(3) runs_handler [OF r2 m1] by (simp add: served_def)
    moreover have j: "j \<in> C" using w2(1) w1(1) less.prems(4) by (metis not_less_zero)
    have "work s2 x \<le> work s x" for x using w1(1) w2(1) w2(2) [of x] by (cases "x = j") simp_all
    then have "(\<Sum>i\<in>C. work s2 i) < (\<Sum>i\<in>C. work s i)"
      using w1(1) w2(1) j less.prems(3) by (intro sum_strict_mono_ex1) auto
    moreover have "\<forall>i. i \<notin> C \<longrightarrow> work s2 i = 0" using less.prems(4) w1(1) w2(2) j by metis
    ultimately obtain es3 s3 where "runs m s2 es3 s3" "finished s3"
      using less.hyps [OF _ runs_match [OF r2 m1]] less.prems(3) by blast
    then show ?thesis using runs_trans runs_more [OF r1(1) connection [OF a]] by blast
  qed
qed

end

lemma simulates_mutexes: "simulates m s X \<Longrightarrow> mutexes s"
  by (simp add: simulates_def mutexes_def)

interpretation merging: merger_match m "simulates m" for m
  by unfold_locales (fact step_simulates [unfolded sequential_def] simulates_mutexes simulates_handler)+

lemma runs_simulates: "runs m s es s' \<Longrightarrow> at_rest s \<Longrightarrow> simulates m s' (sequential m es (shared s))"
  unfolding sequential_def by (rule merging.runs_match [OF _ at_rest_simulates])

section \<open>What is written\<close>

primrec handled_packets :: "event list \<Rightarrow> (nat \<times> packet) list" where
  "handled_packets [] = []"
| "handled_packets (e # es) = (case e of Handled i pkt \<Rightarrow> (i, pkt) # handled_packets es | Flush \<Rightarrow> handled_packets es)"

lemma handled_eq: "handled i es = map snd (filter (\<lambda>x. fst x = i) (handled_packets es))"
  by (induction i es rule: handled.induct) simp_all

lemma sequential_stream:
  assumes "m < length (session_list st)" and "pcap_dumper (sess st m) \<noteq> 0"
    and "\<forall>(i, pkt) \<in> set (handled_packets es). merges_to st m i \<and> mergeable (untunnel (sess st m)) pkt"
  shows "stream_of (pcap_dumper (sess st m)) (sequential m es st) = stream_of (pcap_dumper (sess st m)) st @
      map (\<lambda>(_, pkt). captured (merged (untunnel (sess st m)) pkt)) (handled_packets es) \<and>
    faults (sequential m es st) = faults st"
  using assms
proof (induction es arbitrary: st)
  case (Cons e es)
  define st1 where "st1 = apply_event m e st"
  have st1: "length (session_list st1) = length (session_list st)" "faults st1 = faults st"
      "\<And>k. k < length (session_list st) \<Longrightarrow> same_session (sess st k) (sess st1 k)"
      "stream_of (pcap_dumper (sess st m)) st1 = stream_of (pcap_dumper (sess st m)) st @
        map (\<lambda>(_, pkt). captured (merged (untunnel (sess st m)) pkt)) (handled_packets [e])"
    using Cons.prems merger_handler_effect [OF _ Cons.prems(1,2)]
    by (cases e; simp add: st1_def ext_do_def stream_of_def)+
  note f = same_session_simps [OF st1(3)]
  have m1: "pcap_dumper (sess st1 m) = pcap_dumper (sess st m)" "untunnel (sess st1 m) = untunnel (sess st m)"
    using f Cons.prems(1) by simp_all
  have "\<forall>(i, pkt) \<in> set (handled_packets es). merges_to st1 m i \<and> mergeable (untunnel (sess st1 m)) pkt"
    using Cons.prems(3) f m1 st1(1) by (auto simp: merges_to_def split: event.splits)
  then show ?case
    using Cons.IH [of st1] Cons.prems(1,2) m1 st1 by (simp add: st1_def [symmetric] split: event.splits)
qed simp

section \<open>Cancellation\<close>

definition blocked :: "nat \<Rightarrow> gstate \<Rightarrow> threads \<Rightarrow> bool" where
  "blocked i st s \<longleftrightarrow> shared s = st \<and> merge_mutex s = Some i \<and> pcap_mutex s = Some (Connection i) \<and>
     point s i = Cancelled \<and> (\<forall>k. \<not> critical (point s k)) \<and> flush s \<in> {Elsewhere, Wants}"

lemma blocked_step:
  assumes "blocked i st s" and "thread_step m s es s'"
  shows "blocked i st s'"
  using assms(2)
proof cases
  case (connection k)
  have "\<not> critical (point s k)" using assms(1) by (simp add: blocked_def)
  then show ?thesis
    using connection assms(1)
    by (cases "point s k") (auto simp: blocked_def advance_def split: list.splits option.splits if_splits)
next
  case supervision
  then show ?thesis using assms(1) by (auto simp: blocked_def flush_advance_def split: if_splits)
qed

lemma blocked_runs: "runs m s es s' \<Longrightarrow> blocked i st s \<Longrightarrow> blocked i st s'"
  by (rule event_runs_invariant [where P = "blocked i st"]) (blast intro: blocked_step)+

lemma cancel_blocks:
  assumes "simulates m s X" and "point s i = Dumping pkt new_pkt" and "cancel i s = Some s'"
  shows "blocked i (shared s) s'"
proof -
  have i: "merge_mutex s = Some i" "pcap_mutex s = Some (Connection i)"
    using simulatesD(3,4) [OF assms(1), of i] assms(2) by simp_all
  then have "\<not> critical (point s k)" if "k \<noteq> i" for k using simulatesD(3) [OF assms(1), of k] that by auto
  then show ?thesis using assms(2,3) i by (auto simp: blocked_def cancel_def split: if_splits)
qed

section \<open>The descriptor check of the distribution\<close>

text \<open>
  \<open>pcapsession_clientconn_client_handle_packet\<close> in two halves: the checks of state and descriptor, and the dump. No
  mutex is held across the two.
\<close>

definition handle_check :: "os \<Rightarrow> nat \<Rightarrow> gstate \<Rightarrow> bool \<times> gstate" where
  "handle_check os c st =
     (if state (sess st c) \<noteq> PCAP_SESSION_RUNNING then (False, st)
      else let (is_open, st) = iotests_fd_open os (fd (sess st c)) st in
        if is_open then (True, st) else (False, set_conn (sid (sess st c)) None st))"

definition handle_dump :: "nat \<Rightarrow> packet \<Rightarrow> gstate \<Rightarrow> gstate" where
  "handle_dump c pkt st = set_sess c (count_in pkt) (pcap_dump (pcap_dumper (sess st c)) pkt st)"

lemma handle_packet_halves:
  "pcapsession_clientconn_client_handle_packet os (Some c) pkt st =
     (let (go, st) = handle_check os c st in if go then handle_dump c pkt st else st)"
  by (simp add: pcapsession_clientconn_client_handle_packet_def handle_check_def handle_dump_def Let_def split_def)

lemma check_passed:
  assumes "handle_check os c st = (True, st1)"
  shows "session_list st1 = session_list st" "clientconnlist st1 = clientconnlist st" "faults st1 = faults st"
    "state (sess st c) = 4"
  using assms by (auto simp: handle_check_def iotests_fd_open_eq split: if_splits)

section \<open>Properties\<close>

text \<open>
  C34: cancelling a thread in its write blocks the merger for good. If a connection is stopped while its thread is in
  \<open>pcap_dump\<close>, both mutexes stay locked: however the other threads go on, nothing is merged or flushed any more.
\<close>

theorem cancel_blocks_merger:
  assumes "at_rest s" and "runs m s es s1" and "point s1 i = Dumping pkt new_pkt" and "cancel i s1 = Some s2"
    and "runs m s2 es' s3"
  shows "shared s3 = shared s1 \<and> merge_mutex s3 = Some i \<and> pcap_mutex s3 = Some (Connection i) \<and>
    (\<forall>k. \<not> critical (point s3 k)) \<and> flush s3 \<in> {Elsewhere, Wants}"
  using blocked_runs [OF assms(5) cancel_blocks [OF runs_simulates [OF assms(2,1)] assms(3,4)]]
  by (simp add: blocked_def)

text \<open>
  C35: the check of a client connection and the dump are not one. If the supervision thread stops the connection
  between the two, the packet is dumped through a null pointer; without that stop there is no fault.
\<close>

theorem dump_races_with_stop:
  assumes "system_ok st" and "c < 128" and "clientconnlist st ! c \<noteq> None" and "handle_check os c st = (True, st1)"
    and "whole pkt"
  shows "faults (handle_dump c pkt st1) = faults st \<and>
    Null_pointer \<in> set (faults (handle_dump c pkt (pcapsession_clientconn_stop os (Some c) st1)))"
proof
  note e = check_passed [OF assms(4)]
  note l = system_ok_listed [OF assms(1-3)]
  show "faults (handle_dump c pkt st1) = faults st"
    using e l(2) assms(5) by (simp add: handle_dump_def sess_simps)
  have "sid (sess st1 c) = int c" "tables_ok st1"
    using e(1,2) system_okD [OF assms(1)] assms(2) l(4) by (auto simp: sessions_ok_def session_ok_def tables_ok_def)
  then have "pcap_dumper (sess (pcapsession_clientconn_stop os (Some c) st1) c) = 0"
    using clientconn_stopper.stop_nth [of st1 c c os] assms(2) by (simp add: after_stop_def)
  then show "Null_pointer \<in> set (faults (handle_dump c pkt (pcapsession_clientconn_stop os (Some c) st1)))"
    by (simp add: handle_dump_def pcap_dump_def fault_at_def set_sess_def)
qed

text \<open>A merger and two connections, with two packets for the first and one for the second.\<close>

definition two_threads :: threads where
  "two_threads = \<lparr>waiting = (\<lambda>_. [])(
       1 := [(\<lparr>ts_sec = 1, ts_usec = 2, caplen = 2, pkt_len = 2\<rparr>, [1, 2]), (\<lparr>ts_sec = 1, ts_usec = 4, caplen = 1, pkt_len = 1\<rparr>, [3])],
       2 := [(\<lparr>ts_sec = 1, ts_usec = 3, caplen = 1, pkt_len = 9\<rparr>, [7])]),
     point = (\<lambda>_. Outside), flush = Elsewhere, merge_mutex = None, pcap_mutex = None, shared = merge_state\<rparr>"

lemma two_threads_ok: "at_rest two_threads" "finite {i. waiting two_threads i \<noteq> []}" "served 0 two_threads"
proof -
  show "at_rest two_threads" by (simp add: two_threads_def at_rest_def)
  have "{i. waiting two_threads i \<noteq> []} = {1, 2}" by (auto simp: two_threads_def)
  then show "finite {i. waiting two_threads i \<noteq> []}" by simp
  show "served 0 two_threads" by (auto simp: two_threads_def served_def merge_state_def)
qed

text \<open>The thread of the first connection is cancelled in its first write.\<close>

definition in_write :: threads where
  "in_write = two_threads\<lparr>
     waiting := (waiting two_threads)(1 := [(\<lparr>ts_sec = 1, ts_usec = 4, caplen = 1, pkt_len = 1\<rparr>, [3])]),
     point := (\<lambda>_. Outside)(1 := Dumping (\<lparr>ts_sec = 1, ts_usec = 2, caplen = 2, pkt_len = 2\<rparr>, [1, 2])
       (\<lparr>ts_sec = 1, ts_usec = 2, caplen = 2, pkt_len = 2\<rparr>, [1, 2])),
     merge_mutex := Some 1, pcap_mutex := Some (Connection 1)\<rparr>"

lemma in_write_reached: "runs 0 two_threads [] in_write"
proof -
  define p :: packet where "p = (\<lparr>ts_sec = 1, ts_usec = 2, caplen = 2, pkt_len = 2\<rparr>, [1, 2])"
  define s1 where "s1 = move 1 (Entered p)
    (two_threads\<lparr>waiting := (waiting two_threads)(1 := [(\<lparr>ts_sec = 1, ts_usec = 4, caplen = 1, pkt_len = 1\<rparr>, [3])])\<rparr>)"
  define s2 where "s2 = move 1 (Locked p) (s1\<lparr>merge_mutex := Some 1\<rparr>)"
  define s3 where "s3 = move 1 (Untunnelled p p) s2"
  have "advance 0 1 two_threads = Some ([], s1)"
    by (simp add: advance_def two_threads_def s1_def p_def merge_state_def)
  moreover have "advance 0 1 s1 = Some ([], s2)"
    by (simp add: advance_def two_threads_def s1_def s2_def)
  moreover have "merger_untunnel 0 p merge_state = (p, merge_state)"
    by (simp add: merger_untunnel_def merge_state_def zero_session_def)
  then have "advance 0 1 s2 = Some ([], s3)"
    by (simp add: advance_def s3_def s2_def s1_def two_threads_def move_def)
  moreover have "advance 0 1 s3 = Some ([], in_write)"
    by (simp add: advance_def in_write_def s3_def s2_def s1_def two_threads_def move_def p_def)
  ultimately show ?thesis
    using runs_more [OF runs_more [OF runs_more [OF runs_more [OF runs_none]]]] connection by (metis append_Nil)
qed

theorem cancel_blocks_merger_witness:
  "\<exists>s3. advance 0 2 (move 1 Cancelled in_write) = Some ([], s3) \<and> shared s3 = merge_state \<and>
    merge_mutex s3 = Some 1 \<and> pcap_mutex s3 = Some (Connection 1)"
proof -
  have c: "cancel 1 in_write = Some (move 1 Cancelled in_write)"
    by (simp add: in_write_def cancel_def two_threads_def)
  have "handler (sess merge_state 2) = Some 0" by (simp add: merge_state_def)
  then obtain s3 where a: "advance 0 2 (move 1 Cancelled in_write) = Some ([], s3)"
    by (simp add: advance_def in_write_def two_threads_def)
  obtain pkt where "point in_write 1 = Dumping pkt pkt" "shared in_write = merge_state"
    by (simp add: in_write_def two_threads_def)
  then have "shared s3 = merge_state \<and> merge_mutex s3 = Some 1 \<and> pcap_mutex s3 = Some (Connection 1)"
    using cancel_blocks_merger [OF two_threads_ok(1) in_write_reached _ c runs_one [OF connection [OF a]]] by metis
  then show ?thesis using a by blast
qed

lemma dist_state_system: "system_ok dist_state"
  using dist_state_ok dist_state_sess(2)
  by (auto simp: system_ok_def conns_ok_def dist_state_sess(4) nth_list_update)

theorem dump_races_with_stop_witness:
  "Null_pointer \<in> set (faults (handle_dump 1 (\<lparr>ts_sec = 1, ts_usec = 2, caplen = 3, pkt_len = 60\<rparr>, [1, 2, 3])
     (pcapsession_clientconn_stop quiet_os (Some 1) (snd (handle_check quiet_os 1 dist_state)))))"
proof -
  define st1 where "st1 = snd (handle_check quiet_os 1 dist_state)"
  have c: "handle_check quiet_os 1 dist_state = (True, st1)"
    unfolding st1_def using dist_state_sess(2)
    by (simp add: handle_check_def iotests_fd_open_eq quiet_os_def del: One_nat_def)
  have l: "clientconnlist dist_state ! 1 \<noteq> None" by (simp add: dist_state_sess(4) del: One_nat_def)
  show ?thesis
    using dump_races_with_stop [OF dist_state_system _ l c sample_whole] unfolding st1_def by (simp del: One_nat_def)
qed

end
