(* ===== verification/Session_Reports.thy ===== *)
theory Session_Reports
  imports Session_Threads
begin

text \<open>
  The monitors beside the packet handlers. The supervision thread reports and clears the counters of a session
  (\<open>handle_monitor\<close>) without a mutex while the threads of the connections count packets. The counters can then be
  wrong, and this theory says how; the sessions, apart from their monitors, and what is written to the files are not affected.
\<close>

section \<open>The report\<close>

text \<open>
  The end of the body of the supervision loop, for session \<open>k\<close> at the time \<open>now\<close>. A division by zero ends the
  process: \<open>None\<close>.
\<close>

definition report_monitor :: "int \<Rightarrow> nat \<Rightarrow> gstate \<Rightarrow> gstate option" where
  "report_monitor now k st =
     (case mon (sess st k) of None \<Rightarrow> Some st
      | Some mo \<Rightarrow>
          (case handle_monitor F_pcapsession now mo (clocks st) of
             Inl f \<Rightarrow> None
           | Inr (mo', clocks', _) \<Rightarrow>
               Some ((set_sess k (\<lambda>s. s\<lparr>mon := Some mo'\<rparr>) (ext_do Time st))\<lparr>clocks := clocks'\<rparr>)))"

text \<open>It is the second half of \<open>supervise_monitor\<close>, after the flush.\<close>

lemma supervise_monitor_halves:
  assumes "\<not> (idle_output (sess st k))" and "state (sess st k) = 4" and "report_monitor (os (hist st) Time) k st = Some st'"
  shows "supervise_monitor os k st = st'"
  using assms
  by (auto simp: supervise_monitor_def report_monitor_def idle_output_def ext_def ext_do_def Let_def
      split: option.splits sum.splits)

section \<open>Counting without a mutex\<close>

text \<open>
  \<open>monitor->packets += packets; monitor->bytes += bytes\<close> in two halves: what is loaded, and the store.
\<close>

definition increment_store :: "monitor \<Rightarrow> int \<Rightarrow> int \<Rightarrow> monitor \<Rightarrow> monitor" where
  "increment_store loaded p b m = m\<lparr>packets := packets loaded + p, bytes := bytes loaded + b\<rparr>"

lemma increment_halves: "monitor_increment (Some m) p b = Some (increment_store m p b m)"
  by (simp add: monitor_increment_def increment_store_def)

text \<open>
  If a report comes between the two, the counters that it has just output and cleared are stored again, and are output a second
  time with the next report.
\<close>

lemma report_between_halves:
  assumes "handle_monitor f now m c = Inr (m', c', Some r)"
  shows "packets (rep_monitor r) = packets m" "packets (increment_store m p b m') = packets m + p"
    "packets (increment_store m' p b m') = p"
  using assms by (auto simp: handle_monitor_def increment_store_def clear_counters_def Let_def sbind_Inr_iff split: if_splits)

section \<open>Steps with reports\<close>

text \<open>
  Beside the steps of \<open>Session_Threads\<close>: a report, and, for whatever counts were torn by one, a store of any
  value into a monitor.
\<close>

inductive report_step :: "nat \<Rightarrow> threads \<Rightarrow> event list \<Rightarrow> threads \<Rightarrow> bool" for m where
  thread: "thread_step m s es s' \<Longrightarrow> report_step m s es s'"
| report: "report_monitor now k (shared s) = Some st \<Longrightarrow> report_step m s [] (s\<lparr>shared := st\<rparr>)"
| torn: "mon (sess (shared s) k) \<noteq> None \<Longrightarrow>
    report_step m s [] (s\<lparr>shared := set_sess k (\<lambda>x. x\<lparr>mon := Some mo\<rparr>) (shared s)\<rparr>)"

inductive_cases report_stepE: "report_step m s es s'"

abbreviation report_runs :: "nat \<Rightarrow> threads \<Rightarrow> event list \<Rightarrow> threads \<Rightarrow> bool" where
  "report_runs m \<equiv> event_runs (report_step m)"

lemma runs_report_runs: "runs m s es s' \<Longrightarrow> report_runs m s es s'"
  by (erule event_runs_mono) (rule report_step.thread)

text \<open>The sessions without their monitors, and the calls without those of \<open>time\<close>.\<close>

definition unmonitored :: "gstate \<Rightarrow> gstate" where
  "unmonitored st = st\<lparr>hist := filter (\<lambda>c. c \<noteq> Time) (hist st),
     session_list := map (\<lambda>s. s\<lparr>mon := None\<rparr>) (session_list st), clocks := (\<lambda>_. 0)\<rparr>"

lemma nth_same_map:
  assumes "map f xs = map f ys"
  shows "f (xs ! k) = f (ys ! k)"
proof -
  have l: "length xs = length ys" using assms by (rule map_eq_imp_length_eq)
  show ?thesis
  proof (cases "k < length xs")
    case True
    then show ?thesis using arg_cong [OF assms, of "\<lambda>zs. zs ! k"] l by simp
  next
    case False
    have "k \<ge> length xs \<longrightarrow> xs ! k = ys ! k"
      using l by (induction xs ys arbitrary: k rule: list_induct2) (auto simp: nth_Cons split: nat.split)
    then show ?thesis using False by simp
  qed
qed

lemma unmonitored_sess:
  assumes "unmonitored st = unmonitored st'"
  shows "handler (sess st k) = handler (sess st' k)" "pcap_dumper (sess st k) = pcap_dumper (sess st' k)"
    "untunnel (sess st k) = untunnel (sess st' k)"
proof -
  have "map (\<lambda>s. s\<lparr>mon := None\<rparr>) (session_list st) = map (\<lambda>s. s\<lparr>mon := None\<rparr>) (session_list st')"
    using arg_cong [OF assms, of session_list] by (simp add: unmonitored_def)
  note e = nth_same_map [OF this, of k]
  show "handler (sess st k) = handler (sess st' k)" using arg_cong [OF e, of handler] by simp
  show "pcap_dumper (sess st k) = pcap_dumper (sess st' k)" using arg_cong [OF e, of pcap_dumper] by simp
  show "untunnel (sess st k) = untunnel (sess st' k)" using arg_cong [OF e, of untunnel] by simp
qed

text \<open>What only writes a monitor leaves no trace; the rest commutes.\<close>

lemma unmonitored_set_mon: "(\<And>s. (f s)\<lparr>mon := None\<rparr> = s\<lparr>mon := None\<rparr>) \<Longrightarrow> unmonitored (set_sess i f st) = unmonitored st"
  by (cases "i < length (session_list st)")
    (simp_all add: unmonitored_def set_sess_def map_update list_update_same_conv list_update_beyond)

lemma unmonitored_count [simp]: "unmonitored (set_sess i (count_in pkt) st) = unmonitored st"
  by (rule unmonitored_set_mon) (simp add: count_in_def)

lemma unmonitored_clocks [simp]: "unmonitored (st\<lparr>clocks := c\<rparr>) = unmonitored st"
  by (simp add: unmonitored_def)

lemma unmonitored_fault [simp]: "unmonitored (fault_at f st) = fault_at f (unmonitored st)"
  by (simp add: unmonitored_def fault_at_def)

lemma unmonitored_call: "unmonitored (ext_do c st) = (if c = Time then unmonitored st else ext_do c (unmonitored st))"
  by (simp add: unmonitored_def ext_do_def)

lemma unmonitored_dump: "unmonitored (pcap_dump d pkt st) = pcap_dump d pkt (unmonitored st)"
  by (simp add: pcap_dump_def unmonitored_call)

lemma unmonitored_stream: "stream_of d (unmonitored st) = stream_of d st"
proof -
  have "dumped (filter (\<lambda>c. c \<noteq> Time) cs) = dumped cs" for cs by (induction cs rule: dumped.induct) simp_all
  then show ?thesis by (simp add: stream_of_def unmonitored_def)
qed

lemma unmonitored_same:
  assumes "unmonitored st = unmonitored st'"
  shows "stream_of d st = stream_of d st'" "faults st = faults st'"
  using unmonitored_stream [of d st] unmonitored_stream [of d st'] arg_cong [OF assms, of faults] assms
  by (simp_all add: unmonitored_def)

text \<open>Untunnelling takes the monitor only to count in it.\<close>

lemma untunnel_packet_monitor:
  "map_sum id snd (pcapsession_untunnel_packet mo h d) = map_sum id snd (pcapsession_untunnel_packet mo' h d)"
  by (auto simp: pcapsession_untunnel_packet_def sbind_def Let_def split: sum.splits option.splits prod.splits)

lemma untunnel_unmonitored:
  "merger_untunnel m pkt st = (new_pkt, st') \<Longrightarrow> unmonitored st = unmonitored X \<Longrightarrow>
    \<exists>X'. merger_untunnel m pkt X = (new_pkt, X') \<and> unmonitored st' = unmonitored X'"
  using untunnel_packet_monitor [of "mon (sess st m)" "fst pkt" "snd pkt" "mon (sess X m)"]
    unmonitored_sess(3) [of st X m]
  by (auto simp: merger_untunnel_def unmonitored_set_mon split: sum.splits)

section \<open>Simulation up to monitors\<close>

definition simulates_unmonitored :: "nat \<Rightarrow> threads \<Rightarrow> gstate \<Rightarrow> bool" where
  "simulates_unmonitored m s X \<longleftrightarrow> (\<exists>st. simulates m (s\<lparr>shared := st\<rparr>) X \<and> unmonitored st = unmonitored (shared s))"

lemma advance_unmonitored:
  assumes "advance m i s = Some (es, s')" and "unmonitored st = unmonitored (shared s)"
  shows "\<exists>st'. advance m i (s\<lparr>shared := st\<rparr>) = Some (es, s'\<lparr>shared := st'\<rparr>) \<and> unmonitored st' = unmonitored (shared s')"
proof (cases "point s i")
  case Outside
  then show ?thesis
    using assms unmonitored_sess(1) [OF assms(2), of i]
    by (intro exI [of _ st]) (auto simp: advance_def move_def split: list.splits option.splits if_splits)
next
  case (Locked pkt)
  obtain new_pkt st1 where u: "merger_untunnel m pkt (shared s) = (new_pkt, st1)" by fastforce
  with untunnel_unmonitored [OF u assms(2) [symmetric]] show ?thesis
    using assms(1) Locked by (cases s) (auto simp: advance_def move_def)
next
  case (Dumping pkt new_pkt)
  then show ?thesis
    using assms unmonitored_sess(2) [OF assms(2), of m] by (cases s) (auto simp: advance_def move_def unmonitored_dump)
qed (use assms in \<open>cases s; auto simp: advance_def move_def split: if_splits\<close>)+

lemma flush_unmonitored:
  assumes "simulates m (s\<lparr>shared := st\<rparr>) X" and "unmonitored st = unmonitored (shared s)" and "flush_advance m s = Some (es, s')"
  shows "simulates_unmonitored m s' (sequential m es X)"
proof (cases "flush s = Elsewhere")
  case True
  then show ?thesis using assms by (auto simp: simulates_unmonitored_def simulates_def flush_advance_def split: if_splits)
next
  case False
  then obtain st' where "flush_advance m (s\<lparr>shared := st\<rparr>) = Some (es, s'\<lparr>shared := st'\<rparr>)" "unmonitored st' = unmonitored (shared s')"
    using assms(2,3) unmonitored_sess(2) [OF assms(2), of m]
    by (cases s; cases "flush s") (auto simp: flush_advance_def unmonitored_call split: if_splits)
  then show ?thesis using flush_simulates [OF assms(1)] by (auto simp: simulates_unmonitored_def)
qed

lemma report_unmonitored: "report_monitor now k st = Some st' \<Longrightarrow> unmonitored st' = unmonitored st"
  by (auto simp: report_monitor_def unmonitored_set_mon unmonitored_call split: option.splits sum.splits)

lemma report_step_simulates:
  assumes "simulates_unmonitored m s X" and "report_step m s es s'"
  shows "simulates_unmonitored m s' (sequential m es X)"
proof -
  obtain st where st: "simulates m (s\<lparr>shared := st\<rparr>) X" "unmonitored st = unmonitored (shared s)"
    using assms(1) by (auto simp: simulates_unmonitored_def)
  from assms(2) show ?thesis
  proof cases
    case thread
    then show ?thesis
    proof cases
      case (connection i)
      obtain st' where "advance m i (s\<lparr>shared := st\<rparr>) = Some (es, s'\<lparr>shared := st'\<rparr>)" "unmonitored st' = unmonitored (shared s')"
        using advance_unmonitored [OF connection st(2)] by blast
      then show ?thesis using advance_simulates [OF st(1)] by (auto simp: simulates_unmonitored_def)
    next
      case supervision
      show ?thesis by (rule flush_unmonitored [OF st supervision])
    qed
  next
    case (report now k st1)
    then show ?thesis using st report_unmonitored [OF report(3)] by (auto simp: simulates_unmonitored_def)
  next
    case (torn k mo)
    then show ?thesis using st by (auto simp: simulates_unmonitored_def unmonitored_set_mon)
  qed
qed

interpretation reporting: event_simulation "report_step m" "apply_event m" "simulates_unmonitored m" for m
  by unfold_locales (rule report_step_simulates [unfolded sequential_def])

lemma unmonitored_mutexes: "simulates_unmonitored m s X \<Longrightarrow> mutexes s"
  using simulates_mutexes by (fastforce simp: simulates_unmonitored_def mutexes_def)

lemma unmonitored_handler:
  assumes "simulates_unmonitored m s X"
  shows "handler (sess (shared s) k) = handler (sess X k)"
proof -
  obtain st where "simulates m (s\<lparr>shared := st\<rparr>) X" "unmonitored st = unmonitored (shared s)"
    using assms by (auto simp: simulates_unmonitored_def)
  from simulates_handler [OF this(1), of k] unmonitored_sess(1) [OF this(2), of k] show ?thesis by simp
qed

text \<open>The threads alone keep the relation too, so that they can finish from every state that is reached with reports.\<close>

interpretation reported: merger_match m "simulates_unmonitored m" for m
  by unfold_locales
    (fact report_step_simulates [OF _ report_step.thread, unfolded sequential_def] unmonitored_mutexes unmonitored_handler)+

lemma report_runs_simulates:
  assumes "report_runs m s es s'" and "at_rest s"
  shows "simulates_unmonitored m s' (sequential m es (shared s))"
proof -
  have "simulates_unmonitored m s (shared s)"
    unfolding simulates_unmonitored_def using at_rest_simulates [OF assms(2), of m] by (intro exI [of _ "shared s"]) simp
  then show ?thesis unfolding sequential_def by (rule reporting.runs_match [OF assms(1)])
qed

lemma report_runs_packets:
  "report_runs m s es s' \<Longrightarrow> handled i es @ in_hand (point s' i) @ waiting s' i = in_hand (point s i) @ waiting s i"
  by (erule event_runs_conserved [where g = "\<lambda>s. in_hand (point s i) @ waiting s i"])
    (auto elim!: report_stepE simp: step_packets)

lemma report_runs_work:
  assumes "report_runs m s es s'"
  shows "work s' i \<le> work s i \<and> (waiting s' i \<noteq> [] \<longrightarrow> waiting s i \<noteq> [])"
  using assms
proof (induction rule: event_runs.induct)
  case (more s es s' es' s'')
  have "work s'' i \<le> work s' i \<and> (waiting s'' i \<noteq> [] \<longrightarrow> waiting s' i \<noteq> [])"
    using more(2) runs_work [OF runs_one, of m s' es' s'' i] by (auto elim!: report_stepE simp: work_def)
  then show ?case using more(3) by auto
qed simp

lemma report_runs_refine:
  assumes "report_runs m s es s'" and "at_rest s" and "merge_mutex s' = None"
  shows "unmonitored (shared s') = unmonitored (sequential m es (shared s))"
proof -
  obtain st where "simulates m (s'\<lparr>shared := st\<rparr>) (sequential m es (shared s))" "unmonitored st = unmonitored (shared s')"
    using report_runs_simulates [OF assms(1,2)] by (auto simp: simulates_unmonitored_def)
  then show ?thesis using simulatesD(1) assms(3) by fastforce
qed

text \<open>When all threads are done.\<close>

lemma report_runs_finished:
  assumes "report_runs m s es s'" and "at_rest s" and "finished s'"
  shows "unmonitored (shared s') = unmonitored (sequential m es (shared s))" "handled i es = waiting s i"
proof -
  have "merge_mutex s' \<noteq> Some i" for i
    using mutexesD(1) [OF unmonitored_mutexes [OF report_runs_simulates [OF assms(1,2)]], of i] assms(3)
    by (simp add: finished_def)
  then have "merge_mutex s' = None" by auto
  then show "unmonitored (shared s') = unmonitored (sequential m es (shared s))" by (rule report_runs_refine [OF assms(1,2)])
  show "handled i es = waiting s i"
    using report_runs_packets [OF assms(1), of i] assms(2,3) by (simp add: at_rest_def finished_def)
qed

section \<open>Properties\<close>

text \<open>
  C2: the merger's threads refine the sequential handler. However the threads of the connections, the flushing
  supervision thread and its reports interleave, at most one thread is in the critical section, a flush and a dump never overlap,
  and whenever the merger's mutex is free the sessions, apart from their monitors, and the calls made are those that handling the
  packets one after the other gives, in the order in which they were dumped; without reports the monitors agree too. What a
  connection has handled, holds and still has to hand over is what it had, in the same order.
\<close>

theorem merger_threads_refine:
  assumes "at_rest s" and "report_runs m s es s'"
  shows "(merge_mutex s' = None \<longrightarrow> unmonitored (shared s') = unmonitored (sequential m es (shared s)) \<and>
      (runs m s es s' \<longrightarrow> shared s' = sequential m es (shared s))) \<and>
    (\<forall>i j. critical (point s' i) \<longrightarrow> critical (point s' j) \<longrightarrow> i = j) \<and>
    (\<forall>i. holds_pcap (point s' i) \<longrightarrow> flush s' \<notin> {Holding, Flushed}) \<and>
    (\<forall>i. handled i es @ in_hand (point s' i) @ waiting s' i = waiting s i)"
proof -
  note d = mutexesD [OF unmonitored_mutexes [OF report_runs_simulates [OF assms(2,1)]]]
  have "handled i es @ in_hand (point s' i) @ waiting s' i = waiting s i" for i
    using report_runs_packets [OF assms(2), of i] assms(1) by (simp add: at_rest_def)
  moreover have "runs m s es s' \<Longrightarrow> merge_mutex s' = None \<Longrightarrow> shared s' = sequential m es (shared s)"
    using simulatesD(1) runs_simulates assms(1) by blast
  ultimately show ?thesis using d(1,2,3) report_runs_refine [OF assms(2,1)] by auto
qed

text \<open>
  C6: merging cannot deadlock. From every state that the threads reach, with reports in between, they can still go on to the
  point where every packet of every connection has been handled, in the order of its connection.
\<close>

theorem merger_threads_complete:
  assumes "at_rest s" and "finite {i. waiting s i \<noteq> []}" and "served m s" and "report_runs m s es s'"
  shows "\<exists>es' s''. runs m s' es' s'' \<and> finished s'' \<and>
    unmonitored (shared s'') = unmonitored (sequential m (es @ es') (shared s)) \<and>
    (\<forall>i. handled i (es @ es') = waiting s i)"
proof -
  note sim = report_runs_simulates [OF assms(4,1)]
  have "work s' i = 0" if "waiting s i = []" for i
    using report_runs_work [OF assms(4), of i] assms(1) that by (simp add: work_def at_rest_def)
  moreover have "served m s'"
    using assms(3) report_runs_work [OF assms(4)] unmonitored_handler [OF sim] by (simp add: served_def)
  ultimately obtain es' s'' where r: "runs m s' es' s''" and f: "finished s''"
    using reported.can_finish [OF sim _ assms(2)] by auto
  have "report_runs m s (es @ es') s''" by (rule event_runs_trans [OF runs_report_runs [OF r] assms(4)])
  note e = report_runs_finished [OF this assms(1) f]
  show ?thesis using r f e by blast
qed

text \<open>The sample threads with a monitor in the merger, which is reported and cleared before they start.\<close>

definition sample_monitor :: monitor where
  "sample_monitor = \<lparr>mon_id = 0, mon_description = ''out'', packets = 5, bytes = 500, gtp_packets = 0, gtp_bytes = 0,
     gtp_ext = 0, gtp_seqno = 0, gtp_npdu = 0, last_output_time = 90\<rparr>"

definition monitored_threads :: threads where
  "monitored_threads = two_threads\<lparr>shared := set_sess 0 (\<lambda>s. s\<lparr>mon := Some sample_monitor\<rparr>) merge_state\<rparr>"

lemma monitored_threads_ok:
  "at_rest monitored_threads" "finite {i. waiting monitored_threads i \<noteq> []}" "served 0 monitored_threads"
  using two_threads_ok
  by (simp_all add: monitored_threads_def at_rest_def served_def set_sess_field two_threads_def)

lemma sample_report:
  "report_monitor 100 0 (shared monitored_threads) = Some
     ((set_sess 0 (\<lambda>s. s\<lparr>mon := Some (clear_counters sample_monitor 100)\<rparr>) (ext_do Time (shared monitored_threads)))
       \<lparr>clocks := (\<lambda>_. 0)(F_pcapsession := 100)\<rparr>)"
  by (simp add: report_monitor_def monitored_threads_def set_sess_def merge_state_def sample_monitor_def handle_monitor_def
      to_int32_def rate_def init_gstate_def ext_do_def)

theorem merger_threads_complete_witness:
  "\<exists>es s. report_runs 0 monitored_threads es s \<and> finished s \<and> map snd (handled 1 es) = [[1, 2], [3]]"
proof -
  obtain st where st: "report_monitor 100 0 (shared monitored_threads) = Some st" using sample_report by blast
  have r: "report_runs 0 monitored_threads [] (monitored_threads\<lparr>shared := st\<rparr>)"
    by (rule event_runs_one [where step = "report_step 0", OF report_step.report [OF st]])
  obtain es s where e: "runs 0 (monitored_threads\<lparr>shared := st\<rparr>) es s" "finished s"
      "\<forall>i. handled i es = waiting monitored_threads i"
    using merger_threads_complete [OF monitored_threads_ok r] by auto
  have "report_runs 0 monitored_threads ([] @ es) s" by (rule event_runs_trans [OF runs_report_runs [OF e(1)] r])
  then show ?thesis using e by (intro exI [of _ es] exI [of _ s]) (simp add: monitored_threads_def two_threads_def)
qed

theorem merger_threads_refine_witness:
  "\<exists>es s. runs 0 two_threads es s \<and> finished s \<and> shared s = sequential 0 es merge_state \<and> map snd (handled 2 es) = [[7]]"
proof -
  have z: "simulates 0 two_threads merge_state"
    using at_rest_simulates [OF two_threads_ok(1), of 0] by (simp add: two_threads_def)
  have "work two_threads i = 0" if "i \<notin> {1, 2}" for i using that by (simp add: work_def two_threads_def)
  then obtain es s where r: "runs 0 two_threads es s" "finished s"
    using merging.can_finish [OF z two_threads_ok(3), of "{1, 2}"] by blast
  note t = merger_threads_refine [OF two_threads_ok(1) runs_report_runs [OF r(1)]]
  have "merge_mutex s = None"
    using simulatesD(3) [OF runs_simulates [OF r(1) two_threads_ok(1)]] r(2)
    by (cases "merge_mutex s") (auto simp: finished_def)
  moreover have "handled 2 es = waiting two_threads 2" using t r(2) by (auto simp: finished_def)
  ultimately show ?thesis using r t by (intro exI [of _ es] exI [of _ s]) (simp add: two_threads_def)
qed

end
