(* ===== verification/Logger.thy ===== *)
theory Logger
  imports Probe_Prelude
begin

text \<open>
  The logger of \<open>include/logger.h\<close>: a connection to the system log that is opened once, and messages built from a format
  and its arguments. What reaches the log is a list of lines.
\<close>

section \<open>Formats\<close>

text \<open>
  The conversions that the sources use. The argument of \<open>%f\<close> is the text the C library prints for the number; an
  argument that is missing or of the wrong kind is undefined behaviour, \<open>None\<close> here.
\<close>

datatype argument = Arg_int int | Arg_str string | Arg_float string

definition conversion :: "string \<Rightarrow> (string \<times> string) option" where
  "conversion s =
     (if take 1 s \<in> {''d'', ''s'', ''f''} then Some (take 1 s, drop 1 s)
      else if take 3 s = ''lld'' then Some (''d'', drop 3 s)
      else None)"

fun convert :: "string \<Rightarrow> argument \<Rightarrow> string option" where
  "convert c (Arg_int i) = (if c = ''d'' then Some (dec_int i) else None)"
| "convert c (Arg_str s) = (if c = ''s'' then Some s else None)"
| "convert c (Arg_float s) = (if c = ''f'' then Some s else None)"

lemma conversion_shorter: "conversion s = Some (k, rest) \<Longrightarrow> length rest \<le> length s"
  by (auto simp: conversion_def split: if_splits)

function vsprintf :: "string \<Rightarrow> argument list \<Rightarrow> string option" where
  "vsprintf [] args = Some []"
| "vsprintf (c # cs) args =
     (if c \<noteq> CHR ''%'' then map_option ((#) c) (vsprintf cs args)
      else case (conversion cs, args) of
        (Some (k, rest), a # args) \<Rightarrow>
          (case (convert k a, vsprintf rest args) of (Some x, Some y) \<Rightarrow> Some (x @ y) | _ \<Rightarrow> None)
      | _ \<Rightarrow> None)"
  by pat_completeness auto

termination
  by (relation "measure (\<lambda>(s, _). length s)") (auto simp: less_Suc_eq_le dest: conversion_shorter [OF sym])

section \<open>The logger\<close>

record log_state =
  init_done :: int
  opened_as :: "string list"
  log_lines :: "string list"

definition init_logger :: "string \<Rightarrow> log_state \<Rightarrow> log_state" where
  "init_logger prog_name L =
     (if init_done L = 0 then L\<lparr>init_done := init_done L + 1, opened_as := opened_as L @ [prog_name]\<rparr> else L)"

text \<open>The broken-down local time, with \<open>None\<close> when \<open>localtime\<close> fails, and the microseconds of \<open>gettimeofday\<close>.\<close>

record tm =
  tm_hour :: nat
  tm_min :: nat
  tm_sec :: nat

abbreviation (input) MAX_MESSAGE_HEADER_SIZE :: nat where "MAX_MESSAGE_HEADER_SIZE \<equiv> 256"
abbreviation (input) MAX_MESSAGE_BODY_SIZE :: nat where "MAX_MESSAGE_BODY_SIZE \<equiv> 65536"

text \<open>
  The header is formatted and then cleared. \<open>sprintf\<close> writes its text and a terminator to the start of an array; a text
  that does not fit overruns it.
\<close>

definition sprintf_to :: "string \<Rightarrow> string \<Rightarrow> fault + string" where
  "sprintf_to mem text = sbind (str_into (length mem) text) (\<lambda>s. Inr (s @ NUL # drop (length s + 1) mem))"

definition memset_zero :: "string \<Rightarrow> string" where
  "memset_zero mem = replicate (length mem) NUL"

text \<open>The arrays hold whatever was on the stack: \<open>header\<close> and \<open>body\<close>.\<close>

definition write_to_syslog :: "tm option \<Rightarrow> nat \<Rightarrow> string \<Rightarrow> string \<Rightarrow> string \<Rightarrow> argument list \<Rightarrow> log_state \<Rightarrow>
    fault + log_state" where
  "write_to_syslog local_time usec header body message args L =
     (case local_time of None \<Rightarrow> Inl Null_pointer
      | Some t \<Rightarrow>
          sbind (str_into 16 (padded 2 (tm_hour t) @ '':'' @ padded 2 (tm_min t) @ '':'' @ padded 2 (tm_sec t) @ ''.'' @
            padded 3 (usec div 1000))) (\<lambda>time_arr.
          sbind (sprintf_to header (''eniq> '' @ time_arr @ '' ? 5:'')) (\<lambda>header.
          let header = memset_zero header; body = memset_zero body in
          if length message < length body then
            (case vsprintf message args of None \<Rightarrow> Inl Out_of_bounds
             | Some text \<Rightarrow>
                 sbind (sprintf_to body text) (\<lambda>body.
                 Inr (L\<lparr>log_lines := log_lines L @ [cstr header @ '' '' @ cstr body]\<rparr>)))
          else Inr L)))"

section \<open>Lemmas\<close>

lemma cstr_zero [simp]: "cstr (memset_zero mem) = []"
  by (cases mem) (simp_all add: memset_zero_def cstr_def)

lemma length_memset_zero [simp]: "length (memset_zero mem) = length mem"
  by (simp add: memset_zero_def)

lemma sprintf_to_in:
  assumes "length text < length mem"
  shows "sprintf_to mem text = Inr (text @ NUL # drop (length text + 1) mem)"
  using assms by (simp add: sprintf_to_def str_into_def)

text \<open>A time of day, as \<open>localtime\<close> and \<open>gettimeofday\<close> give it.\<close>

definition clock_time :: "tm \<Rightarrow> nat \<Rightarrow> bool" where
  "clock_time t usec \<longleftrightarrow> tm_hour t < 24 \<and> tm_min t < 60 \<and> tm_sec t \<le> 60 \<and> usec < 1000000"

lemma time_text_length:
  assumes "clock_time t usec"
  shows "length (padded 2 (tm_hour t) @ '':'' @ padded 2 (tm_min t) @ '':'' @ padded 2 (tm_sec t) @ ''.'' @ padded 3 (usec div 1000)) = 12"
proof -
  have "usec div 1000 < 10 ^ 3" using assms by (auto simp: clock_time_def intro: less_mult_imp_div_less)
  then show ?thesis using assms length_padded [of "usec div 1000" 3] by (simp add: clock_time_def length_padded)
qed

section \<open>Properties\<close>

text \<open>
  C36: what a message leaves in the log. At any time of day, a message whose text fits the array of 65536 characters
  becomes one line, a blank and the text: the header with the time is cleared before it is used. A format that is too
  long is dropped; a short format whose arguments make the text too long overruns the array.
\<close>

theorem write_to_syslog_line:
  assumes "clock_time t usec" and "length header = 256" and "length body = 65536" and "vsprintf message args = Some text"
    and "NUL \<notin> set text"
  shows "write_to_syslog (Some t) usec header body message args L =
    (if 65536 \<le> length message then Inr L
     else if length text < 65536 then Inr (L\<lparr>log_lines := log_lines L @ ['' '' @ text]\<rparr>)
     else Inl Buffer_overflow)"
proof -
  define time where "time = padded 2 (tm_hour t) @ '':'' @ padded 2 (tm_min t) @ '':'' @ padded 2 (tm_sec t) @ ''.'' @ padded 3 (usec div 1000)"
  have l: "length time = 12" unfolding time_def by (rule time_text_length [OF assms(1)])
  have h: "\<exists>m. sprintf_to header (''eniq> '' @ time @ '' ? 5:'') = Inr m"
    using l assms(2) sprintf_to_in [of "''eniq> '' @ time @ '' ? 5:''" header] by simp
  have b: "sprintf_to (memset_zero body) text =
      (if length text < 65536 then Inr (text @ NUL # drop (length text + 1) (memset_zero body)) else Inl Buffer_overflow)"
    using assms(3) by (simp add: sprintf_to_def str_into_def)
  show ?thesis
    using h l assms(3,4) cstr_nul [OF assms(5)]
    unfolding write_to_syslog_def time_def [symmetric] option.case by (auto simp: str_into_def b)
qed

theorem write_to_syslog_line_witness:
  "write_to_syslog (Some \<lparr>tm_hour = 9, tm_min = 5, tm_sec = 0\<rparr>) 12000 (replicate 256 CHR ''x'') (replicate 65536 CHR ''x'')
     ''session %d-%s'' [Arg_int 3, Arg_str ''eth0''] \<lparr>init_done = 1, opened_as = [], log_lines = []\<rparr> =
   Inr \<lparr>init_done = 1, opened_as = [], log_lines = ['' session 3-eth0'']\<rparr>"
proof -
  have d: "dec_int 3 = ''3''" by (simp add: dec_int_def dec.simps digit_char_def) code_simp
  have v: "vsprintf ''session %d-%s'' [Arg_int 3, Arg_str ''eth0''] = Some ''session 3-eth0''"
    by (simp add: conversion_def d)
  have c: "clock_time \<lparr>tm_hour = 9, tm_min = 5, tm_sec = 0\<rparr> 12000" by (simp add: clock_time_def)
  have h: "length (replicate 256 CHR ''x'') = 256" "length (replicate 65536 CHR ''x'') = 65536" by (rule length_replicate)+
  show ?thesis by (subst write_to_syslog_line [OF c h v]) simp_all
qed

text \<open>The programs log the text of their configuration, from an array as large as the one it is copied to.\<close>

lemma config_log_overflows:
  assumes "clock_time t usec" and "length header = 256" and "length body = 65536" and "NUL \<notin> set config_str"
    and "65536 - 23 \<le> length config_str"
  shows "write_to_syslog (Some t) usec header body (''config file contents: '' @ [CHR 0x0A] @ ''%s'') [Arg_str config_str] L =
    Inl Buffer_overflow"
proof -
  have "vsprintf (''config file contents: '' @ [CHR 0x0A] @ ''%s'') [Arg_str config_str] =
      Some (''config file contents: '' @ [CHR 0x0A] @ config_str)"
    by (simp add: conversion_def)
  from write_to_syslog_line [OF assms(1-3) this] show ?thesis using assms(4,5) by (simp split: if_splits)
qed

text \<open>The connection to the log is opened at most once.\<close>

lemma init_logger_once: "init_logger q (init_logger p L) = init_logger p L" if "0 \<le> init_done L"
  using that by (simp add: init_logger_def)

end
