(* ===== verification/Spec2Isabelle.thy ===== *)
theory Spec2Isabelle
  imports Program_Signals Gtp_Decode Filter_Programs Session_Reports Session_Types Logger
begin

text \<open>
  \<^bold>\<open>The packet distributer and merger of the probe: verification development\<close>

  \<^bold>\<open>The program.\<close> \<open>pcapdistributer\<close> captures packets, live from an interface or from the capture files of a
  directory, and sends each of them to every client that has connected to its TCP port. \<open>pcapmerger\<close>
  connects to a list of distributers and writes the packets it receives from all of them to one capture
  file, optionally without their GTP-U tunnel. Both are built on one library of \<open>sessions\<close>
  (\<open>src/pcapsession\<close>): a table of 128 sessions of six kinds (server, client connection, live capture, file
  capture, merger, client), each with an open, a run and a stop function, and one supervision thread that
  drives the life cycle of all of them once a second. Beside them are small filter programs on capture
  files (\<open>src/filterprograms\<close>) and a GTP version 1 library (\<open>src/gtp\<close>, \<open>include/gtpv1*.h\<close>).

  \<^bold>\<open>How the sources are modelled.\<close> Pure code is a HOL function. The state of the session library is the
  record \<open>gstate\<close> (session table, list of client connections, monitor clocks, faults), passed explicitly. Calls
  of the operating system and of libpcap go through \<open>ext\<close>: the function \<open>os\<close>, a parameter of every
  definition that makes a call, answers each call given the history of calls so far, and the history is kept, so
  that \<^emph>\<open>what was written to a dumper\<close> or \<^emph>\<open>was this descriptor closed\<close> is read off it. Undefined behaviour (a null
  pointer, an access outside a buffer, a string that overruns an array, a division by zero) is a value of the type
  \<open>fault\<close>: \<open>Inl\<close> of a sum in pure code, an entry of the list \<open>faults\<close> in stateful code, which goes on from
  there (an overlong description of a session is written in full, and the fault stands for what it overwrites). Machine integers are
  words where wrap-around matters (packet lengths, file sizes), and \<open>int\<close> where the code uses small signed
  numbers (states, descriptors). Loops that may run forever take fuel and return \<open>None\<close> when it runs out; theorems
  that such a loop returns give a fuel that is enough (two rounds for a shutdown, one step per captured octet for the
  decoder, one round per free session for the acceptor, one pass per iteration for the file capture), and the
  theorems that it does not return hold for every amount of fuel.

  \<^bold>\<open>The theories.\<close>

  \<^item> \<open>Probe_Prelude\<close>: faults, results, bounds-checked memory, C strings, the capture loop \<open>pcap_loop\<close> and the locale
    \<open>packet_handler\<close> (a handler that keeps an invariant keeps it through the loop), lemmas on words and lists.

  \<^item> \<open>Gtp_Header\<close> (\<open>gtp/gtpv1.c\<close>, \<open>gtpv1.h\<close>): the search for a GTP header in a frame. It agrees with an overflow-free
    reference search, finds the message of every well-formed frame, and reads outside the capture exactly on the
    frames of \<open>underflow_frame\<close>, where \<open>length - offset\<close> wraps around.

  \<^item> \<open>Gtp_Tables\<close> (\<open>gtpv1_information_elements.c\<close>, \<open>gtpv1_message_types.c\<close>): the tables that describe information
    elements and messages, row by row, and the lengths of TS 29.060 that they are to hold. \<open>Gtp_Fields\<close>
    (\<open>gtpv1_imsi.h\<close>, \<open>gtpv1_teid.h\<close>, \<open>gtpv1_eua.h\<close>): the fields, with round trips; a subscriber identity of 15 digits is
    decoded exactly, a shorter one is not. \<open>Gtp_Decode\<close> (\<open>decodegtp.c\<close>, \<open>gtpimsieua.c\<close>): the walk over the elements
    of a message. It visits the elements of a message coded as the standard says, each once; it ends unless it comes to an
    element of unknown type and length zero, and then it never ends.

  \<^item> \<open>Monitor\<close> (\<open>monitor.h\<close>): traffic counters and their periodic report. \<open>Untunnel\<close>
    (\<open>pcapsession_untunnel.c\<close>): removal of the tunnel; what remains of a packet with user data is the Ethernet header
    and the tunnelled packet, but the copy reads past the capture, and signalling messages are stripped too.

  \<^item> \<open>Os_Model\<close>: calls and their history. \<open>Tcp\<close> (\<open>utilities/tcp.c\<close>, \<open>tcp.h\<close>): sockets and
    address lists, with the conversions \<open>atol\<close> and \<open>atoi\<close> of the C library at their widths.

  \<^item> \<open>Session_Core\<close>, \<open>Session_Stop\<close>, \<open>Session_Open\<close>, \<open>Session_Run\<close>, \<open>Session_Packets\<close>, \<open>Session_Handling\<close>
    (\<open>src/pcapsession\<close>): the table; the stop, open and run functions of the kinds; the packet handlers; the life cycle and its
    supervision. The locale \<open>session_stopper\<close> states what session handling relies on in a stop function and is
    interpreted on all of them; \<open>session_opener\<close> is the same for the open functions; the distribution handler is a
    \<open>packet_handler\<close>. The transitions refine the life cycle \<open>next_state\<close> that the comments describe, except
    for a termination or abort that has timed out, after which the code starts the session again (\<open>timeout_restarts\<close>); shutdown completes, or hangs on a stale
    descriptor; distribution sends a client exactly the captured packets; the merger writes every packet once.

  \<^item> \<open>Session_System\<close>: the session library as a step relation whose steps are whole functions (an open, a
    supervision round, a run of a session thread, a packet handled), the states it reaches, and their invariant.
    \<open>Session_Types\<close>: the values that the fields of a session struct hold in these states. Its locale \<open>session_invariant\<close> says
    what a predicate on states needs to hold in every reachable one, and is interpreted twice: on the types of the fields,
    and on the states in which a session rests between two calls.

  \<^item> \<open>Event_Runs\<close>: runs of a step relation whose steps carry events, and the locale \<open>event_simulation\<close> (a relation that
    every step keeps is kept by every run).

  \<^item> \<open>Session_Threads\<close>: the merger's packet handler at the grain of the single accesses to shared data, run by the threads of
    its connections under \<open>merge_mutex\<close> and \<open>pcap_mutex\<close>, beside the supervision thread that flushes the file. The locale
    \<open>merger_match\<close> extends \<open>event_simulation\<close> by what is needed for the threads to finish. A thread that is
    cancelled in its write leaves both mutexes locked for good. A client connection that is stopped between the check of
    its descriptor and the dump makes the distributer dump through a null pointer. \<open>Session_Reports\<close> adds the reports of
    the monitors, which read and clear the counters without a mutex, and the lost or repeated counts that follow from it, as stores
    of any value into a monitor: every interleaving still has the effect of handling the packets one after the other, up to the
    monitors, and none deadlocks.

  \<^item> \<open>Filter_Programs\<close> (\<open>chunkpcapfile.c\<close>, \<open>usectstamp.c\<close>, \<open>pcapfilestats.c\<close>, \<open>gtpuntunnel.c\<close>, \<open>gtpaddr.c\<close>): chunking
    neither loses nor reorders packets and respects the size limit; time stamps count up; statistics are those of the
    packets read; \<open>gtpuntunnel\<close> writes what the merger would; addresses are replaced in user data without
    extension header, and every other packet is left as it is.

  \<^item> \<open>Config\<close> (\<open>utilities/config.c\<close>, \<open>utilities/genutils.c\<close>): the configuration, over a record of the functions of
    the JSON library that are called. The values of an array property are placed in order; removing a character in place
    equals a filter. \<open>Programs\<close> (\<open>pcapdistributer.cpp\<close>, \<open>pcapmerger.cpp\<close>): the main functions. Each starts the sessions
    that its configuration names, and leaves the sessions in a state that \<open>Session_System\<close> reaches, so that the
    invariants of that theory are those of the running programs.

  \<^item> \<open>Program_Signals\<close> (\<open>pcapdistributer.cpp\<close>, \<open>pcapmerger.cpp\<close>): the signals that the programs block and handle. A handled
    signal other than \<open>SIGSEGV\<close> ends a running program in an orderly way, as long as no supervised descriptor is
    lost; one that arrives before the supervision thread runs is lost, and with it all
    later ones.

  \<^item> \<open>Logger\<close> (\<open>logger.h\<close>): the text a message leaves in the system log.

  \<^item> This theory: the way of a packet from the capture of a distributer to the file of the merger.

  \<^bold>\<open>What is not modelled.\<close> The preemption of a thread inside a function, except in the packet handlers (\<open>Session_Threads\<close>): a
  step of \<open>Session_System\<close> is one function call. The signal handler runs as one step, wherever a thread is interrupted. The log calls
  of the other components. The licence tester \<open>MagicStringTester\<close>, of which the repository holds
  only a binary. Vendored headers (\<open>maven/include\<close>) and the examples of the capture card's vendor (\<open>examples\<close>). libpcap,
  json-c and the C library are parameters or are modelled by the behaviour the sources use.
\<close>

section \<open>From capture to merged file\<close>

text \<open>
  A distributer that is feeding one client: how it is answered by the operating system and by polling, its sessions, the
  capture session and the connection of the client, and the packets captured.
\<close>

record feed =
  feed_os :: os
  feed_polls :: "int \<Rightarrow> int"
  feed_state :: gstate
  feed_capture :: nat
  feed_conn :: nat
  feed_packets :: "packet list"

definition feed_dumper :: "feed \<Rightarrow> int" where
  "feed_dumper d = pcap_dumper (sess (feed_state d) (feed_conn d))"

text \<open>What the distributer writes to the connection while it handles its packets, and the state it is left in.\<close>

definition feed_run :: "feed \<Rightarrow> gstate" where
  "feed_run d = pcap_loop (pcapsession_clientconn_packet_handler (feed_os d) (Some (feed_capture d))) (feed_packets d) (feed_state d)"

definition sent :: "feed \<Rightarrow> packet list" where
  "sent d = stream_of (feed_dumper d) (feed_run d)"

text \<open>The connection is open and alone on its dumper, and nothing has been written to it yet.\<close>

definition feeding :: "feed \<Rightarrow> bool" where
  "feeding d \<longleftrightarrow> sessions_ok (feed_state d) \<and> dump_list_ok (feed_state d) \<and> polls (feed_polls d) (feed_os d) \<and>
     (\<forall>pkt \<in> set (feed_packets d). whole pkt) \<and> feed_capture d < 128 \<and> feed_conn d < 128 \<and>
     sole_dumper (feed_polls d) (feed_state d) (feed_conn d) \<and> stream_of (feed_dumper d) (feed_state d) = []"

text \<open>
  The merger \<open>m\<close> is open and has one connection, \<open>c k\<close>, for each distributer; the capture library hands to its thread
  the packets that the distributer has written, in a buffer that may hold more octets behind the captured ones. No other
  thread has anything to do. Untunnelling, if it is on, is defined for the packets in these buffers.
\<close>

definition connected :: "feed list \<Rightarrow> (nat \<Rightarrow> nat) \<Rightarrow> nat \<Rightarrow> threads \<Rightarrow> bool" where
  "connected ds c m s \<longleftrightarrow> at_rest s \<and> inj_on c {..<length ds} \<and> m < length (session_list (shared s)) \<and>
     pcap_dumper (sess (shared s) m) \<noteq> 0 \<and>
     (\<forall>k < length ds. merges_to (shared s) m (c k) \<and> map captured (waiting s (c k)) = sent (ds ! k) \<and>
        (\<forall>pkt \<in> set (waiting s (c k)). mergeable (untunnel (sess (shared s) m)) pkt)) \<and>
     (\<forall>i. i \<notin> c ` {..<length ds} \<longrightarrow> waiting s i = [])"

lemma sent_all:
  assumes "feeding d"
  shows "sent d = map captured (feed_packets d)" "faults (feed_run d) = faults (feed_state d)"
proof -
  have "conns_ok (feed_state d)" using assms by (simp add: feeding_def conns_ok_def)
  from loop_stream [OF this, of "feed_polls d" "feed_os d" "feed_packets d" "feed_capture d" "feed_conn d"] assms
  show "sent d = map captured (feed_packets d)" "faults (feed_run d) = faults (feed_state d)"
    by (simp_all add: feeding_def sent_def feed_run_def feed_dumper_def)
qed

lemma connectedD:
  assumes "connected ds c m s" and "k < length ds"
  shows "merges_to (shared s) m (c k)" "map captured (waiting s (c k)) = sent (ds ! k)"
    "pkt \<in> set (waiting s (c k)) \<Longrightarrow> mergeable (untunnel (sess (shared s) m)) pkt"
  using assms by (simp_all add: connected_def)

lemma handled_mem: "(i, pkt) \<in> set (handled_packets es) \<Longrightarrow> pkt \<in> set (handled i es)"
  by (induction es) (auto split: event.splits)

text \<open>
  C1: from capture to merged file. Distributers hand the packets they capture to their clients, one of which is a
  connection of the merger; the merger's threads run interleaved in any way, with flushes and reports of the monitors in
  between. When they have handled everything, the merged file has grown by the captured packets of all distributers, untunnelled as
  configured: each packet of each distributer once and in its order, nothing else, and without a fault on either side.
\<close>

theorem capture_to_merged_file:
  assumes "\<forall>d \<in> set ds. feeding d" and "connected ds c m s" and "report_runs m s es s'" and "finished s'"
  shows "\<exists>evs. stream_of (pcap_dumper (sess (shared s) m)) (shared s') =
      stream_of (pcap_dumper (sess (shared s) m)) (shared s) @
      map (\<lambda>(_, pkt). captured (merged (untunnel (sess (shared s) m)) pkt)) evs \<and>
    (\<forall>k < length ds. map snd (filter (\<lambda>x. fst x = c k) evs) = waiting s (c k) \<and>
      map captured (waiting s (c k)) = map captured (feed_packets (ds ! k))) \<and>
    fst ` set evs \<subseteq> c ` {..<length ds} \<and>
    faults (shared s') = faults (shared s) \<and> (\<forall>d \<in> set ds. faults (feed_run d) = faults (feed_state d))"
proof -
  have "at_rest s" using assms(2) by (simp add: connected_def)
  note h = report_runs_finished [OF assms(3) this assms(4)]
  let ?evs = "handled_packets es"
  have origin: "\<exists>k < length ds. i = c k \<and> pkt \<in> set (waiting s (c k))" if "(i, pkt) \<in> set ?evs" for i pkt
  proof -
    have w: "pkt \<in> set (waiting s i)" using handled_mem [OF that] h(2) by simp
    then have "i \<in> c ` {..<length ds}" using assms(2) by (auto simp: connected_def)
    then show ?thesis using w by blast
  qed
  have m: "\<forall>(i, pkt) \<in> set ?evs. merges_to (shared s) m i \<and> mergeable (untunnel (sess (shared s) m)) pkt"
    using origin connectedD(1,3) [OF assms(2)] by blast
  have g: "m < length (session_list (shared s))" "pcap_dumper (sess (shared s) m) \<noteq> 0"
    using assms(2) by (simp_all add: connected_def)
  have "map snd (filter (\<lambda>x. fst x = c k) ?evs) = waiting s (c k) \<and>
      map captured (waiting s (c k)) = map captured (feed_packets (ds ! k))" if "k < length ds" for k
    using h(2) [of "c k"] connectedD(2) [OF assms(2) that] sent_all(1) assms(1) that by (simp add: handled_eq)
  moreover have "fst ` set ?evs \<subseteq> c ` {..<length ds}" using origin by force
  ultimately show ?thesis
    using sequential_stream [OF g m] unmonitored_same [OF h(1)] assms(1) sent_all(2) by (intro exI [of _ ?evs]) simp
qed

text \<open>
  One distributer, with a packet in a GTP tunnel and one outside, and a merger that untunnels, with one connection to it. In the
  buffer of the merger 14 octets follow the tunnelled packet.
\<close>

definition sample_feed :: feed where
  "sample_feed = \<lparr>feed_os = quiet_os, feed_polls = (\<lambda>_. 0), feed_state = dist_state, feed_capture = 0, feed_conn = 1,
     feed_packets = [(sample_header, sample_frame), (sample_header\<lparr>caplen := 60\<rparr>, replicate 60 1)]\<rparr>"

definition sample_waiting :: "packet list" where
  "sample_waiting = [(sample_header, sample_frame @ replicate 14 0), (sample_header\<lparr>caplen := 60\<rparr>, replicate 60 1)]"

definition sample_threads :: threads where
  "sample_threads = \<lparr>waiting = (\<lambda>_. [])(1 := sample_waiting), point = (\<lambda>_. Outside), flush = Elsewhere,
     merge_mutex = None, pcap_mutex = None, shared = set_sess 0 (\<lambda>s. s\<lparr>untunnel := 1\<rparr>) merge_state\<rparr>"

lemma sample_feeding: "feeding sample_feed"
proof -
  have "\<forall>pkt \<in> set (feed_packets sample_feed). whole pkt" by code_simp
  then show ?thesis
    using dist_state_ok dist_state_delivers quiet_polls
    by (simp add: feeding_def sample_feed_def conns_ok_def sole_dumper_def feed_dumper_def dist_state_sess
        stream_of_def dist_state_def init_gstate_def set_sess_def del: One_nat_def)
qed

lemma sample_merger:
  "merges_to (shared sample_threads) 0 1" "0 < length (session_list (shared sample_threads))"
  "pcap_dumper (sess (shared sample_threads) 0) = 3" "untunnel (sess (shared sample_threads) 0) = 1"
  "stream_of 3 (shared sample_threads) = []" "waiting sample_threads = (\<lambda>_. [])(1 := sample_waiting)"
  "at_rest sample_threads" "served 0 sample_threads"
  by (auto simp: sample_threads_def merge_state_def merges_to_def set_sess_def zero_session_def stream_of_def init_gstate_def
      at_rest_def served_def)

lemma sample_mergeable: "\<forall>pkt \<in> set sample_waiting. mergeable 1 pkt"
proof -
  have "\<forall>pkt \<in> set sample_waiting. whole (merged 1 pkt) \<and> \<not> isl (pcapsession_untunnel_packet None (fst pkt) (snd pkt))"
    by code_simp
  then show ?thesis by (auto simp: mergeable_def)
qed

lemma sample_connected: "connected [sample_feed] (\<lambda>_. 1) 0 sample_threads"
proof -
  have "map captured sample_waiting = map captured (feed_packets sample_feed)" by code_simp
  then have "map captured sample_waiting = sent sample_feed" using sent_all(1) [OF sample_feeding] by simp
  then show ?thesis
    using sample_merger sample_mergeable by (simp add: connected_def inj_on_def less_Suc_eq del: One_nat_def)
qed

theorem capture_to_merged_file_witness:
  "\<exists>es s. runs 0 sample_threads es s \<and> finished s \<and>
    map snd (stream_of 3 (shared s)) = [take 14 sample_frame @ drop 54 sample_frame, replicate 60 1]"
proof -
  have "\<forall>i. i \<notin> {1} \<longrightarrow> work sample_threads i = 0" by (simp add: work_def sample_threads_def)
  then obtain es s where r: "runs 0 sample_threads es s" "finished s"
    using merging.can_finish [OF at_rest_simulates [OF sample_merger(7)] sample_merger(8), of "{1}"] by auto
  have "\<forall>d \<in> set [sample_feed]. feeding d" using sample_feeding by simp
  note t = capture_to_merged_file [OF this sample_connected runs_report_runs [OF r(1)] r(2), unfolded sample_merger]
  then obtain evs :: "(nat \<times> packet) list" where
      e: "stream_of 3 (shared s) = map (\<lambda>(_, pkt). captured (merged 1 pkt)) evs"
      "map snd (filter (\<lambda>x. fst x = 1) evs) = sample_waiting" "fst ` set evs \<subseteq> {1}"
    by (auto simp: lessThan_Suc simp del: One_nat_def)
  have "filter (\<lambda>x. fst x = 1) evs = evs" using e(3) by (intro filter_True) auto
  then have "stream_of 3 (shared s) = map (captured \<circ> merged 1) sample_waiting" using e(1,2) by (simp add: split_def flip: e(2))
  moreover have "map (snd \<circ> (captured \<circ> merged 1)) sample_waiting = [take 14 sample_frame @ drop 54 sample_frame, replicate 60 1]"
    by code_simp
  ultimately show ?thesis using r by (intro exI [of _ es] exI [of _ s]) simp
qed

end
